(* ===== verification/Prelude.thy ===== *)
theory Prelude
  imports Main "HOL-Library.AList" "HOL-Library.Sublist"
begin

text \<open>
  The shared layer of the development: the Python values every component uses
  (exceptions, results, dictionaries in insertion order), the proof collections, and two
  generic contracts: a key-value store and an event machine with an invariant.
  Nothing here models a particular file of the repository.
\<close>

section \<open>Proof collections\<close>

named_theorems dict_laws \<open>rewrite rules for insertion-ordered dictionaries\<close>
named_theorems str_laws \<open>rewrite rules for Python string operations\<close>
named_theorems py_defs \<open>unfolding rules of small Python helpers\<close>

section \<open>Exceptions and results\<close>

text \<open>
  The exceptions the source raises or catches by class. The payload is the text the
  exception carries where the code shows it to somebody, and nothing otherwise.
\<close>

datatype exn =
    UnsupportedProviderError string
  | InstanceNotFoundError string
  | ProvisioningError string
  | OpenClawConnectionError string
  | CredentialEncryptionError string
  | TeamsAuthError string
  | HTTPError string
  | HTTPException nat string
  | OSErr string
  | IntegrityError
  | PyTypeError
  | PyValueError
  | PyKeyError
  | PyIndexError
  | PyAttributeError
  | PyTimeoutError
  | PyRuntimeError string
  | PyException string

type_synonym 'a result = "exn + 'a"

abbreviation Raise :: "exn \<Rightarrow> 'a result" where "Raise \<equiv> Inl"
abbreviation Ok :: "'a \<Rightarrow> 'a result" where "Ok \<equiv> Inr"

definition bind_result :: "'a result \<Rightarrow> ('a \<Rightarrow> 'b result) \<Rightarrow> 'b result" where
  "bind_result r f = (case r of Inl e \<Rightarrow> Inl e | Inr x \<Rightarrow> f x)"

lemma bind_result_simps [simp]:
  "bind_result (Inl e) f = Inl e"
  "bind_result (Inr x) f = f x"
  by (simp_all add: bind_result_def)

lemma bind_result_Ok_iff:
  "bind_result r f = Inr y \<longleftrightarrow> (\<exists>x. r = Inr x \<and> f x = Inr y)"
  by (cases r) auto

definition is_ok :: "'a result \<Rightarrow> bool" where
  "is_ok r = (case r of Inl _ \<Rightarrow> False | Inr _ \<Rightarrow> True)"

lemma is_ok_simps [simp]: "is_ok (Inl e) = False" "is_ok (Inr x) = True"
  by (simp_all add: is_ok_def)

section \<open>Dictionaries in insertion order\<close>

text \<open>
  A Python dict keeps the order of first insertion: an assignment to a present key keeps
  its place, a new key goes to the end. That is \<open>AList.update\<close> on an association
  list; \<open>pop\<close> and \<open>del\<close> are \<open>AList.delete\<close>.
\<close>

type_synonym ('k, 'v) dict = "('k \<times> 'v) list"

definition dict_get :: "('k, 'v) dict \<Rightarrow> 'k \<Rightarrow> 'v option" where
  "dict_get d k = map_of d k"

definition dict_set :: "('k, 'v) dict \<Rightarrow> 'k \<Rightarrow> 'v \<Rightarrow> ('k, 'v) dict" where
  "dict_set d k v = AList.update k v d"

definition dict_pop :: "('k, 'v) dict \<Rightarrow> 'k \<Rightarrow> ('k, 'v) dict" where
  "dict_pop d k = AList.delete k d"

definition dict_has :: "('k, 'v) dict \<Rightarrow> 'k \<Rightarrow> bool" where
  "dict_has d k = (map_of d k \<noteq> None)"

definition dict_keys :: "('k, 'v) dict \<Rightarrow> 'k list" where
  "dict_keys d = map fst d"

definition dict_ok :: "('k, 'v) dict \<Rightarrow> bool" where
  "dict_ok d = distinct (map fst d)"

lemma dict_get_empty [simp, dict_laws]: "dict_get [] k = None"
  by (simp add: dict_get_def)

lemma dict_get_set [simp, dict_laws]:
  "dict_get (dict_set d k v) k' = (if k' = k then Some v else dict_get d k')"
  by (simp add: dict_get_def dict_set_def update_conv)

lemma dict_get_pop [simp, dict_laws]:
  "dict_get (dict_pop d k) k' = (if k' = k then None else dict_get d k')"
  by (simp add: dict_get_def dict_pop_def delete_conv)

lemma dict_has_get [dict_laws]: "dict_has d k \<longleftrightarrow> dict_get d k \<noteq> None"
  by (simp add: dict_has_def dict_get_def)

lemma dict_ok_empty [simp, dict_laws]: "dict_ok []"
  by (simp add: dict_ok_def)

lemma dict_ok_set [simp, intro, dict_laws]: "dict_ok d \<Longrightarrow> dict_ok (dict_set d k v)"
  by (simp add: dict_ok_def dict_set_def distinct_update)

lemma dict_ok_pop [simp, intro, dict_laws]: "dict_ok d \<Longrightarrow> dict_ok (dict_pop d k)"
  by (simp add: dict_ok_def dict_pop_def distinct_delete)

lemma dict_ok_filter [simp, intro, dict_laws]: "dict_ok d \<Longrightarrow> dict_ok (filter P d)"
  by (induction d) (auto simp: dict_ok_def)

lemma dict_get_in_set: "dict_get d k = Some v \<Longrightarrow> (k, v) \<in> set d"
  by (simp add: dict_get_def map_of_SomeD)

lemma dict_get_of_mem: "dict_ok d \<Longrightarrow> (k, v) \<in> set d \<Longrightarrow> dict_get d k = Some v"
  by (simp add: dict_ok_def dict_get_def)

lemma dict_keys_get: "k \<in> set (dict_keys d) \<longleftrightarrow> dict_get d k \<noteq> None"
  by (simp add: dict_keys_def dict_get_def map_of_eq_None_iff)

lemma dict_get_filter:
  "dict_ok d \<Longrightarrow> dict_get (filter P d) k =
     (case dict_get d k of None \<Rightarrow> None | Some v \<Rightarrow> if P (k, v) then Some v else None)"
  by (induction d)
    (auto simp: dict_ok_def dict_get_def map_of_eq_None_iff image_iff split: option.splits)

lemma length_dict_set:
  "length (dict_set d k v) = (if dict_has d k then length d else Suc (length d))"
  by (induction d) (auto simp: dict_set_def dict_has_def)

lemma length_dict_pop: "length (dict_pop d k) \<le> length d"
  by (simp add: dict_pop_def length_delete_le)

lemma dict_keys_set:
  "dict_keys (dict_set d k v) = (if k \<in> set (dict_keys d) then dict_keys d else dict_keys d @ [k])"
  by (simp add: dict_keys_def dict_set_def update_keys)

lemma dict_set_mem:
  "(a, b) \<in> set (dict_set d k v) \<Longrightarrow> (a, b) = (k, v) \<or> (a, b) \<in> set d"
  by (induction d) (auto simp: dict_set_def split: if_splits)

lemma dict_pop_mem: "(a, b) \<in> set (dict_pop d k) \<Longrightarrow> a \<noteq> k \<and> (a, b) \<in> set d"
  by (induction d) (auto simp: dict_pop_def split: if_splits)

section \<open>Contracts\<close>

text \<open>
  A store with lookup, assignment and removal: what the caches, registries and connection
  tables of the program need of the dictionaries they are built on.
\<close>

locale store =
  fixes get :: "'s \<Rightarrow> 'k \<Rightarrow> 'v option"
    and put :: "'s \<Rightarrow> 'k \<Rightarrow> 'v \<Rightarrow> 's"
    and del :: "'s \<Rightarrow> 'k \<Rightarrow> 's"
    and empty :: "'s"
  assumes get_empty: "get empty k = None"
    and get_put: "get (put s k v) k' = (if k' = k then Some v else get s k')"
    and get_del: "get (del s k) k' = (if k' = k then None else get s k')"
begin

text \<open>
  A predicate of the bindings survives an assignment that satisfies it, and every removal.
\<close>

definition holds_all :: "('k \<Rightarrow> 'v \<Rightarrow> bool) \<Rightarrow> 's \<Rightarrow> bool" where
  "holds_all P s \<longleftrightarrow> (\<forall>k v. get s k = Some v \<longrightarrow> P k v)"

lemma holds_all_empty: "holds_all P empty"
  by (simp add: holds_all_def get_empty)

lemma holds_all_put: "holds_all P s \<Longrightarrow> P k v \<Longrightarrow> holds_all P (put s k v)"
  by (auto simp: holds_all_def get_put split: if_splits)

lemma holds_all_del: "holds_all P s \<Longrightarrow> holds_all P (del s k)"
  by (auto simp: holds_all_def get_del split: if_splits)

lemma holds_allD: "holds_all P s \<Longrightarrow> get s k = Some v \<Longrightarrow> P k v"
  by (simp add: holds_all_def)

lemma put_del_commute: "k \<noteq> k' \<Longrightarrow> get (put (del s k) k' v) = get (del (put s k' v) k)"
  by (rule ext) (simp add: get_put get_del)

end

interpretation dict: store dict_get dict_set dict_pop "[]"
  by unfold_locales simp_all

text \<open>
  An event machine: a step function and an invariant every step keeps. A run is the fold
  of the steps; the invariant holds in every state of every run.
\<close>

locale event_machine =
  fixes step :: "'s \<Rightarrow> 'e \<Rightarrow> 's"
    and inv :: "'s \<Rightarrow> bool"
  assumes step_inv: "inv s \<Longrightarrow> inv (step s e)"
begin

lemma run_inv: "inv s \<Longrightarrow> inv (foldl step s es)"
  by (induction es arbitrary: s) (auto intro: step_inv)

lemma run_prefix_inv: "inv s \<Longrightarrow> inv (foldl step s (take n es))"
  by (rule run_inv)

end

section \<open>Generic list facts\<close>

lemma dropWhile_idem_hd: "dropWhile P xs = [] \<or> \<not> P (hd (dropWhile P xs))"
  by (induction xs) auto

lemma set_dropWhile_subset: "set (dropWhile P xs) \<subseteq> set xs"
  by (auto dest: set_dropWhileD)

lemma suffix_iff_drop: "suffix s t \<longleftrightarrow> length s \<le> length t \<and> drop (length t - length s) t = s"
  by (auto simp: suffix_def) (metis append_take_drop_id)

end
