(* ===== verification/PyStr.thy ===== *)
theory PyStr
  imports Prelude
begin

text \<open>
  The Python \<open>str\<close> operations the program uses. A \<open>str\<close> is the list of the bytes of its
  UTF-8 encoding, so every literal of the source (emoji included) is a value; \<open>py_len\<close>
  counts code points (the bytes that start one). \<open>strip\<close>, \<open>lower\<close> and \<open>isdigit\<close> act on
  ASCII: Unicode white space and non-ASCII capitals are left alone.
\<close>

section \<open>Characters\<close>

definition code :: "char \<Rightarrow> nat" where
  "code c = of_char c"

definition is_ws :: "char \<Rightarrow> bool" where
  "is_ws c = (let n = code c in (9 \<le> n \<and> n \<le> 13) \<or> (28 \<le> n \<and> n \<le> 32))"

definition lower_char :: "char \<Rightarrow> char" where
  "lower_char c = (if 65 \<le> code c \<and> code c \<le> 90 then char_of (code c + 32) else c)"

definition is_digit :: "char \<Rightarrow> bool" where
  "is_digit c = (48 \<le> code c \<and> code c \<le> 57)"

definition is_alpha :: "char \<Rightarrow> bool" where
  "is_alpha c = ((65 \<le> code c \<and> code c \<le> 90) \<or> (97 \<le> code c \<and> code c \<le> 122))"

definition is_hex :: "char \<Rightarrow> bool" where
  "is_hex c = (is_digit c \<or> (65 \<le> code c \<and> code c \<le> 70) \<or> (97 \<le> code c \<and> code c \<le> 102))"

definition is_ctrl :: "char \<Rightarrow> bool" where
  "is_ctrl c = (code c \<le> 31 \<or> code c = 127)"

lemma code_lt [simp]: "code c < 256"
  by (simp add: code_def)

lemma code_char_of [simp]: "n < 256 \<Longrightarrow> code (char_of n) = n"
  by (simp add: code_def of_char_of take_bit_eq_mod)

lemma code_inj: "code a = code b \<Longrightarrow> a = b"
  by (simp add: code_def)

lemma lower_char_idem [simp, str_laws]: "lower_char (lower_char c) = lower_char c"
proof (cases "65 \<le> code c \<and> code c \<le> 90")
  case True
  then have "code (lower_char c) = code c + 32" by (simp add: lower_char_def)
  with True show ?thesis by (simp add: lower_char_def [of "lower_char c"])
qed (auto simp: lower_char_def)

section \<open>strip, lower, len\<close>

definition lstrip_by :: "(char \<Rightarrow> bool) \<Rightarrow> string \<Rightarrow> string" where
  "lstrip_by P s = dropWhile P s"

definition rstrip_by :: "(char \<Rightarrow> bool) \<Rightarrow> string \<Rightarrow> string" where
  "rstrip_by P s = rev (dropWhile P (rev s))"

definition strip_by :: "(char \<Rightarrow> bool) \<Rightarrow> string \<Rightarrow> string" where
  "strip_by P s = rstrip_by P (lstrip_by P s)"

definition py_strip :: "string \<Rightarrow> string" where
  "py_strip s = strip_by is_ws s"

definition py_lower :: "string \<Rightarrow> string" where
  "py_lower s = map lower_char s"

definition py_len :: "string \<Rightarrow> nat" where
  "py_len s = length (filter (\<lambda>c. \<not> (128 \<le> code c \<and> code c < 192)) s)"

lemma lstrip_by_split: "\<exists>a. s = a @ lstrip_by P s \<and> (\<forall>c\<in>set a. P c)"
  unfolding lstrip_by_def
  by (rule exI [of _ "takeWhile P s"]) (auto dest: set_takeWhileD)

lemma rstrip_by_split: "\<exists>b. s = rstrip_by P s @ b \<and> (\<forall>c\<in>set b. P c)"
proof -
  have "rev s = takeWhile P (rev s) @ dropWhile P (rev s)" by simp
  then have "s = rev (dropWhile P (rev s)) @ rev (takeWhile P (rev s))"
    by (metis rev_append rev_rev_ident)
  then show ?thesis
    unfolding rstrip_by_def
    by (intro exI [of _ "rev (takeWhile P (rev s))"]) (auto dest: set_takeWhileD)
qed

lemma strip_by_split:
  obtains a b where "s = a @ strip_by P s @ b" "\<forall>c\<in>set a. P c" "\<forall>c\<in>set b. P c"
proof -
  obtain a where a: "s = a @ lstrip_by P s" "\<forall>c\<in>set a. P c"
    using lstrip_by_split [of s P] by blast
  obtain b where b: "lstrip_by P s = strip_by P s @ b" "\<forall>c\<in>set b. P c"
    using rstrip_by_split [of "lstrip_by P s" P] by (auto simp: strip_by_def)
  show thesis
    by (rule that [of a b]) (use a b in auto)
qed

lemma lstrip_by_hd: "lstrip_by P s = c # t \<Longrightarrow> \<not> P c"
  by (simp add: lstrip_by_def dropWhile_eq_Cons_conv)

lemma rstrip_by_last: "rstrip_by P s \<noteq> [] \<Longrightarrow> \<not> P (last (rstrip_by P s))"
  by (simp add: rstrip_by_def last_rev hd_dropWhile)

lemma strip_by_hd: "strip_by P s = c # t \<Longrightarrow> \<not> P c"
proof -
  assume eq: "strip_by P s = c # t"
  obtain b where "lstrip_by P s = strip_by P s @ b"
    using rstrip_by_split [of "lstrip_by P s" P] by (auto simp: strip_by_def)
  with eq show "\<not> P c" using lstrip_by_hd [of P s c "t @ b"] by simp
qed

lemma strip_by_last: "strip_by P s \<noteq> [] \<Longrightarrow> \<not> P (last (strip_by P s))"
  by (simp add: strip_by_def rstrip_by_last)

lemma strip_by_id:
  assumes "s = [] \<or> (\<not> P (hd s) \<and> \<not> P (last s))"
  shows "strip_by P s = s"
proof (cases "s = []")
  case False
  with assms have "\<not> P (hd s)" "\<not> P (hd (rev s))" by (auto simp: hd_rev)
  moreover have "dropWhile P xs = xs" if "\<not> P (hd xs)" for xs
    using that by (cases xs) auto
  ultimately show ?thesis by (simp add: strip_by_def lstrip_by_def rstrip_by_def)
qed (simp add: strip_by_def lstrip_by_def rstrip_by_def)

lemma strip_by_idem [simp, str_laws]: "strip_by P (strip_by P s) = strip_by P s"
proof (rule strip_by_id)
  show "strip_by P s = [] \<or> \<not> P (hd (strip_by P s)) \<and> \<not> P (last (strip_by P s))"
    using strip_by_last [of P s] strip_by_hd [of P s "hd (strip_by P s)" "tl (strip_by P s)"]
    by (cases "strip_by P s = []") auto
qed

lemma set_strip_by: "set (strip_by P s) \<subseteq> set s"
  by (rule strip_by_split [of s P]) (metis Un_iff set_append subsetI)

lemma strip_by_Nil_iff: "strip_by P s = [] \<longleftrightarrow> (\<forall>c\<in>set s. P c)"
proof
  assume "strip_by P s = []"
  moreover obtain a b where "s = a @ strip_by P s @ b" "\<forall>c\<in>set a. P c" "\<forall>c\<in>set b. P c"
    by (rule strip_by_split)
  ultimately show "\<forall>c\<in>set s. P c" by (metis Un_iff append_Nil set_append)
next
  assume "\<forall>c\<in>set s. P c"
  then show "strip_by P s = []"
    by (auto simp: strip_by_def lstrip_by_def rstrip_by_def dest: set_dropWhileD)
qed

lemma py_strip_idem [simp, str_laws]: "py_strip (py_strip s) = py_strip s"
  by (simp add: py_strip_def)

lemma py_lower_idem [simp, str_laws]: "py_lower (py_lower s) = py_lower s"
  by (simp add: py_lower_def)

lemma length_strip_by: "length (strip_by P s) \<le> length s"
  by (rule strip_by_split [of s P]) (metis length_append le_add1 le_add2 le_trans)

section \<open>Prefixes, search, split, join, replace\<close>

definition startswith :: "string \<Rightarrow> string \<Rightarrow> bool" where
  "startswith s p = prefix p s"

definition endswith :: "string \<Rightarrow> string \<Rightarrow> bool" where
  "endswith s p = suffix p s"

definition contains :: "string \<Rightarrow> string \<Rightarrow> bool" where
  "contains s p = sublist p s"

lemma startswith_iff [str_laws]: "startswith s p \<longleftrightarrow> (\<exists>t. s = p @ t)"
  by (auto simp: startswith_def prefix_def)

lemma startswith_append [simp, str_laws]: "startswith (p @ s) p"
  by (simp add: startswith_def)

lemma startswith_drop: "startswith s p \<Longrightarrow> p @ drop (length p) s = s"
  by (auto simp: startswith_iff)

lemma endswith_iff [str_laws]: "endswith s p \<longleftrightarrow> (\<exists>t. s = t @ p)"
  by (auto simp: endswith_def suffix_def)

text \<open>\<open>s.split(sep)\<close> for a one-character separator: always at least one piece.\<close>

fun split_on :: "char \<Rightarrow> string \<Rightarrow> string list" where
  "split_on d [] = [[]]"
| "split_on d (c # cs) =
     (if c = d then [] # split_on d cs
      else (case split_on d cs of [] \<Rightarrow> [[c]] | p # ps \<Rightarrow> (c # p) # ps))"

fun join_with :: "string \<Rightarrow> string list \<Rightarrow> string" where
  "join_with sep [] = []"
| "join_with sep [x] = x"
| "join_with sep (x # y # ys) = x @ sep @ join_with sep (y # ys)"

lemma split_on_nonempty [simp]: "split_on d s \<noteq> []"
  by (induction s) (auto split: list.splits)

lemma split_on_no_sep: "p \<in> set (split_on d s) \<Longrightarrow> d \<notin> set p"
  by (induction s arbitrary: p) (auto split: list.splits if_splits)

lemma join_split_on [simp, str_laws]: "join_with [d] (split_on d s) = s"
proof (induction s)
  case (Cons c cs)
  show ?case
  proof (cases "split_on d cs")
    case (Cons p ps)
    with Cons.IH show ?thesis by (cases ps) auto
  qed simp
qed simp

lemma join_with_Cons: "xs \<noteq> [] \<Longrightarrow> join_with sep (x # xs) = x @ sep @ join_with sep xs"
  by (cases xs) auto

lemma split_on_free: "d \<notin> set s \<Longrightarrow> split_on d s = [s]"
  by (induction s) auto

lemma split_on_append:
  "d \<notin> set a \<Longrightarrow> split_on d (a @ d # b) = a # split_on d b"
  by (induction a) auto

lemma split_on_join:
  "xs \<noteq> [] \<Longrightarrow> \<forall>x\<in>set xs. d \<notin> set x \<Longrightarrow> split_on d (join_with [d] xs) = xs"
proof (induction xs)
  case (Cons x xs)
  then show ?case
    by (cases "xs = []") (simp_all add: split_on_free join_with_Cons split_on_append)
qed simp

text \<open>\<open>s.replace(old, new)\<close>: left to right, matches do not overlap (\<open>old\<close> not empty).\<close>

fun replace_fuel :: "nat \<Rightarrow> string \<Rightarrow> string \<Rightarrow> string \<Rightarrow> string" where
  "replace_fuel n old new [] = []"
| "replace_fuel 0 old new (c # cs) = c # cs"
| "replace_fuel (Suc n) old new (c # cs) =
     (if old \<noteq> [] \<and> startswith (c # cs) old
      then new @ replace_fuel n old new (drop (length old) (c # cs))
      else c # replace_fuel n old new cs)"

definition py_replace :: "string \<Rightarrow> string \<Rightarrow> string \<Rightarrow> string" where
  "py_replace s old new = replace_fuel (length s) old new s"

lemma replace_fuel_enough:
  "length s \<le> n \<Longrightarrow> replace_fuel n old new s = replace_fuel (length s) old new s"
proof (induction "length s" arbitrary: s n rule: less_induct)
  case less
  show ?case
  proof (cases s)
    case (Cons c cs)
    with less.prems obtain m where m: "n = Suc m" "length cs \<le> m" by (cases n) auto
    show ?thesis
    proof (cases "old \<noteq> [] \<and> startswith (c # cs) old")
      case True
      let ?r = "drop (length old) (c # cs)"
      have len: "length ?r \<le> length cs" using True by (cases old) auto
      have "replace_fuel m old new ?r = replace_fuel (length ?r) old new ?r"
        by (rule less.hyps) (use len m Cons in auto)
      moreover have "replace_fuel (length cs) old new ?r = replace_fuel (length ?r) old new ?r"
        by (rule less.hyps) (use len Cons in auto)
      ultimately show ?thesis using True Cons m by simp
    next
      case False
      have "replace_fuel m old new cs = replace_fuel (length cs) old new cs"
        by (rule less.hyps) (use m Cons in auto)
      with False Cons m show ?thesis by auto
    qed
  qed (cases n; simp)
qed

lemma py_replace_Cons:
  "py_replace (c # cs) old new =
     (if old \<noteq> [] \<and> startswith (c # cs) old
      then new @ py_replace (drop (length old) (c # cs)) old new
      else c # py_replace cs old new)"
proof -
  have "replace_fuel (length cs) old new (drop (length old) (c # cs)) =
      replace_fuel (length (drop (length old) (c # cs))) old new (drop (length old) (c # cs))"
    if "old \<noteq> []"
    by (rule replace_fuel_enough) (use that in \<open>cases old; auto\<close>)
  then show ?thesis by (auto simp: py_replace_def)
qed

lemma py_replace_Nil [simp]: "py_replace [] old new = []"
  by (simp add: py_replace_def)

section \<open>Numbers as text\<close>

fun digits_of :: "nat \<Rightarrow> string" where
  "digits_of n = (if n < 10 then [char_of (48 + n)] else digits_of (n div 10) @ [char_of (48 + n mod 10)])"

declare digits_of.simps [simp del]

definition str_nat :: "nat \<Rightarrow> string" where
  "str_nat n = digits_of n"

definition str_int :: "int \<Rightarrow> string" where
  "str_int i = (if i < 0 then CHR ''-'' # digits_of (nat (- i)) else digits_of (nat i))"

lemma digits_of_nonempty [simp]: "digits_of n \<noteq> []"
  by (subst digits_of.simps) simp

lemma digits_of_digits: "c \<in> set (digits_of n) \<Longrightarrow> is_digit c"
proof (induction n rule: digits_of.induct)
  case (1 n)
  have "is_digit (char_of (48 + n mod 10))"
    using mod_less_divisor [of 10 n] by (simp add: is_digit_def del: mod_less_divisor)
  moreover have "n < 10 \<Longrightarrow> is_digit (char_of (48 + n))" by (simp add: is_digit_def)
  ultimately show ?case
    using 1 by (subst (asm) digits_of.simps) (auto split: if_splits)
qed

end
