(* ===== verification/Crypto.thy ===== *)
theory Crypto
  imports Settings
begin

text \<open>
  Secret encryption at rest (\<open>src/core/crypto.py\<close>) and the one-shot migration
  \<open>scripts/encrypt_existing_credentials.py\<close>. Fernet itself is the \<open>cryptography\<close>
  package: a parameter \<open>L\<close> of the model, with the documented law \<open>fernet_law\<close>
  (decrypting with the key that encrypted gives the plaintext back). Its randomness is a
  counter in the state, so two encryptions of one text are different calls.
\<close>

section \<open>The Fernet library and the module state\<close>

record 'f fernet_lib =
  new_fernet :: "string \<Rightarrow> 'f option"
  fernet_encrypt :: "'f \<Rightarrow> nat \<Rightarrow> string \<Rightarrow> string"
  fernet_decrypt :: "'f \<Rightarrow> string \<Rightarrow> string option"

definition fernet_law :: "'f fernet_lib \<Rightarrow> bool" where
  "fernet_law L \<longleftrightarrow> (\<forall>f n p. fernet_decrypt L f (fernet_encrypt L f n p) = Some p)"

record 'f crypto_state =
  cached_fernet :: "'f option"
  fernet_key_source :: "string option"
  nonce :: nat

definition init_crypto :: "'f crypto_state" where
  "init_crypto = \<lparr>cached_fernet = None, fernet_key_source = None, nonce = 0\<rparr>"

definition PREFIX :: string where
  "PREFIX = ''fernet:v1:''"

section \<open>Operations\<close>

definition get_fernet ::
    "'f fernet_lib \<Rightarrow> settings \<Rightarrow> 'f crypto_state \<Rightarrow> 'f result \<times> 'f crypto_state" where
  "get_fernet L cfg st =
     (let key = py_strip (credential_encryption_key cfg) in
      if key = [] then
        (Raise (CredentialEncryptionError ''key not configured''), st)
      else case (if fernet_key_source st \<noteq> Some key then None else cached_fernet st) of
        Some f \<Rightarrow> (Ok f, st)
      | None \<Rightarrow>
          (case new_fernet L key of
             None \<Rightarrow> (Raise (CredentialEncryptionError ''not a valid Fernet key''), st)
           | Some f \<Rightarrow>
               (Ok f, st\<lparr>cached_fernet := Some f, fernet_key_source := Some key\<rparr>)))"

definition is_encrypted :: "string \<Rightarrow> bool" where
  "is_encrypted value = startswith value PREFIX"

definition encrypt_secret ::
    "'f fernet_lib \<Rightarrow> settings \<Rightarrow> string \<Rightarrow> 'f crypto_state \<Rightarrow> string result \<times> 'f crypto_state" where
  "encrypt_secret L cfg plaintext st =
     (if py_strip (credential_encryption_key cfg) = [] then (Ok plaintext, st)
      else case get_fernet L cfg st of
        (Inl e, st') \<Rightarrow> (Inl e, st')
      | (Inr f, st') \<Rightarrow>
          (Ok (PREFIX @ fernet_encrypt L f (nonce st') plaintext), st'\<lparr>nonce := Suc (nonce st')\<rparr>))"

definition decrypt_secret ::
    "'f fernet_lib \<Rightarrow> settings \<Rightarrow> string \<Rightarrow> 'f crypto_state \<Rightarrow> string result \<times> 'f crypto_state" where
  "decrypt_secret L cfg value st =
     (if \<not> is_encrypted value then (Ok value, st)
      else case get_fernet L cfg st of
        (Inl e, st') \<Rightarrow> (Inl e, st')
      | (Inr f, st') \<Rightarrow>
          (case fernet_decrypt L f (drop (length PREFIX) value) of
             None \<Rightarrow> (Raise (CredentialEncryptionError ''key does not match''), st')
           | Some p \<Rightarrow> (Ok p, st')))"

definition process_bind_param ::
    "'f fernet_lib \<Rightarrow> settings \<Rightarrow> string option \<Rightarrow> 'f crypto_state \<Rightarrow>
     string option result \<times> 'f crypto_state" where
  "process_bind_param L cfg value st =
     (case value of
        None \<Rightarrow> (Ok None, st)
      | Some v \<Rightarrow>
          if is_encrypted v then (Ok (Some v), st)
          else case encrypt_secret L cfg v st of
            (Inl e, st') \<Rightarrow> (Inl e, st')
          | (Inr c, st') \<Rightarrow> (Ok (Some c), st'))"

definition process_result_value ::
    "'f fernet_lib \<Rightarrow> settings \<Rightarrow> string option \<Rightarrow> 'f crypto_state \<Rightarrow>
     string option result \<times> 'f crypto_state" where
  "process_result_value L cfg value st =
     (case value of
        None \<Rightarrow> (Ok None, st)
      | Some v \<Rightarrow>
          (case decrypt_secret L cfg v st of
             (Inl e, st') \<Rightarrow> (Inl e, st')
           | (Inr p, st') \<Rightarrow> (Ok (Some p), st')))"

section \<open>The cached key object is transparent\<close>

text \<open>The module keeps one Fernet object; it always belongs to the recorded key.\<close>

definition crypto_inv :: "'f fernet_lib \<Rightarrow> 'f crypto_state \<Rightarrow> bool" where
  "crypto_inv L st \<longleftrightarrow>
     (\<forall>f. cached_fernet st = Some f \<longrightarrow>
        (\<exists>k. fernet_key_source st = Some k \<and> new_fernet L k = Some f))"

text \<open>What the functions would do without the cache.\<close>

definition key_fernet :: "'f fernet_lib \<Rightarrow> settings \<Rightarrow> 'f result" where
  "key_fernet L cfg =
     (let key = py_strip (credential_encryption_key cfg) in
      if key = [] then Raise (CredentialEncryptionError ''key not configured'')
      else case new_fernet L key of
        None \<Rightarrow> Raise (CredentialEncryptionError ''not a valid Fernet key'')
      | Some f \<Rightarrow> Ok f)"

lemma crypto_inv_init: "crypto_inv L init_crypto"
  by (simp add: crypto_inv_def init_crypto_def)

lemma get_fernet_fst: "crypto_inv L st \<Longrightarrow> fst (get_fernet L cfg st) = key_fernet L cfg"
  by (auto simp: get_fernet_def key_fernet_def crypto_inv_def Let_def split: option.splits if_splits)

lemma get_fernet_inv: "crypto_inv L st \<Longrightarrow> crypto_inv L (snd (get_fernet L cfg st))"
  by (auto simp: get_fernet_def crypto_inv_def Let_def split: option.splits if_splits)

lemma encrypt_secret_inv: "crypto_inv L st \<Longrightarrow> crypto_inv L (snd (encrypt_secret L cfg p st))"
  using get_fernet_inv [of L st cfg]
  by (auto simp: encrypt_secret_def crypto_inv_def split: prod.splits sum.splits)

lemma decrypt_secret_inv: "crypto_inv L st \<Longrightarrow> crypto_inv L (snd (decrypt_secret L cfg p st))"
  using get_fernet_inv [of L st cfg]
  by (auto simp: decrypt_secret_def split: prod.splits sum.splits option.splits)

lemma encrypt_secret_fst:
  assumes "crypto_inv L st"
  shows "fst (encrypt_secret L cfg p st) =
    (if py_strip (credential_encryption_key cfg) = [] then Ok p
     else bind_result (key_fernet L cfg)
       (\<lambda>f. Ok (PREFIX @ fernet_encrypt L f (nonce (snd (get_fernet L cfg st))) p)))"
  using get_fernet_fst [OF assms, of cfg]
  by (auto simp: encrypt_secret_def bind_result_def split: prod.splits sum.splits)

lemma decrypt_secret_fst:
  assumes "crypto_inv L st"
  shows "fst (decrypt_secret L cfg v st) =
    (if \<not> is_encrypted v then Ok v
     else bind_result (key_fernet L cfg)
       (\<lambda>f. case fernet_decrypt L f (drop (length PREFIX) v) of
          None \<Rightarrow> Raise (CredentialEncryptionError ''key does not match'') | Some p \<Rightarrow> Ok p))"
  using get_fernet_fst [OF assms, of cfg]
  by (auto simp: decrypt_secret_def bind_result_def split: prod.splits sum.splits option.splits)

lemma is_encrypted_PREFIX [simp]: "is_encrypted (PREFIX @ t)"
  by (simp add: is_encrypted_def)

lemma is_encrypted_Nil [simp]: "\<not> is_encrypted []"
  by (simp add: is_encrypted_def startswith_def PREFIX_def)

lemma encrypt_secret_sealed:
  "fst (encrypt_secret L cfg p st) = Ok c \<Longrightarrow> py_strip (credential_encryption_key cfg) \<noteq> [] \<Longrightarrow>
   is_encrypted c"
  by (auto simp: encrypt_secret_def split: prod.splits sum.splits)

lemma decrypt_of_encrypt:
  assumes law: "fernet_law L" and inv: "crypto_inv L st" "crypto_inv L st'"
    and plain: "\<not> is_encrypted p" and enc: "fst (encrypt_secret L cfg p st) = Ok c"
  shows "fst (decrypt_secret L cfg c st') = Ok p"
  using assms
  by (auto simp: encrypt_secret_fst decrypt_secret_fst bind_result_Ok_iff fernet_law_def
      split: if_splits)

section \<open>The encrypted column\<close>

text \<open>
  What the ORM model relies on for its three secret columns: whatever \<open>process_bind_param\<close>
  stores is readable again, from any later state of the module, unless it already carried
  the storage prefix.
\<close>

lemma process_bind_param_Some:
  "fst (process_bind_param L cfg (Some v) st) = Ok c \<Longrightarrow>
   \<exists>s. c = Some s \<and>
     (if is_encrypted v then s = v else fst (encrypt_secret L cfg v st) = Ok s)"
  by (auto simp: process_bind_param_def split: if_splits prod.splits sum.splits)

lemma process_result_value_Some:
  "fst (process_result_value L cfg (Some v) st) =
     (case fst (decrypt_secret L cfg v st) of Inl e \<Rightarrow> Inl e | Inr p \<Rightarrow> Ok (Some p))"
  by (auto simp: process_result_value_def split: prod.splits sum.splits)

lemma process_bind_param_inv:
  assumes "crypto_inv L st"
  shows "crypto_inv L (snd (process_bind_param L cfg v st))"
proof (cases v)
  case (Some x)
  show ?thesis
    using encrypt_secret_inv [OF assms, of cfg x] assms
    by (cases "encrypt_secret L cfg x st")
      (auto simp: Some process_bind_param_def split: sum.splits)
qed (simp add: process_bind_param_def assms)

lemma process_result_value_inv:
  assumes "crypto_inv L st"
  shows "crypto_inv L (snd (process_result_value L cfg v st))"
proof (cases v)
  case (Some x)
  show ?thesis
    using decrypt_secret_inv [OF assms, of cfg x]
    by (cases "decrypt_secret L cfg x st")
      (auto simp: Some process_result_value_def split: sum.splits)
qed (simp add: process_result_value_def assms)

section \<open>The migration script\<close>

text \<open>
  \<open>scripts/encrypt_existing_credentials.py\<close>: one row of the raw \<open>SELECT\<close> is the uuid and
  the three stored columns; the connection is one transaction (\<open>engine.begin()\<close>), so an
  exception leaves the table as it was.
\<close>

record secret_row =
  row_uuid :: string
  row_secrets :: "(string, string option) dict"

definition SECRET_COLUMNS :: "string list" where
  "SECRET_COLUMNS = [''private_key_b64'', ''device_token'', ''gateway_token'']"

definition raw_value :: "secret_row \<Rightarrow> string \<Rightarrow> string" where
  "raw_value row col =
     (case dict_get (row_secrets row) col of Some (Some v) \<Rightarrow> v | _ \<Rightarrow> '''')"

fun encrypt_columns ::
    "'f fernet_lib \<Rightarrow> settings \<Rightarrow> secret_row \<Rightarrow> string list \<Rightarrow> 'f crypto_state \<Rightarrow>
     (string, string) dict result \<times> 'f crypto_state" where
  "encrypt_columns L cfg row [] st = (Ok [], st)"
| "encrypt_columns L cfg row (col # cols) st =
     (let value = raw_value row col in
      if value \<noteq> [] \<and> \<not> is_encrypted value then
        (case encrypt_secret L cfg value st of
           (Inl e, st') \<Rightarrow> (Inl e, st')
         | (Inr c, st') \<Rightarrow>
             (case encrypt_columns L cfg row cols st' of
                (Inl e, st'') \<Rightarrow> (Inl e, st'')
              | (Inr ps, st'') \<Rightarrow> (Ok ((col, c) # ps), st'')))
      else encrypt_columns L cfg row cols st)"

definition update_row :: "secret_row \<Rightarrow> (string, string) dict \<Rightarrow> secret_row" where
  "update_row row params =
     row\<lparr>row_secrets := foldl (\<lambda>d (c, v). dict_set d c (Some v)) (row_secrets row) params\<rparr>"

fun encrypt_rows ::
    "'f fernet_lib \<Rightarrow> settings \<Rightarrow> bool \<Rightarrow> secret_row list \<Rightarrow> 'f crypto_state \<Rightarrow>
     (secret_row list \<times> nat) result \<times> 'f crypto_state" where
  "encrypt_rows L cfg dry_run [] st = (Ok ([], 0), st)"
| "encrypt_rows L cfg dry_run (row # rows) st =
     (case encrypt_columns L cfg row SECRET_COLUMNS st of
        (Inl e, st') \<Rightarrow> (Inl e, st')
      | (Inr params, st') \<Rightarrow>
          (case encrypt_rows L cfg dry_run rows st' of
             (Inl e, st'') \<Rightarrow> (Inl e, st'')
           | (Inr (rs, n), st'') \<Rightarrow>
               (if params = [] then (Ok (row # rs, n), st'')
                else (Ok ((if dry_run then row else update_row row params) # rs, Suc n), st''))))"

text \<open>The exit code (or the exception), the table afterwards and the counter it prints.\<close>

definition encrypt_existing ::
    "'f fernet_lib \<Rightarrow> settings \<Rightarrow> bool \<Rightarrow> secret_row list \<Rightarrow> 'f crypto_state \<Rightarrow>
     nat result \<times> secret_row list \<times> nat" where
  "encrypt_existing L cfg dry_run rows st =
     (if py_strip (credential_encryption_key cfg) = [] then (Ok 1, rows, 0)
      else case encrypt_rows L cfg dry_run rows st of
        (Inl e, _) \<Rightarrow> (Inl e, rows, 0)
      | (Inr (rs, n), _) \<Rightarrow> (Ok 0, rs, n))"

section \<open>What the script guarantees\<close>

text \<open>Reading a stored value, and the two facts a row must satisfy after the script.\<close>

definition read_secret :: "'f fernet_lib \<Rightarrow> settings \<Rightarrow> string \<Rightarrow> string result" where
  "read_secret L cfg v = fst (decrypt_secret L cfg v init_crypto)"

definition sealed_row :: "secret_row \<Rightarrow> bool" where
  "sealed_row row \<longleftrightarrow>
     (\<forall>col \<in> set SECRET_COLUMNS. raw_value row col = [] \<or> is_encrypted (raw_value row col))"

definition same_secrets :: "'f fernet_lib \<Rightarrow> settings \<Rightarrow> secret_row \<Rightarrow> secret_row \<Rightarrow> bool" where
  "same_secrets L cfg r r' \<longleftrightarrow> row_uuid r' = row_uuid r \<and>
     (\<forall>col. read_secret L cfg (raw_value r' col) = read_secret L cfg (raw_value r col))"

lemma read_secret_any:
  "crypto_inv L st \<Longrightarrow> fst (decrypt_secret L cfg v st) = read_secret L cfg v"
  by (simp add: read_secret_def decrypt_secret_fst crypto_inv_init)

lemma read_secret_plain [simp]: "\<not> is_encrypted v \<Longrightarrow> read_secret L cfg v = Ok v"
  by (simp add: read_secret_def decrypt_secret_def)

lemma raw_value_update:
  "distinct (map fst ps) \<Longrightarrow>
   raw_value (update_row row ps) col =
     (case map_of ps col of Some v \<Rightarrow> v | None \<Rightarrow> raw_value row col)"
proof (induction ps arbitrary: row)
  case (Cons p ps)
  obtain c v where p: "p = (c, v)" by (cases p)
  let ?r = "row\<lparr>row_secrets := dict_set (row_secrets row) c (Some v)\<rparr>"
  have "update_row row (p # ps) = update_row ?r ps" by (simp add: update_row_def p)
  moreover have "raw_value (update_row ?r ps) col =
      (case map_of ps col of Some v \<Rightarrow> v | None \<Rightarrow> raw_value ?r col)"
    using Cons.prems by (intro Cons.IH) simp
  moreover have "raw_value ?r col = (if col = c then v else raw_value row col)"
    by (simp add: raw_value_def)
  ultimately show ?case
    using Cons.prems by (auto simp: p map_of_eq_None_iff image_iff split: option.splits)
qed (simp add: update_row_def)

lemma encrypt_columns_spec:
  assumes "fst (encrypt_columns L cfg row cols st) = Ok ps" "crypto_inv L st" "fernet_law L"
    "py_strip (credential_encryption_key cfg) \<noteq> []"
  shows "map fst ps = filter (\<lambda>c. raw_value row c \<noteq> [] \<and> \<not> is_encrypted (raw_value row c)) cols \<and>
    (\<forall>(c, v) \<in> set ps. is_encrypted v \<and> read_secret L cfg v = Ok (raw_value row c)) \<and>
    crypto_inv L (snd (encrypt_columns L cfg row cols st))"
  using assms
proof (induction cols arbitrary: st ps)
  case (Cons col cols)
  show ?case
  proof (cases "raw_value row col \<noteq> [] \<and> \<not> is_encrypted (raw_value row col)")
    case True
    obtain r1 st1 where e1: "encrypt_secret L cfg (raw_value row col) st = (r1, st1)" by fastforce
    with Cons.prems True obtain c where c: "r1 = Inr c" by (cases r1) (auto simp: Let_def)
    obtain r2 st2 where e2: "encrypt_columns L cfg row cols st1 = (r2, st2)" by fastforce
    with Cons.prems True e1 c obtain qs where q: "r2 = Inr qs" "ps = (col, c) # qs"
      by (cases r2) (auto simp: Let_def)
    have inv1: "crypto_inv L st1"
      using encrypt_secret_inv [OF Cons.prems(2), of cfg "raw_value row col"] e1 by simp
    have "fst (decrypt_secret L cfg c st) = Ok (raw_value row col)"
      by (rule decrypt_of_encrypt [OF Cons.prems(3,2,2)]) (use True e1 c in auto)
    then have "read_secret L cfg c = Ok (raw_value row col)"
      using read_secret_any [OF Cons.prems(2)] by simp
    moreover have "is_encrypted c"
      using encrypt_secret_sealed [of L cfg "raw_value row col" st c] e1 c Cons.prems(4) by simp
    moreover note Cons.IH [of st1 qs]
    ultimately show ?thesis
      using True e1 c e2 q inv1 Cons.prems(3,4) by (auto simp: Let_def)
  next
    case False
    with Cons show ?thesis by (auto simp: Let_def)
  qed
qed auto

lemma encrypt_columns_row:
  assumes "fst (encrypt_columns L cfg row SECRET_COLUMNS st) = Ok ps" "crypto_inv L st"
    "fernet_law L" "py_strip (credential_encryption_key cfg) \<noteq> []"
  shows "sealed_row (update_row row ps)" "same_secrets L cfg row (update_row row ps)"
    "crypto_inv L (snd (encrypt_columns L cfg row SECRET_COLUMNS st))"
    "ps = [] \<longleftrightarrow> sealed_row row"
proof -
  note spec = encrypt_columns_spec [OF assms]
  have d: "distinct (map fst ps)"
    using spec by (simp add: SECRET_COLUMNS_def distinct_filter)
  have mem: "is_encrypted v \<and> read_secret L cfg v = Ok (raw_value row c)"
    if "map_of ps c = Some v" for c v
    using spec map_of_SomeD [OF that] by auto
  have none: "raw_value row c = [] \<or> is_encrypted (raw_value row c)"
    if "map_of ps c = None" "c \<in> set SECRET_COLUMNS" for c
    using spec that by (auto simp: map_of_eq_None_iff simp flip: set_map)
  have some: "\<not> is_encrypted (raw_value row c)" if "map_of ps c = Some v" for c v
  proof -
    have "c \<in> set (map fst ps)" using map_of_SomeD [OF that] by force
    then show ?thesis using spec by auto
  qed
  show "sealed_row (update_row row ps)"
    using mem none by (auto simp: sealed_row_def raw_value_update [OF d] split: option.splits)
  show "same_secrets L cfg row (update_row row ps)"
    using mem some
    by (auto simp: same_secrets_def raw_value_update [OF d] split: option.splits)
      (simp add: update_row_def)
  show "crypto_inv L (snd (encrypt_columns L cfg row SECRET_COLUMNS st))" using spec by simp
  have "ps = [] \<longleftrightarrow> map fst ps = []" by simp
  also have "\<dots> \<longleftrightarrow> sealed_row row"
    using spec by (auto simp: sealed_row_def filter_empty_conv)
  finally show "ps = [] \<longleftrightarrow> sealed_row row" .
qed

lemma same_secrets_refl [simp]: "same_secrets L cfg r r"
  by (simp add: same_secrets_def)

lemma encrypt_rows_spec:
  assumes "fst (encrypt_rows L cfg dry rows st) = Ok (rs, n)" "crypto_inv L st"
    "fernet_law L" "py_strip (credential_encryption_key cfg) \<noteq> []"
  shows "list_all2 (same_secrets L cfg) rows rs \<and>
    (if dry then rs = rows else list_all sealed_row rs) \<and>
    n = length (filter (\<lambda>r. \<not> sealed_row r) rows)"
  using assms
proof (induction rows arbitrary: st rs n)
  case (Cons row rows)
  obtain r1 st1 where e1: "encrypt_columns L cfg row SECRET_COLUMNS st = (r1, st1)" by fastforce
  with Cons.prems obtain ps where ps: "r1 = Inr ps" by (cases r1) auto
  obtain r2 st2 where e2: "encrypt_rows L cfg dry rows st1 = (r2, st2)" by fastforce
  with Cons.prems e1 ps obtain qs m where q: "r2 = Inr (qs, m)" by (cases r2) auto
  note row = encrypt_columns_row [of L cfg row st ps]
  have inv1: "crypto_inv L st1" using row(3) e1 ps Cons.prems by simp
  note ih = Cons.IH [of st1 qs m, OF _ inv1 Cons.prems(3,4)]
  show ?case
    using Cons.prems row(1,2,4) e1 ps e2 q ih by (auto split: if_splits)
qed auto

lemma encrypt_existing_spec:
  assumes "encrypt_existing L cfg dry rows st = (Ok 0, rs, n)" "crypto_inv L st" "fernet_law L"
  shows "list_all2 (same_secrets L cfg) rows rs \<and>
    (if dry then rs = rows else list_all sealed_row rs) \<and>
    n = length (filter (\<lambda>r. \<not> sealed_row r) rows)"
proof -
  have key: "py_strip (credential_encryption_key cfg) \<noteq> []"
    using assms(1) by (auto simp: encrypt_existing_def)
  have "fst (encrypt_rows L cfg dry rows st) = Ok (rs, n)"
    using assms(1) key by (auto simp: encrypt_existing_def split: prod.splits sum.splits)
  then show ?thesis by (rule encrypt_rows_spec [OF _ assms(2,3) key])
qed

section \<open>Properties\<close>

text \<open>
  A toy cipher for the witnesses: the library is a parameter, and this instance shows that
  its law can hold (a key of eight characters is valid, the token carries the key).
\<close>

definition toy_fernet :: "string fernet_lib" where
  "toy_fernet = \<lparr>
     new_fernet = (\<lambda>k. if length k = 8 then Some k else None),
     fernet_encrypt = (\<lambda>k n p. k @ rev p),
     fernet_decrypt = (\<lambda>k t. if startswith t k then Some (rev (drop (length k) t)) else None) \<rparr>"

definition toy_cfg :: settings where
  "toy_cfg = default_settings\<lparr>credential_encryption_key := '' 8letters ''\<rparr>"

lemma toy_fernet_law: "fernet_law toy_fernet"
  by (simp add: fernet_law_def toy_fernet_def)

text \<open>
  Property C23. An encrypted column reads back what was stored: whatever
  \<open>EncryptedText.process_bind_param\<close> writes for a value without the storage prefix,
  \<open>process_result_value\<close> returns as that value, from any later state of the module-level
  Fernet cache; with a key configured the stored text carries the prefix, without one it is
  the plaintext.
\<close>

theorem encrypted_column_roundtrip:
  assumes "fernet_law L" "crypto_inv L st" "crypto_inv L st'" "\<not> is_encrypted v"
    and "fst (process_bind_param L cfg (Some v) st) = Ok c"
  shows "fst (process_result_value L cfg c st') = Ok (Some v) \<and>
    (\<exists>s. c = Some s \<and> (is_encrypted s \<longleftrightarrow> py_strip (credential_encryption_key cfg) \<noteq> []))"
proof -
  obtain s where s: "c = Some s" "fst (encrypt_secret L cfg v st) = Ok s"
    using process_bind_param_Some [OF assms(5)] assms(4) by auto
  have "fst (decrypt_secret L cfg s st') = Ok v"
    by (rule decrypt_of_encrypt [OF assms(1,2,3,4) s(2)])
  moreover have "is_encrypted s \<longleftrightarrow> py_strip (credential_encryption_key cfg) \<noteq> []"
    using s(2) assms(4) encrypt_secret_sealed [OF s(2)]
    by (auto simp: encrypt_secret_def split: if_splits)
  ultimately show ?thesis by (simp add: s(1) process_result_value_Some)
qed

theorem encrypted_column_roundtrip_witness:
  "fst (process_bind_param toy_fernet toy_cfg (Some ''priv'') init_crypto) =
     Ok (Some (PREFIX @ ''8lettersvirp'')) \<and>
   fst (process_result_value toy_fernet toy_cfg (Some (PREFIX @ ''8lettersvirp'')) init_crypto) =
     Ok (Some ''priv'')"
proof -
  have b: "fst (process_bind_param toy_fernet toy_cfg (Some ''priv'') init_crypto) =
      Ok (Some (PREFIX @ ''8lettersvirp''))"
    by code_simp
  have "\<not> is_encrypted ''priv''" by code_simp
  from encrypted_column_roundtrip [OF toy_fernet_law crypto_inv_init crypto_inv_init this b] b
  show ?thesis by simp
qed

text \<open>
  Property C24. The migration script seals every credential, changes none, and is safe to
  re-run: after a successful run every non-empty secret column is encrypted and decrypts to
  what it read as before, the counter is the number of rows that had a plaintext secret,
  and a second run updates no row.
\<close>

theorem migration_seals_and_is_idempotent:
  assumes "fernet_law L" "crypto_inv L st" "crypto_inv L st'"
    and run: "encrypt_existing L cfg False rows st = (Ok 0, rs, n)"
  shows "list_all sealed_row rs \<and> list_all2 (same_secrets L cfg) rows rs \<and>
    n = length (filter (\<lambda>r. \<not> sealed_row r) rows) \<and>
    (\<forall>rs' n'. encrypt_existing L cfg False rs st' = (Ok 0, rs', n') \<longrightarrow> n' = 0)"
proof -
  note spec = encrypt_existing_spec [OF run assms(2,1)]
  have "n' = 0" if "encrypt_existing L cfg False rs st' = (Ok 0, rs', n')" for rs' n'
    using encrypt_existing_spec [OF that assms(3,1)] spec by (auto simp: list_all_iff filter_empty_conv)
  with spec show ?thesis by auto
qed

definition toy_row :: secret_row where
  "toy_row = \<lparr>row_uuid = ''u1'', row_secrets =
     [(''private_key_b64'', Some ''k''), (''device_token'', None), (''gateway_token'', Some ''g'')]\<rparr>"

theorem migration_seals_and_is_idempotent_witness:
  "\<exists>rs. encrypt_existing toy_fernet toy_cfg False [toy_row] init_crypto = (Ok 0, rs, 1) \<and>
     list_all sealed_row rs"
proof -
  obtain rs where r: "encrypt_existing toy_fernet toy_cfg False [toy_row] init_crypto = (Ok 0, rs, 1)"
  proof -
    have "fst (encrypt_existing toy_fernet toy_cfg False [toy_row] init_crypto) = Ok 0 \<and>
        snd (snd (encrypt_existing toy_fernet toy_cfg False [toy_row] init_crypto)) = 1"
      by code_simp
    then show thesis
      by (intro that [of "fst (snd (encrypt_existing toy_fernet toy_cfg False [toy_row] init_crypto))"])
        (auto simp: prod_eq_iff)
  qed
  from migration_seals_and_is_idempotent [OF toy_fernet_law crypto_inv_init crypto_inv_init this] r
  show ?thesis by blast
qed

end
