(* ===== verification/Models.thy ===== *)
theory Models
  imports Settings
begin

text \<open>
  The database (\<open>src/core/models.py\<close>, \<open>alembic/versions\<close>): one dictionary per table, keyed
  by the primary key, at the level of the ORM values (the secret columns are what
  \<open>Crypto\<close> reads back). \<open>schema_ok\<close> is what the constraints of the schema say of every
  committed state; \<open>SchemaMatch\<close> derives it from the schema's tables. Column lengths and timestamps
  are part of the schema there; relationship attributes are left out.
\<close>

section \<open>Tables\<close>

text \<open>\<open>Instance\<close>: the key of the table is \<open>instance_uuid\<close>.\<close>

record instance_row =
  row_instance_url :: string
  row_device_id :: string
  row_public_key_b64 :: string
  row_private_key_b64 :: string
  row_device_token :: string
  row_gateway_token :: string

text \<open>\<open>AppUser\<close>: the key is \<open>id\<close>.\<close>

record app_user_row =
  external_user_id :: "string option"
  role :: "string option"

text \<open>
  \<open>UserIdentity\<close> maps (provider, provider user id) to the user id, \<open>UserInstance\<close> maps
  the instance uuid to the user id, \<open>UserChannel\<close> maps (provider, provider user id) to
  the channel, \<open>MappingState\<close> is the version of its singleton row, if there is one, and
  \<open>dialect\<close> is the name of the SQL dialect the engine is bound to.
\<close>

record db =
  instances :: "(string, instance_row) dict"
  app_users :: "(string, app_user_row) dict"
  identities :: "(string \<times> string, string) dict"
  assignments :: "(string, string) dict"
  channels :: "(string \<times> string, string) dict"
  state_version :: "int option"
  dialect :: string

text \<open>Migration 001 creates empty tables, migration 002 seeds the version row with 1.\<close>

definition migrated_db :: db where
  "migrated_db = \<lparr>instances = [], app_users = [], identities = [], assignments = [],
     channels = [], state_version = Some 1, dialect = ''postgresql''\<rparr>"

text \<open>Primary keys, unique constraints and foreign keys.\<close>

definition schema_ok :: "db \<Rightarrow> bool" where
  "schema_ok d \<longleftrightarrow>
     dict_ok (instances d) \<and> dict_ok (app_users d) \<and> dict_ok (identities d) \<and>
     dict_ok (assignments d) \<and> dict_ok (channels d) \<and>
     (\<forall>u v r r' x. dict_get (app_users d) u = Some r \<longrightarrow> dict_get (app_users d) v = Some r' \<longrightarrow>
        external_user_id r = Some x \<longrightarrow> external_user_id r' = Some x \<longrightarrow> u = v) \<and>
     (\<forall>p a b u. dict_get (identities d) (p, a) = Some u \<longrightarrow>
        dict_get (identities d) (p, b) = Some u \<longrightarrow> a = b) \<and>
     (\<forall>k u. dict_get (identities d) k = Some u \<longrightarrow> dict_has (app_users d) u) \<and>
     (\<forall>i j u. dict_get (assignments d) i = Some u \<longrightarrow> dict_get (assignments d) j = Some u \<longrightarrow> i = j) \<and>
     (\<forall>i u. dict_get (assignments d) i = Some u \<longrightarrow>
        dict_has (instances d) i \<and> dict_has (app_users d) u)"

lemma schema_ok_migrated: "schema_ok migrated_db"
  by (simp add: schema_ok_def migrated_db_def)

lemma schema_okD:
  assumes "schema_ok d"
  shows "dict_ok (instances d)" "dict_ok (app_users d)" "dict_ok (identities d)"
    "dict_ok (assignments d)" "dict_ok (channels d)"
    "dict_get (app_users d) u = Some r \<Longrightarrow> dict_get (app_users d) v = Some r' \<Longrightarrow>
       external_user_id r = Some x \<Longrightarrow> external_user_id r' = Some x \<Longrightarrow> u = v"
    "dict_get (identities d) (p, a) = Some u \<Longrightarrow> dict_get (identities d) (p, b) = Some u \<Longrightarrow> a = b"
    "dict_get (identities d) k = Some u \<Longrightarrow> dict_has (app_users d) u"
    "dict_get (assignments d) i = Some u \<Longrightarrow> dict_get (assignments d) j = Some u \<Longrightarrow> i = j"
    "dict_get (assignments d) i = Some u \<Longrightarrow> dict_has (instances d) i"
    "dict_get (assignments d) i = Some u \<Longrightarrow> dict_has (app_users d) u"
  using assms unfolding schema_ok_def by blast+

lemma schema_okI:
  assumes "dict_ok (instances d) \<and> dict_ok (app_users d) \<and> dict_ok (identities d) \<and>
      dict_ok (assignments d) \<and> dict_ok (channels d)"
    and "\<And>u v r r' x. dict_get (app_users d) u = Some r \<Longrightarrow> dict_get (app_users d) v = Some r' \<Longrightarrow>
      external_user_id r = Some x \<Longrightarrow> external_user_id r' = Some x \<Longrightarrow> u = v"
    and "\<And>p a b u. dict_get (identities d) (p, a) = Some u \<Longrightarrow>
      dict_get (identities d) (p, b) = Some u \<Longrightarrow> a = b"
    and "\<And>p a u. dict_get (identities d) (p, a) = Some u \<Longrightarrow> dict_has (app_users d) u"
    and "\<And>i j u. dict_get (assignments d) i = Some u \<Longrightarrow> dict_get (assignments d) j = Some u \<Longrightarrow> i = j"
    and "\<And>i u. dict_get (assignments d) i = Some u \<Longrightarrow> dict_has (instances d) i"
    and "\<And>i u. dict_get (assignments d) i = Some u \<Longrightarrow> dict_has (app_users d) u"
  shows "schema_ok d"
  unfolding schema_ok_def using assms by (simp add: split_paired_all)

section \<open>SELECT\<close>

text \<open>
  The rows of a table that satisfy a \<open>WHERE\<close> clause, and SQLAlchemy's
  \<open>scalar_one_or_none\<close> / \<open>one_or_none\<close>: no row, one row, or an error for several.
\<close>

definition select_rows :: "('k \<times> 'v \<Rightarrow> bool) \<Rightarrow> ('k, 'v) dict \<Rightarrow> ('k \<times> 'v) list" where
  "select_rows P t = filter P t"

definition one_or_none :: "'a list \<Rightarrow> 'a option result" where
  "one_or_none xs =
     (case xs of [] \<Rightarrow> Ok None | [x] \<Rightarrow> Ok (Some x)
      | _ \<Rightarrow> Raise (PyException ''MultipleResultsFound''))"

lemma one_or_none_simps [simp]:
  "one_or_none [] = Ok None" "one_or_none [x] = Ok (Some x)"
  by (simp_all add: one_or_none_def)

text \<open>A join on a primary key has at most one partner; one on a unique column too.\<close>

lemma select_key:
  "dict_ok t \<Longrightarrow> select_rows (\<lambda>(k, v). k = a) t =
     (case dict_get t a of None \<Rightarrow> [] | Some v \<Rightarrow> [(a, v)])"
proof (induction t)
  case (Cons p t)
  obtain k v where p: "p = (k, v)" by (cases p)
  have "select_rows (\<lambda>(k, v). k = a) t = []" if "k = a"
    using Cons.prems that by (auto simp: p select_rows_def dict_ok_def filter_empty_conv image_iff)
  with Cons show ?case
    by (auto simp: p select_rows_def dict_ok_def dict_get_def)
qed (simp add: select_rows_def)

lemma select_unique:
  assumes "dict_ok t" and "\<And>k k' v v'. dict_get t k = Some v \<Longrightarrow> dict_get t k' = Some v' \<Longrightarrow>
      P (k, v) \<Longrightarrow> P (k', v') \<Longrightarrow> k = k'"
  shows "select_rows P t = [] \<or> (\<exists>k v. select_rows P t = [(k, v)] \<and> dict_get t k = Some v \<and> P (k, v))"
  using assms
proof (induction t)
  case (Cons p t)
  obtain k v where p: "p = (k, v)" by (cases p)
  have fresh: "dict_get t k = None"
    using Cons.prems(1) by (simp add: p dict_ok_def dict_get_def map_of_eq_None_iff)
  have get: "dict_get (p # t) a = (if a = k then Some v else dict_get t a)" for a
    by (simp add: p dict_get_def)
  have ok: "dict_ok t" using Cons.prems(1) by (simp add: dict_ok_def)
  have ih: "select_rows P t = [] \<or>
      (\<exists>k v. select_rows P t = [(k, v)] \<and> dict_get t k = Some v \<and> P (k, v))"
    by (rule Cons.IH [OF ok]) (rule Cons.prems(2); auto simp: get fresh split: if_splits)
  show ?case
  proof (cases "P (k, v)")
    case True
    have "select_rows P t = []"
    proof (rule ccontr)
      assume "select_rows P t \<noteq> []"
      with ih obtain k' v' where kv: "dict_get t k' = Some v'" "P (k', v')" by auto
      with fresh have "k' \<noteq> k" by auto
      with Cons.prems(2) [of k v k' v'] True kv show False by (auto simp: get)
    qed
    with True show ?thesis by (auto simp: p select_rows_def get [unfolded p])
  next
    case False
    then have eq: "select_rows P (p # t) = select_rows P t" by (simp add: p select_rows_def)
    have "dict_get t a = Some b \<Longrightarrow> dict_get (p # t) a = Some b" for a b
      using fresh by (auto simp: get)
    with ih show ?thesis unfolding eq by blast
  qed
qed (simp add: select_rows_def)

lemma select_rows_empty_iff:
  "dict_ok t \<Longrightarrow> select_rows P t = [] \<longleftrightarrow> (\<forall>k v. dict_get t k = Some v \<longrightarrow> \<not> P (k, v))"
  by (auto simp: select_rows_def filter_empty_conv dest: dict_get_in_set dict_get_of_mem)

end
