(* ===== verification/MappingStorage.thy ===== *)
theory MappingStorage
  imports Models
begin

text \<open>
  The mapping storage (\<open>src/services/mapping.py\<close>): the lookups over the five tables, the two
  per-process caches whose entries carry the global version and an expiry time, and the
  transaction that binds a user to an instance. Every operation takes the database and the
  storage object and returns them changed; a transaction that raises leaves the database as
  it was. The clock \<open>now\<close> is \<open>time.monotonic()\<close> at the call.
\<close>

section \<open>Data\<close>

record device_credentials =
  device_id :: string
  public_key_b64 :: string
  private_key_b64 :: string
  device_token :: string
  gateway_token :: string

record instance_info =
  instance_url :: string
  credentials :: device_credentials

definition DEFAULT_PROVIDER :: string where
  "DEFAULT_PROVIDER = ''mattermost''"

definition SUPPORTED_PROVIDERS :: "string list" where
  "SUPPORTED_PROVIDERS =
     [''mattermost'', ''telegram'', ''bitrix'', ''slack'', ''vk_teams'', ''teams'']"

definition MAX_CACHE_ENTRIES :: nat where
  "MAX_CACHE_ENTRIES = 1000"

type_synonym 'a cache = "(string \<times> string, int \<times> rat \<times> 'a) dict"

record mapping_storage =
  identity_cache :: "instance_info cache"
  external_id_cache :: "(string \<times> instance_info) cache"

definition new_storage :: mapping_storage where
  "new_storage = \<lparr>identity_cache = [], external_id_cache = []\<rparr>"

definition validate_provider :: "string \<Rightarrow> string result" where
  "validate_provider provider =
     (let normalized = py_lower (py_strip provider) in
      if normalized \<in> set SUPPORTED_PROVIDERS then Ok normalized
      else Raise (UnsupportedProviderError provider))"

section \<open>Cache internals\<close>

text \<open>
  \<open>state_upsert\<close> is the \<open>INSERT ... ON CONFLICT\<close> on the singleton row: \<open>bump\<close> adds one,
  otherwise the row is only created when absent.
\<close>

definition state_upsert :: "bool \<Rightarrow> db \<Rightarrow> db result" where
  "state_upsert bump d =
     (if dialect d \<noteq> ''postgresql'' \<and> dialect d \<noteq> ''sqlite''
      then Raise (PyRuntimeError ''Unsupported dialect for mapping_state upsert'')
      else Ok (d\<lparr>state_version :=
        (case state_version d of
           None \<Rightarrow> Some 1
         | Some v \<Rightarrow> if bump then Some (v + 1) else Some v)\<rparr>))"

text \<open>
  The version a reader sees. Where the row is absent it is created inside the session, but
  the session is closed without a commit, so the database keeps no row.
\<close>

definition cache_version :: "db \<Rightarrow> int result" where
  "cache_version d =
     (case state_version d of
        Some v \<Rightarrow> Ok v
      | None \<Rightarrow> bind_result (state_upsert False d)
          (\<lambda>d'. case state_version d' of Some v \<Rightarrow> Ok v | None \<Rightarrow> Raise PyTypeError))"

definition cache_get :: "'a cache \<Rightarrow> string \<times> string \<Rightarrow> int \<Rightarrow> rat \<Rightarrow> 'a option \<times> 'a cache" where
  "cache_get cache key version now =
     (case dict_get cache key of
        None \<Rightarrow> (None, cache)
      | Some (cached_version, expires_at, value) \<Rightarrow>
          if now > expires_at \<or> cached_version \<noteq> version
          then (None, dict_pop cache key)
          else (Some value, cache))"

definition cache_put ::
    "settings \<Rightarrow> rat \<Rightarrow> 'a cache \<Rightarrow> string \<times> string \<Rightarrow> int \<Rightarrow> 'a \<Rightarrow> 'a cache" where
  "cache_put cfg now cache key version value =
     dict_set (if MAX_CACHE_ENTRIES \<le> length cache then [] else cache) key
       (version, now + of_int (mapping_cache_ttl_sec cfg), value)"

section \<open>Queries\<close>

definition join_rows :: "('a \<Rightarrow> 'b list) \<Rightarrow> 'a list \<Rightarrow> 'b list" where
  "join_rows f rows = concat (map f rows)"

text \<open>\<open>user_instance JOIN instance\<close> for one user.\<close>

definition assigned_rows :: "db \<Rightarrow> string \<Rightarrow> instance_row list" where
  "assigned_rows d uid =
     join_rows (\<lambda>(iu, _). map snd (select_rows (\<lambda>(i, _). i = iu) (instances d)))
       (select_rows (\<lambda>(_, u). u = uid) (assignments d))"

definition query_by_identity :: "db \<Rightarrow> string \<Rightarrow> string \<Rightarrow> instance_row list" where
  "query_by_identity d provider puid =
     join_rows (\<lambda>(_, uid).
         join_rows (\<lambda>(aid, _). assigned_rows d aid)
           (select_rows (\<lambda>(a, _). a = uid) (app_users d)))
       (select_rows (\<lambda>(k, _). k = (provider, puid)) (identities d))"

definition query_by_external :: "db \<Rightarrow> string \<Rightarrow> string \<Rightarrow> (string \<times> instance_row) list" where
  "query_by_external d ext provider =
     join_rows (\<lambda>(uid, _).
         join_rows (\<lambda>((_, puid), _). map (\<lambda>r. (puid, r)) (assigned_rows d uid))
           (select_rows (\<lambda>((p, _), u). p = provider \<and> u = uid) (identities d)))
       (select_rows (\<lambda>(_, u). external_user_id u = Some ext) (app_users d))"

definition info_of_row :: "instance_row \<Rightarrow> instance_info" where
  "info_of_row r = \<lparr>instance_url = row_instance_url r,
     credentials = \<lparr>device_id = row_device_id r, public_key_b64 = row_public_key_b64 r,
       private_key_b64 = row_private_key_b64 r, device_token = row_device_token r,
       gateway_token = row_gateway_token r\<rparr>\<rparr>"

section \<open>Lookups\<close>

definition get_instance_by_identity ::
    "settings \<Rightarrow> rat \<Rightarrow> db \<Rightarrow> string \<Rightarrow> string \<Rightarrow> mapping_storage \<Rightarrow>
     instance_info result \<times> mapping_storage" where
  "get_instance_by_identity cfg now d provider0 puid st =
     (case validate_provider provider0 of Inl e \<Rightarrow> (Inl e, st) | Inr provider \<Rightarrow>
     (case cache_version d of Inl e \<Rightarrow> (Inl e, st) | Inr version \<Rightarrow>
     (case cache_get (identity_cache st) (provider, puid) version now of
        (Some info, c) \<Rightarrow> (Ok info, st\<lparr>identity_cache := c\<rparr>)
      | (None, c) \<Rightarrow>
          (let st' = st\<lparr>identity_cache := c\<rparr> in
           case one_or_none (query_by_identity d provider puid) of
             Inl e \<Rightarrow> (Inl e, st')
           | Inr None \<Rightarrow> (Raise (InstanceNotFoundError (provider @ '':'' @ puid)), st')
           | Inr (Some inst) \<Rightarrow>
               (let info = info_of_row inst in
                (Ok info, st'\<lparr>identity_cache := cache_put cfg now c (provider, puid) version info\<rparr>))))))"

definition get_instance ::
    "settings \<Rightarrow> rat \<Rightarrow> db \<Rightarrow> string \<Rightarrow> mapping_storage \<Rightarrow> instance_info result \<times> mapping_storage" where
  "get_instance cfg now d user_id st =
     get_instance_by_identity cfg now d DEFAULT_PROVIDER user_id st"

definition get_instance_by_external_id ::
    "settings \<Rightarrow> rat \<Rightarrow> db \<Rightarrow> string \<Rightarrow> string \<Rightarrow> mapping_storage \<Rightarrow>
     (string \<times> instance_info) result \<times> mapping_storage" where
  "get_instance_by_external_id cfg now d ext provider0 st =
     (case validate_provider provider0 of Inl e \<Rightarrow> (Inl e, st) | Inr provider \<Rightarrow>
     (case cache_version d of Inl e \<Rightarrow> (Inl e, st) | Inr version \<Rightarrow>
     (case cache_get (external_id_cache st) (ext, provider) version now of
        (Some value, c) \<Rightarrow> (Ok value, st\<lparr>external_id_cache := c\<rparr>)
      | (None, c) \<Rightarrow>
          (let st' = st\<lparr>external_id_cache := c\<rparr> in
           case one_or_none (query_by_external d ext provider) of
             Inl e \<Rightarrow> (Inl e, st')
           | Inr None \<Rightarrow> (Raise (InstanceNotFoundError (provider @ '':'' @ ext)), st')
           | Inr (Some (puid, inst)) \<Rightarrow>
               (let v = (puid, info_of_row inst) in
                (Ok v, st'\<lparr>external_id_cache := cache_put cfg now c (ext, provider) version v\<rparr>))))))"

section \<open>Invalidation\<close>

definition invalidate_identity_cache :: "mapping_storage \<Rightarrow> mapping_storage" where
  "invalidate_identity_cache st = st\<lparr>identity_cache := []\<rparr>"

definition invalidate_external_id_cache :: "mapping_storage \<Rightarrow> mapping_storage" where
  "invalidate_external_id_cache st = st\<lparr>external_id_cache := []\<rparr>"

definition invalidate_cache :: "mapping_storage \<Rightarrow> mapping_storage" where
  "invalidate_cache st = invalidate_external_id_cache (invalidate_identity_cache st)"

definition reload_cache_version :: "db \<Rightarrow> mapping_storage \<Rightarrow> int result \<times> mapping_storage" where
  "reload_cache_version d st =
     (case cache_version d of
        Inl e \<Rightarrow> (Inl e, st)
      | Inr version \<Rightarrow>
          (Ok version,
           st\<lparr>identity_cache := filter (\<lambda>(k, v, _, _). v = version) (identity_cache st),
              external_id_cache := filter (\<lambda>(k, v, _, _). v = version) (external_id_cache st)\<rparr>))"

section \<open>Channel bookkeeping\<close>

text \<open>\<open>UPDATE\<close>, and \<open>INSERT\<close> when no row was updated, in one transaction.\<close>

definition remember_channel :: "string \<Rightarrow> string \<Rightarrow> string \<Rightarrow> db \<Rightarrow> unit result \<times> db" where
  "remember_channel provider0 puid channel d =
     (case validate_provider provider0 of
        Inl e \<Rightarrow> (Inl e, d)
      | Inr provider \<Rightarrow>
          (let updated = map (\<lambda>(k, c). if k = (provider, puid) then (k, channel) else (k, c)) (channels d);
               rowcount = length (select_rows (\<lambda>(k, _). k = (provider, puid)) (channels d)) in
           (Ok (), d\<lparr>channels :=
              if rowcount = 0 then updated @ [((provider, puid), channel)] else updated\<rparr>)))"

definition get_channel :: "string \<Rightarrow> string \<Rightarrow> db \<Rightarrow> string option result" where
  "get_channel provider0 puid d =
     bind_result (validate_provider provider0) (\<lambda>provider. Ok (dict_get (channels d) (provider, puid)))"

section \<open>Binding a user to an instance\<close>

text \<open>The five steps of the transaction, in order; any of them may abort it.\<close>

definition upsert_instance :: "string \<Rightarrow> string \<Rightarrow> device_credentials \<Rightarrow> db \<Rightarrow> db result" where
  "upsert_instance uuid url creds d =
     (case dict_get (instances d) uuid of
        None \<Rightarrow> Ok (d\<lparr>instances := dict_set (instances d) uuid
          \<lparr>row_instance_url = url, row_device_id = device_id creds,
           row_public_key_b64 = public_key_b64 creds, row_private_key_b64 = private_key_b64 creds,
           row_device_token = device_token creds, row_gateway_token = gateway_token creds\<rparr>\<rparr>)
      | Some inst \<Rightarrow> Ok (d\<lparr>instances := dict_set (instances d) uuid
          (inst\<lparr>row_instance_url := url, row_device_id := device_id creds,
           row_public_key_b64 := public_key_b64 creds, row_private_key_b64 := private_key_b64 creds,
           row_device_token := device_token creds, row_gateway_token := gateway_token creds\<rparr>)\<rparr>))"

definition upsert_user :: "string \<Rightarrow> string \<Rightarrow> string option \<Rightarrow> db \<Rightarrow> db result" where
  "upsert_user app_user_id ext role0 d =
     (case dict_get (app_users d) app_user_id of
        None \<Rightarrow>
          if list_ex (\<lambda>(_, u). external_user_id u = Some ext) (app_users d) then Raise IntegrityError
          else Ok (d\<lparr>app_users := dict_set (app_users d) app_user_id
                 \<lparr>external_user_id = Some ext, role = role0\<rparr>\<rparr>)
      | Some user \<Rightarrow>
          if role user = None \<and> role0 \<noteq> None
          then Ok (d\<lparr>app_users := dict_set (app_users d) app_user_id (user\<lparr>role := role0\<rparr>)\<rparr>)
          else Ok d)"

definition upsert_identity :: "string \<Rightarrow> string \<Rightarrow> string \<Rightarrow> db \<Rightarrow> db result" where
  "upsert_identity app_user_id provider puid d =
     bind_result (one_or_none
         (select_rows (\<lambda>((p, _), u). u = app_user_id \<and> p = provider) (identities d)))
       (\<lambda>ident. case ident of
          None \<Rightarrow>
            if dict_has (identities d) (provider, puid) then Raise IntegrityError
            else Ok (d\<lparr>identities := dict_set (identities d) (provider, puid) app_user_id\<rparr>)
        | Some _ \<Rightarrow> Ok d)"

definition upsert_assignment :: "string \<Rightarrow> string \<Rightarrow> db \<Rightarrow> db result" where
  "upsert_assignment app_user_id uuid d =
     bind_result (one_or_none (select_rows (\<lambda>(_, u). u = app_user_id) (assignments d)))
       (\<lambda>ui. case ui of
          None \<Rightarrow>
            if dict_has (assignments d) uuid then Raise IntegrityError
            else Ok (d\<lparr>assignments := dict_set (assignments d) uuid app_user_id\<rparr>)
        | Some (old, _) \<Rightarrow>
            if old = uuid then Ok d
            else if dict_has (assignments d) uuid then Raise IntegrityError
            else Ok (d\<lparr>assignments := dict_set (dict_pop (assignments d) old) uuid app_user_id\<rparr>))"

definition bind_tx ::
    "string \<Rightarrow> string \<Rightarrow> string \<Rightarrow> string \<Rightarrow> device_credentials \<Rightarrow> string option \<Rightarrow> string option \<Rightarrow>
     db \<Rightarrow> db result" where
  "bind_tx provider puid uuid url creds ext role0 d =
     (let app_user_id = provider @ '':'' @ puid;
          ext_user_id = (case ext of None \<Rightarrow> app_user_id | Some x \<Rightarrow> if x = [] then app_user_id else x) in
      bind_result (upsert_instance uuid url creds d) (\<lambda>d1.
      bind_result (upsert_user app_user_id ext_user_id role0 d1) (\<lambda>d2.
      bind_result (upsert_identity app_user_id provider puid d2) (\<lambda>d3.
      bind_result (upsert_assignment app_user_id uuid d3) (state_upsert True)))))"

definition bind_user_instance ::
    "string \<Rightarrow> string \<Rightarrow> string \<Rightarrow> string \<Rightarrow> device_credentials \<Rightarrow> string option \<Rightarrow> string option \<Rightarrow>
     db \<Rightarrow> mapping_storage \<Rightarrow> instance_info result \<times> db \<times> mapping_storage" where
  "bind_user_instance provider0 puid uuid url creds ext role0 d st =
     (case validate_provider provider0 of
        Inl e \<Rightarrow> (Inl e, d, st)
      | Inr provider \<Rightarrow>
          (case bind_tx provider puid uuid url creds ext role0 d of
             Inl e \<Rightarrow> (Inl e, d, st)
           | Inr d' \<Rightarrow>
               (Ok \<lparr>instance_url = url, credentials = creds\<rparr>, d', invalidate_cache st)))"

section \<open>What the joins return\<close>

text \<open>
  The specification of a lookup: the identity's user, that user's assignment, that
  instance. Under the schema's constraints the joins return exactly this row.
\<close>

definition assigned_instance :: "db \<Rightarrow> string \<Rightarrow> (string \<times> instance_row) option" where
  "assigned_instance d uid =
     (case select_rows (\<lambda>(_, u). u = uid) (assignments d) of
        [] \<Rightarrow> None
      | (i, _) # _ \<Rightarrow> map_option (Pair i) (dict_get (instances d) i))"

definition lookup_identity :: "db \<Rightarrow> string \<times> string \<Rightarrow> (string \<times> instance_row) option" where
  "lookup_identity d k = Option.bind (dict_get (identities d) k) (assigned_instance d)"

lemma assignments_unique:
  assumes "schema_ok d"
  shows "select_rows (\<lambda>(_, u). u = uid) (assignments d) = [] \<or>
    (\<exists>i. select_rows (\<lambda>(_, u). u = uid) (assignments d) = [(i, uid)] \<and>
       dict_get (assignments d) i = Some uid)"
proof -
  have "select_rows (\<lambda>(_, u). u = uid) (assignments d) = [] \<or>
    (\<exists>i v. select_rows (\<lambda>(_, u). u = uid) (assignments d) = [(i, v)] \<and>
       dict_get (assignments d) i = Some v \<and> (case (i, v) of (_, u) \<Rightarrow> u = uid))"
    by (rule select_unique) (use schema_okD [OF assms] in auto)
  then show ?thesis by auto
qed

lemma identity_unique:
  assumes "schema_ok d"
  shows "select_rows (\<lambda>((q, _), u). u = uid \<and> q = p) (identities d) = [] \<or>
    (\<exists>a. select_rows (\<lambda>((q, _), u). u = uid \<and> q = p) (identities d) = [((p, a), uid)] \<and>
       dict_get (identities d) (p, a) = Some uid)"
proof -
  let ?P = "\<lambda>((q, _), u). u = uid \<and> q = p"
  have "k = k'" if "dict_get (identities d) k = Some v" "dict_get (identities d) k' = Some v'"
      "?P (k, v)" "?P (k', v')" for k k' v v'
    using that schema_okD(7) [OF assms] by (cases k; cases k') auto
  then show ?thesis
    using select_unique [of "identities d" ?P] schema_okD(3) [OF assms] by auto
qed

lemma assigned_rows_eq:
  assumes "schema_ok d"
  shows "assigned_rows d uid = map snd (case assigned_instance d uid of None \<Rightarrow> [] | Some r \<Rightarrow> [r])"
  using assignments_unique [OF assms, of uid] schema_okD(1) [OF assms]
  by (auto simp: assigned_rows_def assigned_instance_def join_rows_def select_key split: option.splits)

lemma query_by_identity_eq:
  assumes "schema_ok d"
  shows "query_by_identity d p a =
    map snd (case lookup_identity d (p, a) of None \<Rightarrow> [] | Some r \<Rightarrow> [r])"
proof (cases "dict_get (identities d) (p, a)")
  case None
  then show ?thesis
    using schema_okD(3) [OF assms]
    by (simp add: query_by_identity_def lookup_identity_def join_rows_def select_key)
next
  case (Some uid)
  then obtain u where "dict_get (app_users d) uid = Some u"
    using schema_okD(8) [OF assms, of "(p, a)" uid] by (auto simp: dict_has_get)
  with Some show ?thesis
    using schema_okD(2,3) [OF assms] assigned_rows_eq [OF assms, of uid]
    by (simp add: query_by_identity_def lookup_identity_def join_rows_def select_key)
qed

lemma one_or_none_query [simp]:
  "one_or_none (map f (case x of None \<Rightarrow> [] | Some r \<Rightarrow> [r])) = Ok (map_option f x)"
  by (cases x) simp_all

text \<open>Two identities that resolve to the same instance belong to the same user.\<close>

lemma lookup_identity_owner:
  assumes "schema_ok d" "lookup_identity d k = Some (i, r)"
  shows "\<exists>u. dict_get (identities d) k = Some u \<and> dict_get (assignments d) i = Some u \<and>
    dict_get (instances d) i = Some r"
proof -
  from assms(2) obtain u where u: "dict_get (identities d) k = Some u"
      "assigned_instance d u = Some (i, r)"
    by (auto simp: lookup_identity_def bind_eq_Some_conv)
  with assignments_unique [OF assms(1), of u] show ?thesis
    by (auto simp: assigned_instance_def)
qed

section \<open>The binding transaction keeps the schema\<close>

text \<open>What each step of the transaction changes, and nothing else.\<close>

lemma upsert_instance_cases:
  "upsert_instance uuid url creds d = Ok d' \<Longrightarrow>
   \<exists>r. d' = d\<lparr>instances := dict_set (instances d) uuid r\<rparr> \<and>
     info_of_row r = \<lparr>instance_url = url, credentials = creds\<rparr>"
  by (auto simp: upsert_instance_def info_of_row_def split: option.splits)

lemma upsert_user_cases:
  assumes "upsert_user uid ext role0 d = Ok d'"
  shows "d' = d \<and> dict_has (app_users d) uid \<or>
    (\<exists>r. d' = d\<lparr>app_users := dict_set (app_users d) uid r\<rparr> \<and>
      (\<forall>x. external_user_id r = Some x \<longrightarrow>
        (\<forall>v s. dict_get (app_users d) v = Some s \<longrightarrow> external_user_id s = Some x \<longrightarrow>
           dict_has (app_users d) uid \<and> external_user_id (the (dict_get (app_users d) uid)) = Some x)))"
proof (cases "dict_get (app_users d) uid")
  case None
  have "external_user_id s \<noteq> Some ext"
    if "\<not> list_ex (\<lambda>(_, u). external_user_id u = Some ext) (app_users d)"
      "dict_get (app_users d) v = Some s" for v s
    using that dict_get_in_set [of "app_users d" v s] by (auto simp: list_ex_iff)
  with None assms show ?thesis
    by (auto simp: upsert_user_def split: if_splits)
next
  case (Some u)
  with assms show ?thesis
    by (auto simp: upsert_user_def dict_has_get split: if_splits)
qed

lemma upsert_identity_cases:
  assumes "schema_ok d" "upsert_identity uid p a d = Ok d'"
  shows "(d' = d \<and> (\<exists>b. dict_get (identities d) (p, b) = Some uid)) \<or>
    (d' = d\<lparr>identities := dict_set (identities d) (p, a) uid\<rparr> \<and>
      dict_get (identities d) (p, a) = None \<and> (\<forall>b. dict_get (identities d) (p, b) \<noteq> Some uid))"
  using identity_unique [OF assms(1), of uid p]
proof
  let ?S = "select_rows (\<lambda>((q, _), u). u = uid \<and> q = p) (identities d)"
  assume e: "?S = []"
  then have "\<forall>b. dict_get (identities d) (p, b) \<noteq> Some uid"
    using schema_okD(3) [OF assms(1)] by (auto simp: select_rows_empty_iff)
  with e assms(2) show ?thesis by (auto simp: upsert_identity_def dict_has_get split: if_splits)
qed (use assms(2) in \<open>auto simp: upsert_identity_def\<close>)

lemma upsert_assignment_cases:
  assumes "schema_ok d" "upsert_assignment uid i d = Ok d'"
  shows "(d' = d \<and> dict_get (assignments d) i = Some uid) \<or>
    (dict_get (assignments d) i = None \<and>
      ((\<forall>j. dict_get (assignments d) j \<noteq> Some uid) \<and>
         d' = d\<lparr>assignments := dict_set (assignments d) i uid\<rparr> \<or>
       (\<exists>j. j \<noteq> i \<and> dict_get (assignments d) j = Some uid \<and>
         d' = d\<lparr>assignments := dict_set (dict_pop (assignments d) j) i uid\<rparr>)))"
  using assignments_unique [OF assms(1), of uid]
proof
  let ?S = "select_rows (\<lambda>(_, u). u = uid) (assignments d)"
  assume e: "?S = []"
  then have "\<forall>j. dict_get (assignments d) j \<noteq> Some uid"
    using schema_okD(4) [OF assms(1)] by (auto simp: select_rows_empty_iff)
  with e assms(2) show ?thesis by (auto simp: upsert_assignment_def dict_has_get split: if_splits)
qed (use assms(2) in \<open>auto simp: upsert_assignment_def dict_has_get split: if_splits\<close>)

lemma state_upsert_cases:
  "state_upsert b d = Ok d' \<Longrightarrow> \<exists>v. d' = d\<lparr>state_version := Some v\<rparr> \<and>
     (\<forall>w. state_version d = Some w \<longrightarrow> v = (if b then w + 1 else w)) \<and>
     (state_version d = None \<longrightarrow> v = 1)"
  by (auto simp: state_upsert_def split: if_splits option.splits)

lemma schema_ok_instances:
  assumes "schema_ok d"
  shows "schema_ok (d\<lparr>instances := dict_set (instances d) i r\<rparr>)"
  using schema_okD [OF assms] by (intro schema_okI) (simp_all add: dict_has_get)

lemma schema_ok_users:
  assumes "schema_ok d" "upsert_user uid ext role0 d = Ok d'"
  shows "schema_ok d'"
proof -
  note ok = schema_okD [OF assms(1)]
  from upsert_user_cases [OF assms(2)] consider "d' = d" |
      r where "d' = d\<lparr>app_users := dict_set (app_users d) uid r\<rparr>"
        "\<And>x v s. external_user_id r = Some x \<Longrightarrow> dict_get (app_users d) v = Some s \<Longrightarrow>
           external_user_id s = Some x \<Longrightarrow>
           dict_has (app_users d) uid \<and> external_user_id (the (dict_get (app_users d) uid)) = Some x"
    by blast
  then show ?thesis
  proof cases
    case (2 r)
    have other: "w = uid" if "external_user_id r = Some x" "dict_get (app_users d) w = Some s"
        "external_user_id s = Some x" for x w s
      using 2(2) [OF that] ok(6) [of w s uid _ x] that by (auto simp: dict_has_get)
    show ?thesis
    proof (rule schema_okI)
      fix u v a b x
      assume "dict_get (app_users d') u = Some a" "dict_get (app_users d') v = Some b"
        "external_user_id a = Some x" "external_user_id b = Some x"
      then show "u = v"
        using other [of x] ok(6) [of u a v b x] by (auto simp: 2(1) split: if_splits)
    qed (use ok in \<open>simp_all add: 2(1) dict_has_get\<close>)
  qed (use assms(1) in simp)
qed

lemma schema_ok_identity:
  assumes "schema_ok d" "upsert_identity uid p a d = Ok d'" "dict_has (app_users d) uid"
  shows "schema_ok d'"
proof -
  note ok = schema_okD [OF assms(1)]
  from upsert_identity_cases [OF assms(1,2)] show ?thesis
  proof (elim disjE conjE)
    assume e: "d' = d\<lparr>identities := dict_set (identities d) (p, a) uid\<rparr>"
      "\<forall>b. dict_get (identities d) (p, b) \<noteq> Some uid"
    show ?thesis
    proof (rule schema_okI)
      fix q b c u
      assume "dict_get (identities d') (q, b) = Some u" "dict_get (identities d') (q, c) = Some u"
      then show "b = c" using e(2) ok(7) [of q b u c] by (auto simp: e(1) split: if_splits)
    next
      fix q b u
      assume "dict_get (identities d') (q, b) = Some u"
      then show "dict_has (app_users d') u"
        using assms(3) ok(8) [of "(q, b)" u] by (auto simp: e(1) split: if_splits)
    qed (use ok in \<open>simp_all add: e(1)\<close>)
  qed (use assms(1) in simp)
qed

lemma schema_ok_assignment:
  assumes "schema_ok d" "upsert_assignment uid i d = Ok d'"
    "dict_has (app_users d) uid" "dict_has (instances d) i"
  shows "schema_ok d'"
proof -
  note ok = schema_okD [OF assms(1)]
  have new: "schema_ok (d\<lparr>assignments := dict_set m i uid\<rparr>)"
    if m: "dict_ok m" "\<And>j u. dict_get m j = Some u \<Longrightarrow> dict_get (assignments d) j = Some u \<and> u \<noteq> uid"
    for m
  proof (rule schema_okI)
    let ?d = "d\<lparr>assignments := dict_set m i uid\<rparr>"
    fix j k u
    assume "dict_get (assignments ?d) j = Some u" "dict_get (assignments ?d) k = Some u"
    then show "j = k" using m(2) ok(9) [of j u k] by (fastforce split: if_splits)
  next
    let ?d = "d\<lparr>assignments := dict_set m i uid\<rparr>"
    fix j u
    assume "dict_get (assignments ?d) j = Some u"
    then show "dict_has (instances ?d) j" "dict_has (app_users ?d) u"
      using m(2) assms(3,4) ok(10,11) [of j u] by (fastforce split: if_splits)+
  qed (use ok m(1) in simp_all)
  from upsert_assignment_cases [OF assms(1,2)] show ?thesis
  proof (elim disjE conjE exE)
    assume "\<forall>j. dict_get (assignments d) j \<noteq> Some uid"
      and e: "d' = d\<lparr>assignments := dict_set (assignments d) i uid\<rparr>"
    then show ?thesis unfolding e using ok(4) by (intro new) auto
  next
    fix j
    assume j: "dict_get (assignments d) j = Some uid"
      and e: "d' = d\<lparr>assignments := dict_set (dict_pop (assignments d) j) i uid\<rparr>"
    have "dict_get (assignments d) k = Some u \<and> u \<noteq> uid"
      if k: "dict_get (dict_pop (assignments d) j) k = Some u" for k u
      using k j ok(9) [of k u j] by (cases "k = j") auto
    then show ?thesis unfolding e by (intro new dict_ok_pop ok(4)) auto
  qed (use assms(1) in simp)
qed

lemma schema_ok_version [simp]: "schema_ok (d\<lparr>state_version := v\<rparr>) = schema_ok d"
  by (simp add: schema_ok_def)

section \<open>The whole transaction\<close>

text \<open>The states between the five steps, and what each of them establishes.\<close>

lemma bind_tx_steps:
  assumes "bind_tx p a i url creds ext role0 d = Ok d'"
  obtains d1 d2 d3 d4 x where
    "upsert_instance i url creds d = Ok d1"
    "upsert_user (p @ '':'' @ a) x role0 d1 = Ok d2"
    "upsert_identity (p @ '':'' @ a) p a d2 = Ok d3"
    "upsert_assignment (p @ '':'' @ a) i d3 = Ok d4"
    "state_upsert True d4 = Ok d'"
  using assms unfolding bind_tx_def Let_def bind_result_Ok_iff by blast

lemma upsert_user_has: "upsert_user uid x role0 d = Ok d' \<Longrightarrow> dict_has (app_users d') uid"
  using upsert_user_cases by (fastforce simp: dict_has_get)

lemma upsert_instance_frame:
  "upsert_instance i url creds d = Ok d' \<Longrightarrow>
   app_users d' = app_users d \<and> identities d' = identities d \<and> assignments d' = assignments d \<and>
   channels d' = channels d \<and> state_version d' = state_version d \<and>
   (\<exists>r. dict_get (instances d') i = Some r \<and> info_of_row r = \<lparr>instance_url = url, credentials = creds\<rparr>)"
  using upsert_instance_cases by fastforce

lemma upsert_user_frame:
  "upsert_user uid x role0 d = Ok d' \<Longrightarrow>
   instances d' = instances d \<and> identities d' = identities d \<and> assignments d' = assignments d \<and>
   channels d' = channels d \<and> state_version d' = state_version d"
  using upsert_user_cases by fastforce

lemma upsert_identity_frame:
  "schema_ok d \<Longrightarrow> upsert_identity uid p a d = Ok d' \<Longrightarrow>
   instances d' = instances d \<and> app_users d' = app_users d \<and> assignments d' = assignments d \<and>
   channels d' = channels d \<and> state_version d' = state_version d"
  using upsert_identity_cases by fastforce

lemma upsert_assignment_frame:
  "schema_ok d \<Longrightarrow> upsert_assignment uid i d = Ok d' \<Longrightarrow>
   instances d' = instances d \<and> app_users d' = app_users d \<and> identities d' = identities d \<and>
   channels d' = channels d \<and> state_version d' = state_version d \<and>
   dict_get (assignments d') i = Some uid"
  using upsert_assignment_cases by fastforce

lemma state_upsert_frame:
  "state_upsert b d = Ok d' \<Longrightarrow>
   instances d' = instances d \<and> app_users d' = app_users d \<and> identities d' = identities d \<and>
   assignments d' = assignments d \<and> channels d' = channels d"
  using state_upsert_cases by fastforce

text \<open>
  After a transaction: the schema holds, the instance row carries the new URL and
  credentials, the user owns exactly this instance, and the version has moved.
\<close>

lemma bind_tx_spec:
  assumes ok: "schema_ok d" and tx: "bind_tx p a i url creds ext role0 d = Ok d'"
  shows "schema_ok d'"
    and "\<exists>r. dict_get (instances d') i = Some r \<and> info_of_row r = \<lparr>instance_url = url, credentials = creds\<rparr>"
    and "dict_get (assignments d') i = Some (p @ '':'' @ a)"
    and "state_version d' = Some (case state_version d of None \<Rightarrow> 1 | Some v \<Rightarrow> v + 1)"
    and "channels d' = channels d"
    and "(identities d' = identities d \<and> (\<exists>b. dict_get (identities d) (p, b) = Some (p @ '':'' @ a))) \<or>
      (identities d' = dict_set (identities d) (p, a) (p @ '':'' @ a) \<and>
       dict_get (identities d) (p, a) = None)"
proof -
  obtain d1 d2 d3 d4 x where s:
    "upsert_instance i url creds d = Ok d1" "upsert_user (p @ '':'' @ a) x role0 d1 = Ok d2"
    "upsert_identity (p @ '':'' @ a) p a d2 = Ok d3" "upsert_assignment (p @ '':'' @ a) i d3 = Ok d4"
    "state_upsert True d4 = Ok d'"
    by (rule bind_tx_steps [OF tx])
  have ok1: "schema_ok d1" using upsert_instance_cases [OF s(1)] schema_ok_instances [OF ok] by auto
  have ok2: "schema_ok d2" by (rule schema_ok_users [OF ok1 s(2)])
  have ok3: "schema_ok d3" by (rule schema_ok_identity [OF ok2 s(3) upsert_user_has [OF s(2)]])
  note f1 = upsert_instance_frame [OF s(1)] and f2 = upsert_user_frame [OF s(2)]
    and f3 = upsert_identity_frame [OF ok2 s(3)] and f4 = upsert_assignment_frame [OF ok3 s(4)]
    and f5 = state_upsert_frame [OF s(5)]
  have "dict_has (app_users d3) (p @ '':'' @ a)" using upsert_user_has [OF s(2)] f3 by simp
  moreover have "dict_has (instances d3) i" using f1 f2 f3 by (auto simp: dict_has_get)
  ultimately have ok4: "schema_ok d4" by (rule schema_ok_assignment [OF ok3 s(4)])
  show "schema_ok d'" using state_upsert_cases [OF s(5)] ok4 by auto
  show "\<exists>r. dict_get (instances d') i = Some r \<and> info_of_row r = \<lparr>instance_url = url, credentials = creds\<rparr>"
    using f1 f2 f3 f4 f5 by simp
  show "dict_get (assignments d') i = Some (p @ '':'' @ a)" using f4 f5 by simp
  show "state_version d' = Some (case state_version d of None \<Rightarrow> 1 | Some v \<Rightarrow> v + 1)"
    using state_upsert_cases [OF s(5)] f1 f2 f3 f4 by (auto split: option.splits)
  show "channels d' = channels d" using f1 f2 f3 f4 f5 by simp
  show "(identities d' = identities d \<and> (\<exists>b. dict_get (identities d) (p, b) = Some (p @ '':'' @ a))) \<or>
      (identities d' = dict_set (identities d) (p, a) (p @ '':'' @ a) \<and>
       dict_get (identities d) (p, a) = None)"
    using upsert_identity_cases [OF ok2 s(3)] f1 f2 f4 f5 by auto
qed

text \<open>The lookup of the bound identity, when the identity row is the user's own.\<close>

lemma bind_tx_lookup:
  assumes ok: "schema_ok d" and tx: "bind_tx p a i url creds ext role0 d = Ok d'"
    and own: "\<And>b. dict_get (identities d) (p, b) = Some (p @ '':'' @ a) \<Longrightarrow> b = a"
  shows "\<exists>r. lookup_identity d' (p, a) = Some (i, r) \<and>
    info_of_row r = \<lparr>instance_url = url, credentials = creds\<rparr>"
proof -
  note spec = bind_tx_spec [OF ok tx]
  have id: "dict_get (identities d') (p, a) = Some (p @ '':'' @ a)"
    using spec(6)
  proof (elim disjE conjE exE)
    fix b assume "identities d' = identities d" "dict_get (identities d) (p, b) = Some (p @ '':'' @ a)"
    with own [of b] show ?thesis by simp
  qed simp
  have "assigned_instance d' (p @ '':'' @ a) = map_option (Pair i) (dict_get (instances d') i)"
    using assignments_unique [OF spec(1), of "p @ '':'' @ a"]
  proof (elim disjE exE conjE)
    fix j
    assume j: "select_rows (\<lambda>(_, u). u = p @ '':'' @ a) (assignments d') = [(j, p @ '':'' @ a)]"
      "dict_get (assignments d') j = Some (p @ '':'' @ a)"
    then have "j = i" using schema_okD(9) [OF spec(1)] spec(3) by blast
    with j(1) show ?thesis by (simp add: assigned_instance_def)
  qed (use spec(3) schema_okD(4) [OF spec(1)] in \<open>auto simp: select_rows_empty_iff\<close>)
  with id spec(2) show ?thesis by (auto simp: lookup_identity_def)
qed

lemma validate_provider_cases:
  "validate_provider p0 = Ok p \<Longrightarrow> p \<in> set SUPPORTED_PROVIDERS \<and> p = py_lower (py_strip p0)"
  by (auto simp: validate_provider_def Let_def split: if_splits)

lemma bind_user_instance_cases:
  assumes "bind_user_instance p0 a i url creds ext role0 d st = (r, d', st')"
  shows "(\<exists>e. r = Inl e \<and> d' = d \<and> st' = st) \<or>
    (\<exists>p. validate_provider p0 = Ok p \<and> bind_tx p a i url creds ext role0 d = Ok d' \<and>
       r = Ok \<lparr>instance_url = url, credentials = creds\<rparr> \<and> st' = invalidate_cache st)"
  using assms by (auto simp: bind_user_instance_def split: sum.splits)

section \<open>The mutations as an event machine\<close>

text \<open>
  Every write the program makes: binding a user, and remembering a channel. A failed
  operation leaves the database as it was.
\<close>

datatype storage_op =
    OpBind string string string string device_credentials "string option" "string option"
  | OpRemember string string string

fun apply_op :: "db \<Rightarrow> storage_op \<Rightarrow> db" where
  "apply_op d (OpBind p a i url creds ext r) =
     fst (snd (bind_user_instance p a i url creds ext r d new_storage))"
| "apply_op d (OpRemember p a c) = snd (remember_channel p a c d)"

text \<open>Identities written by the program name their own user; the version row exists.\<close>

definition canonical :: "db \<Rightarrow> bool" where
  "canonical d \<longleftrightarrow> schema_ok d \<and> state_version d \<noteq> None \<and>
     (\<forall>p a u. dict_get (identities d) (p, a) = Some u \<longrightarrow>
        p \<in> set SUPPORTED_PROVIDERS \<and> u = p @ '':'' @ a)"

lemma canonical_migrated: "canonical migrated_db"
  by (simp add: canonical_def schema_ok_migrated) (simp add: migrated_db_def)

lemma remember_channel_frame:
  "remember_channel p a c d = (r, d') \<Longrightarrow>
   instances d' = instances d \<and> app_users d' = app_users d \<and> identities d' = identities d \<and>
   assignments d' = assignments d \<and> state_version d' = state_version d \<and> dialect d' = dialect d"
  by (auto simp: remember_channel_def Let_def split: sum.splits)

lemma remember_channels_eq:
  assumes "dict_ok cs"
  shows "(let updated = map (\<lambda>(k, c). if k = key then (k, v) else (k, c)) cs in
      if length (select_rows (\<lambda>(k, _). k = key) cs) = 0 then updated @ [(key, v)] else updated) =
    dict_set cs key v"
  using assms
proof (induction cs)
  case (Cons e cs)
  obtain k c where e: "e = (k, c)" by (cases e)
  show ?case
  proof (cases "k = key")
    case True
    with Cons.prems have "key \<notin> fst ` set cs" by (auto simp: e dict_ok_def)
    then have "map (\<lambda>(k, c). if k = key then (k, v) else (k, c)) cs = cs"
      by (intro map_idI) (auto simp: image_iff)
    with True show ?thesis by (simp add: e select_rows_def dict_set_def)
  next
    case False
    with Cons show ?thesis
      by (auto simp: e select_rows_def dict_set_def dict_ok_def Let_def split: if_splits)
  qed
qed (simp add: select_rows_def dict_set_def)

lemma remember_channel_eq:
  assumes "schema_ok d" "validate_provider p0 = Ok p"
  shows "remember_channel p0 a c d = (Ok (), d\<lparr>channels := dict_set (channels d) (p, a) c\<rparr>)"
  using remember_channels_eq [OF schema_okD(5) [OF assms(1)], of "(p, a)" c] assms(2)
  by (simp add: remember_channel_def Let_def)

lemma canonical_remember:
  assumes "canonical d"
  shows "canonical (snd (remember_channel p0 a c d))"
proof (cases "validate_provider p0")
  case (Inr p)
  have ok: "schema_ok d" using assms by (simp add: canonical_def)
  have "schema_ok (d\<lparr>channels := dict_set (channels d) (p, a) c\<rparr>)"
    using schema_okD [OF ok] by (intro schema_okI) (simp_all add: dict_has_get)
  with assms show ?thesis by (simp add: remember_channel_eq [OF ok Inr] canonical_def)
qed (simp add: remember_channel_def assms)

lemma canonical_bind_tx:
  assumes "canonical d" "p \<in> set SUPPORTED_PROVIDERS" "bind_tx p a i url creds ext r d = Ok d'"
  shows "canonical d'"
proof -
  have ok: "schema_ok d" using assms(1) by (simp add: canonical_def)
  note spec = bind_tx_spec [OF ok assms(3)]
  show ?thesis
    using spec(1,4,6) assms(1,2) by (auto simp: canonical_def split: if_splits)
qed

lemma canonical_apply_op: "canonical d \<Longrightarrow> canonical (apply_op d e)"
proof (cases e)
  case (OpBind p a i url creds ext r)
  assume c: "canonical d"
  obtain res d' st' where b: "bind_user_instance p a i url creds ext r d new_storage = (res, d', st')"
    using prod_cases3 by blast
  from bind_user_instance_cases [OF b] c show ?thesis
    by (auto simp: OpBind b dest: validate_provider_cases intro: canonical_bind_tx)
qed (simp add: canonical_remember)

interpretation writes: event_machine apply_op canonical
  by unfold_locales (rule canonical_apply_op)

lemma supported_no_colon: "p \<in> set SUPPORTED_PROVIDERS \<Longrightarrow> CHR '':'' \<notin> set p"
  by (auto simp: SUPPORTED_PROVIDERS_def)

lemma identity_key_inj:
  assumes "p @ '':'' @ a = q @ '':'' @ b" "CHR '':'' \<notin> set p" "CHR '':'' \<notin> set q"
  shows "p = q \<and> a = b"
  using assms
proof (induction p arbitrary: q)
  case Nil
  then show ?case by (cases q) auto
next
  case (Cons x p)
  then show ?case by (cases q) auto
qed

lemma canonical_own:
  assumes "canonical d" "dict_get (identities d) (p, b) = Some (p @ '':'' @ a)"
  shows "b = a"
  using assms by (auto simp: canonical_def)

section \<open>Properties\<close>

text \<open>
  Property C1. Tenant isolation in the database: after any sequence of the program's writes
  to a freshly migrated database, two chat identities never resolve to the same OpenClaw
  instance.
\<close>

theorem instances_are_not_shared:
  assumes "d = foldl apply_op migrated_db ops"
    and "lookup_identity d k = Some (i, r)" and "lookup_identity d k' = Some (i, r')"
  shows "k = k'"
proof -
  have c: "canonical d" unfolding assms(1) by (rule writes.run_inv [OF canonical_migrated])
  then have ok: "schema_ok d" by (simp add: canonical_def)
  obtain u where u: "dict_get (identities d) k = Some u" "dict_get (identities d) k' = Some u"
    using lookup_identity_owner [OF ok assms(2)] lookup_identity_owner [OF ok assms(3)] by force
  obtain p a q b where k: "k = (p, a)" "k' = (q, b)" by (cases k; cases k')
  have "p \<in> set SUPPORTED_PROVIDERS" "q \<in> set SUPPORTED_PROVIDERS" "p @ '':'' @ a = q @ '':'' @ b"
    using c u by (auto simp: canonical_def k)
  then have "p = q \<and> a = b"
    by (intro identity_key_inj supported_no_colon)
  then show ?thesis by (simp add: k)
qed

definition toy_creds :: device_credentials where
  "toy_creds = \<lparr>device_id = ''dev'', public_key_b64 = ''pub'', private_key_b64 = ''priv'',
     device_token = ''dt'', gateway_token = ''gt''\<rparr>"

theorem instances_are_not_shared_witness:
  "\<exists>r. lookup_identity (foldl apply_op migrated_db
       [OpBind ''telegram'' ''7'' ''i1'' ''ws://h'' toy_creds None (Some ''user'')])
     (''telegram'', ''7'') = Some (''i1'', r) \<and> (''telegram'', ''7'') = (''telegram'', ''7'')"
proof -
  let ?d = "foldl apply_op migrated_db
      [OpBind ''telegram'' ''7'' ''i1'' ''ws://h'' toy_creds None (Some ''user'')]"
  have "map_option fst (lookup_identity ?d (''telegram'', ''7'')) = Some ''i1''" by code_simp
  then obtain r where r: "lookup_identity ?d (''telegram'', ''7'') = Some (''i1'', r)" by auto
  from instances_are_not_shared [OF refl r r] r show ?thesis by blast
qed

text \<open>
  Binding a user whose chat identity row belongs to another app user (an
  administrator onboarded it under a different id and the assignment was removed since)
  always raises \<open>IntegrityError\<close> and changes nothing: \<open>bind_user_instance\<close> looks the
  identity up by (user id, provider), not by its primary key.
\<close>

theorem bind_of_foreign_identity_fails:
  assumes ok: "schema_ok d" and p: "validate_provider p0 = Ok p"
    and other: "dict_get (identities d) (p, a) = Some u" "u \<noteq> p @ '':'' @ a"
    and none: "\<forall>b. dict_get (identities d) (p, b) \<noteq> Some (p @ '':'' @ a)"
  shows "bind_user_instance p0 a i url creds ext role0 d st = (Raise IntegrityError, d, st)"
proof -
  obtain d1 where d1: "upsert_instance i url creds d = Ok d1"
    by (cases "dict_get (instances d) i") (auto simp: upsert_instance_def)
  have i1: "identities d1 = identities d" using upsert_instance_frame [OF d1] by simp
  have ok1: "schema_ok d1" using upsert_instance_cases [OF d1] schema_ok_instances [OF ok] by auto
  have id: "upsert_identity (p @ '':'' @ a) p a d2 = Raise IntegrityError"
    if "schema_ok d2" "identities d2 = identities d" for d2
    using identity_unique [OF that(1), of "p @ '':'' @ a" p] other none that(2)
    by (auto simp: upsert_identity_def dict_has_get)
  have "bind_tx p a i url creds ext role0 d = Raise IntegrityError"
  proof (cases "upsert_user (p @ '':'' @ a)
      (case ext of None \<Rightarrow> p @ '':'' @ a | Some x \<Rightarrow> if x = [] then p @ '':'' @ a else x) role0 d1")
    case (Inl e)
    then have "e = IntegrityError" by (auto simp: upsert_user_def split: option.splits if_splits)
    with Inl d1 show ?thesis by (simp only: bind_tx_def Let_def bind_result_simps)
  next
    case (Inr d2)
    have "upsert_identity (p @ '':'' @ a) p a d2 = Raise IntegrityError"
      using id schema_ok_users [OF ok1 Inr] upsert_user_frame [OF Inr] i1 by simp
    with d1 Inr show ?thesis by (simp only: bind_tx_def Let_def bind_result_simps)
  qed
  with p show ?thesis by (simp add: bind_user_instance_def)
qed

definition onboarded_db :: db where
  "onboarded_db = migrated_db\<lparr>
     app_users := [(''alice'', \<lparr>external_user_id = Some ''ext-1'', role = None\<rparr>)],
     identities := [((''telegram'', ''7''), ''alice'')]\<rparr>"

theorem bind_of_foreign_identity_fails_witness:
  "bind_user_instance ''telegram'' ''7'' ''i1'' ''ws://h'' toy_creds None (Some ''user'')
     onboarded_db new_storage = (Raise IntegrityError, onboarded_db, new_storage)"
proof (rule bind_of_foreign_identity_fails)
  show "schema_ok onboarded_db"
    using schema_okD [OF schema_ok_migrated]
    by (intro schema_okI)
      (auto simp: onboarded_db_def migrated_db_def dict_get_def dict_has_def dict_ok_def split: if_splits)
  show "validate_provider ''telegram'' = Ok ''telegram''" by code_simp
  show "dict_get (identities onboarded_db) (''telegram'', ''7'') = Some ''alice''" by code_simp
  show "\<forall>b. dict_get (identities onboarded_db) (''telegram'', b) \<noteq> Some (''telegram'' @ '':'' @ ''7'')"
    by (simp add: onboarded_db_def dict_get_def)
qed simp

end
