(* ===== verification/CacheCoherence.thy ===== *)
theory CacheCoherence
  imports MappingStorage
begin

text \<open>
  The mapping caches of several replicas over one database (\<open>src/services/mapping.py\<close>,
  lookups and \<open>bind_user_instance\<close> interleaved at their \<open>await\<close> points). A lookup reads the
  version, probes its cache, queries, and stores; other replicas may write between any two
  of these steps. The contract of a versioned cache is a locale, interpreted for the
  identity cache and for the external-id cache.
\<close>

section \<open>The contract of a versioned cache\<close>

text \<open>
  \<open>mut\<close> is a committed write. It moves the version forward, or changes neither the version
  nor any answer. A cached value may be older than the database, but an entry that carries
  the current version carries the current answer.
\<close>

locale versioned_cache =
  fixes ver :: "'d \<Rightarrow> int"
    and qry :: "'d \<Rightarrow> string \<times> string \<Rightarrow> 'v option"
    and mut :: "'d \<Rightarrow> 'd \<Rightarrow> bool"
  assumes mut_ver: "mut d d' \<Longrightarrow> ver d < ver d' \<or> (ver d' = ver d \<and> qry d' = qry d)"
begin

definition fresh :: "'d \<Rightarrow> string \<times> string \<Rightarrow> int \<Rightarrow> 'v \<Rightarrow> bool" where
  "fresh d k v x \<longleftrightarrow> v \<le> ver d \<and> (v = ver d \<longrightarrow> qry d k = Some x)"

definition coherent :: "'d \<Rightarrow> 'v cache \<Rightarrow> bool" where
  "coherent d c \<longleftrightarrow> (\<forall>k v e x. dict_get c k = Some (v, e, x) \<longrightarrow> fresh d k v x)"

lemma fresh_mut: "fresh d k v x \<Longrightarrow> mut d d' \<Longrightarrow> fresh d' k v x"
  using mut_ver [of d d'] by (auto simp: fresh_def)

lemma coherent_mut: "coherent d c \<Longrightarrow> mut d d' \<Longrightarrow> coherent d' c"
  unfolding coherent_def by (blast intro: fresh_mut)

lemma coherent_empty [simp]: "coherent d []"
  by (simp add: coherent_def)

lemma coherent_put: "coherent d c \<Longrightarrow> fresh d k v x \<Longrightarrow> coherent d (cache_put cfg now c k v x)"
  by (auto simp: coherent_def cache_put_def split: if_splits)

lemma coherent_get: "coherent d c \<Longrightarrow> cache_get c k v now = (r, c') \<Longrightarrow> coherent d c'"
  by (auto simp: coherent_def cache_get_def split: option.splits if_splits)

lemma coherent_filter: "dict_ok c \<Longrightarrow> coherent d c \<Longrightarrow> coherent d (filter P c)"
  by (auto simp: coherent_def dict_get_filter split: option.splits if_splits)

lemma hit_is_fresh: "coherent d c \<Longrightarrow> fst (cache_get c k (ver d) now) = Some x \<Longrightarrow> qry d k = Some x"
  by (cases k) (auto simp: coherent_def cache_get_def fresh_def split: option.splits if_splits)

lemma fresh_now: "qry d k = Some x \<Longrightarrow> v \<le> ver d \<Longrightarrow> fresh d k v x"
  by (simp add: fresh_def)

end

section \<open>The two caches of the program\<close>

definition db_ver :: "db \<Rightarrow> int" where
  "db_ver d = (case state_version d of None \<Rightarrow> 1 | Some v \<Rightarrow> v)"

definition qry_identity :: "db \<Rightarrow> string \<times> string \<Rightarrow> instance_info option" where
  "qry_identity d k =
     (case one_or_none (query_by_identity d (fst k) (snd k)) of
        Inr (Some r) \<Rightarrow> Some (info_of_row r) | _ \<Rightarrow> None)"

definition qry_external :: "db \<Rightarrow> string \<times> string \<Rightarrow> (string \<times> instance_info) option" where
  "qry_external d k =
     (case one_or_none (query_by_external d (fst k) (snd k)) of
        Inr (Some (a, r)) \<Rightarrow> Some (a, info_of_row r) | _ \<Rightarrow> None)"

definition committed :: "db \<Rightarrow> db \<Rightarrow> bool" where
  "committed d d' \<longleftrightarrow> canonical d \<and> (\<exists>e. d' = apply_op d e)"

lemma queries_frame:
  assumes "instances d' = instances d" "app_users d' = app_users d"
    "identities d' = identities d" "assignments d' = assignments d"
  shows "qry_identity d' = qry_identity d" "qry_external d' = qry_external d"
  using assms
  by (simp_all add: fun_eq_iff qry_identity_def qry_external_def query_by_identity_def
      query_by_external_def assigned_rows_def)

lemma committed_version:
  assumes "committed d d'"
  shows "db_ver d < db_ver d' \<or>
    (db_ver d' = db_ver d \<and> qry_identity d' = qry_identity d \<and> qry_external d' = qry_external d)"
proof -
  obtain e where c: "canonical d" and e: "d' = apply_op d e"
    using assms by (auto simp: committed_def)
  then have ok: "schema_ok d" by (simp add: canonical_def)
  show ?thesis
  proof (cases e)
    case (OpBind p a i url creds ext r)
    obtain res d1 st1 where b: "bind_user_instance p a i url creds ext r d new_storage = (res, d1, st1)"
      using prod_cases3 by blast
    have d1: "d' = d1" using b by (simp add: e OpBind)
    from bind_user_instance_cases [OF b] show ?thesis
    proof (elim disjE exE conjE)
      fix q assume "bind_tx q a i url creds ext r d = Ok d1"
      from bind_tx_spec(4) [OF ok this] c show ?thesis
        by (auto simp: d1 db_ver_def canonical_def)
    qed (simp add: d1)
  next
    case (OpRemember p a ch)
    obtain res d1 where b: "remember_channel p a ch d = (res, d1)" by fastforce
    have d1: "d' = d1" by (simp add: e OpRemember b)
    note f = remember_channel_frame [OF b, folded d1]
    have "db_ver d' = db_ver d" using f by (simp add: db_ver_def)
    moreover have "qry_identity d' = qry_identity d" "qry_external d' = qry_external d"
      using f by (auto intro: queries_frame)
    ultimately show ?thesis by simp
  qed
qed

interpretation id_cache: versioned_cache db_ver qry_identity committed
  by unfold_locales (drule committed_version, elim disjE conjE, simp_all)

interpretation ext_cache: versioned_cache db_ver qry_external committed
  by unfold_locales (drule committed_version, elim disjE conjE, simp_all)

lemma cache_version_ver: "cache_version d = Ok v \<Longrightarrow> db_ver d = v"
  by (auto simp: cache_version_def db_ver_def bind_result_Ok_iff state_upsert_def
      split: option.splits if_splits)

lemma canonical_version: "canonical d \<Longrightarrow> cache_version d = Ok (db_ver d)"
  by (auto simp: canonical_def cache_version_def db_ver_def)

section \<open>Replicas and their interleavings\<close>

text \<open>
  Lookups in flight: \<open>Missed\<close> has read the version and found nothing in the cache,
  \<open>Fetched\<close> has its row and is about to store it.
\<close>

datatype 'v lookup_pc =
    Missed "string \<times> string" int
  | Fetched "string \<times> string" int 'v

record replica =
  storage :: mapping_storage
  id_tasks :: "instance_info lookup_pc list"
  ext_tasks :: "(string \<times> instance_info) lookup_pc list"

record cluster =
  shared_db :: db
  replicas :: "nat \<Rightarrow> replica"

definition new_replica :: replica where
  "new_replica = \<lparr>storage = new_storage, id_tasks = [], ext_tasks = []\<rparr>"

definition init_cluster :: cluster where
  "init_cluster = \<lparr>shared_db = migrated_db, replicas = (\<lambda>_. new_replica)\<rparr>"

definition set_replica :: "cluster \<Rightarrow> nat \<Rightarrow> replica \<Rightarrow> cluster" where
  "set_replica c i r = c\<lparr>replicas := (replicas c)(i := r)\<rparr>"

inductive cluster_step :: "settings \<Rightarrow> cluster \<Rightarrow> cluster \<Rightarrow> bool" for cfg where
  id_hit: "cache_version (shared_db c) = Ok v \<Longrightarrow>
     cache_get (identity_cache (storage (replicas c i))) k v now = (Some x, m) \<Longrightarrow>
     cluster_step cfg c (set_replica c i ((replicas c i)
       \<lparr>storage := (storage (replicas c i))\<lparr>identity_cache := m\<rparr>\<rparr>))"
| id_miss: "cache_version (shared_db c) = Ok v \<Longrightarrow>
     cache_get (identity_cache (storage (replicas c i))) k v now = (None, m) \<Longrightarrow>
     cluster_step cfg c (set_replica c i ((replicas c i)
       \<lparr>storage := (storage (replicas c i))\<lparr>identity_cache := m\<rparr>,
        id_tasks := Missed k v # id_tasks (replicas c i)\<rparr>))"
| id_fetch: "Missed k v \<in> set (id_tasks (replicas c i)) \<Longrightarrow>
     one_or_none (query_by_identity (shared_db c) (fst k) (snd k)) = Ok (Some r) \<Longrightarrow>
     cluster_step cfg c (set_replica c i ((replicas c i)
       \<lparr>id_tasks := Fetched k v (info_of_row r) # remove1 (Missed k v) (id_tasks (replicas c i))\<rparr>))"
| id_fail: "t \<in> set (id_tasks (replicas c i)) \<Longrightarrow>
     cluster_step cfg c (set_replica c i ((replicas c i)
       \<lparr>id_tasks := remove1 t (id_tasks (replicas c i))\<rparr>))"
| id_store: "Fetched k v x \<in> set (id_tasks (replicas c i)) \<Longrightarrow>
     cluster_step cfg c (set_replica c i ((replicas c i)
       \<lparr>storage := (storage (replicas c i))\<lparr>identity_cache :=
          cache_put cfg now (identity_cache (storage (replicas c i))) k v x\<rparr>,
        id_tasks := remove1 (Fetched k v x) (id_tasks (replicas c i))\<rparr>))"
| ext_hit: "cache_version (shared_db c) = Ok v \<Longrightarrow>
     cache_get (external_id_cache (storage (replicas c i))) k v now = (Some y, n) \<Longrightarrow>
     cluster_step cfg c (set_replica c i ((replicas c i)
       \<lparr>storage := (storage (replicas c i))\<lparr>external_id_cache := n\<rparr>\<rparr>))"
| ext_miss: "cache_version (shared_db c) = Ok v \<Longrightarrow>
     cache_get (external_id_cache (storage (replicas c i))) k v now = (None, n) \<Longrightarrow>
     cluster_step cfg c (set_replica c i ((replicas c i)
       \<lparr>storage := (storage (replicas c i))\<lparr>external_id_cache := n\<rparr>,
        ext_tasks := Missed k v # ext_tasks (replicas c i)\<rparr>))"
| ext_fetch: "Missed k v \<in> set (ext_tasks (replicas c i)) \<Longrightarrow>
     one_or_none (query_by_external (shared_db c) (fst k) (snd k)) = Ok (Some (a, r)) \<Longrightarrow>
     cluster_step cfg c (set_replica c i ((replicas c i)
       \<lparr>ext_tasks := Fetched k v (a, info_of_row r) # remove1 (Missed k v) (ext_tasks (replicas c i))\<rparr>))"
| ext_fail: "u \<in> set (ext_tasks (replicas c i)) \<Longrightarrow>
     cluster_step cfg c (set_replica c i ((replicas c i)
       \<lparr>ext_tasks := remove1 u (ext_tasks (replicas c i))\<rparr>))"
| ext_store: "Fetched k v y \<in> set (ext_tasks (replicas c i)) \<Longrightarrow>
     cluster_step cfg c (set_replica c i ((replicas c i)
       \<lparr>storage := (storage (replicas c i))\<lparr>external_id_cache :=
          cache_put cfg now (external_id_cache (storage (replicas c i))) k v y\<rparr>,
        ext_tasks := remove1 (Fetched k v y) (ext_tasks (replicas c i))\<rparr>))"
| db_write: "cluster_step cfg c (c\<lparr>shared_db := apply_op (shared_db c) e\<rparr>)"
| invalidate: "cluster_step cfg c (set_replica c i ((replicas c i)
       \<lparr>storage := invalidate_cache (storage (replicas c i))\<rparr>))"
| reload: "reload_cache_version (shared_db c) (storage (replicas c i)) = (Ok v, st) \<Longrightarrow>
     cluster_step cfg c (set_replica c i ((replicas c i)\<lparr>storage := st\<rparr>))"

inductive cluster_reachable :: "settings \<Rightarrow> cluster \<Rightarrow> bool" for cfg where
  start: "cluster_reachable cfg init_cluster"
| step: "cluster_reachable cfg c \<Longrightarrow> cluster_step cfg c c' \<Longrightarrow> cluster_reachable cfg c'"

section \<open>Coherence of every reachable cluster\<close>

fun task_ok :: "(string \<times> string \<Rightarrow> int \<Rightarrow> 'v \<Rightarrow> bool) \<Rightarrow> int \<Rightarrow> 'v lookup_pc \<Rightarrow> bool" where
  "task_ok P w (Missed k v) = (v \<le> w)"
| "task_ok P w (Fetched k v x) = P k v x"

definition replica_ok :: "db \<Rightarrow> replica \<Rightarrow> bool" where
  "replica_ok d r \<longleftrightarrow>
     dict_ok (identity_cache (storage r)) \<and> dict_ok (external_id_cache (storage r)) \<and>
     id_cache.coherent d (identity_cache (storage r)) \<and>
     ext_cache.coherent d (external_id_cache (storage r)) \<and>
     (\<forall>t \<in> set (id_tasks r). task_ok (id_cache.fresh d) (db_ver d) t) \<and>
     (\<forall>t \<in> set (ext_tasks r). task_ok (ext_cache.fresh d) (db_ver d) t)"

definition cluster_ok :: "cluster \<Rightarrow> bool" where
  "cluster_ok c \<longleftrightarrow> canonical (shared_db c) \<and> (\<forall>i. replica_ok (shared_db c) (replicas c i))"

lemma dict_ok_cache_put: "dict_ok c \<Longrightarrow> dict_ok (cache_put cfg now c k v x)"
  by (simp add: cache_put_def)

lemma dict_ok_cache_get: "dict_ok c \<Longrightarrow> cache_get c k v now = (r, c') \<Longrightarrow> dict_ok c'"
  by (auto simp: cache_get_def split: option.splits if_splits)

lemma task_ok_mut:
  assumes "\<And>k v x. P k v x \<Longrightarrow> Q k v x" "w \<le> w'" "task_ok P w t"
  shows "task_ok Q w' t"
  using assms by (cases t) auto

lemma replica_ok_write:
  assumes "replica_ok d r" "committed d d'"
  shows "replica_ok d' r"
proof -
  have w: "db_ver d \<le> db_ver d'" using committed_version [OF assms(2)] by auto
  note m1 = task_ok_mut [where P = "id_cache.fresh d" and Q = "id_cache.fresh d'",
      OF id_cache.fresh_mut [OF _ assms(2)] w]
  note m2 = task_ok_mut [where P = "ext_cache.fresh d" and Q = "ext_cache.fresh d'",
      OF ext_cache.fresh_mut [OF _ assms(2)] w]
  show ?thesis
    using assms(1) m1 m2 id_cache.coherent_mut [OF _ assms(2)] ext_cache.coherent_mut [OF _ assms(2)]
    by (auto simp: replica_ok_def)
qed

lemma set_replica_ok:
  "cluster_ok c \<Longrightarrow> replica_ok (shared_db c) r \<Longrightarrow> cluster_ok (set_replica c i r)"
  by (simp add: cluster_ok_def set_replica_def)

lemma mem_remove1: "t \<in> set (remove1 u ts) \<Longrightarrow> t \<in> set ts"
  by (meson notin_set_remove1)

lemma cluster_step_ok:
  assumes "cluster_step cfg c c'" "cluster_ok c"
  shows "cluster_ok c'"
proof -
  have can: "canonical (shared_db c)" and rep: "replica_ok (shared_db c) (replicas c i)" for i
    using assms(2) by (auto simp: cluster_ok_def)
  note parts = rep [unfolded replica_ok_def]
  from assms(1) show ?thesis
  proof cases
    case (id_hit v i k now x m)
    with parts [of i] show ?thesis
      by (auto intro!: set_replica_ok assms(2) simp: replica_ok_def
          intro: dict_ok_cache_get id_cache.coherent_get)
  next
    case (id_miss v i k now m)
    have "v \<le> db_ver (shared_db c)" using cache_version_ver [OF id_miss(2)] by simp
    with id_miss parts [of i] show ?thesis
      by (auto intro!: set_replica_ok assms(2) simp: replica_ok_def
          intro: dict_ok_cache_get id_cache.coherent_get)
  next
    case (id_fetch k v i r)
    have "v \<le> db_ver (shared_db c)" using parts [of i] id_fetch(2) by fastforce
    moreover have "qry_identity (shared_db c) k = Some (info_of_row r)"
      using id_fetch(3) by (simp add: qry_identity_def)
    ultimately have "id_cache.fresh (shared_db c) k v (info_of_row r)"
      by (intro id_cache.fresh_now)
    with id_fetch parts [of i] show ?thesis
      by (auto intro!: set_replica_ok assms(2) simp: replica_ok_def dest!: mem_remove1)
  next
    case (id_fail t i)
    with parts [of i] show ?thesis
      by (auto intro!: set_replica_ok assms(2) simp: replica_ok_def dest!: mem_remove1)
  next
    case (id_store k v x i now)
    have "id_cache.fresh (shared_db c) k v x" using parts [of i] id_store(2) by fastforce
    with id_store parts [of i] show ?thesis
      by (auto intro!: set_replica_ok assms(2) dict_ok_cache_put id_cache.coherent_put
          simp: replica_ok_def dest!: mem_remove1)
  next
    case (ext_hit v i k now x m)
    with parts [of i] show ?thesis
      by (auto intro!: set_replica_ok assms(2) simp: replica_ok_def
          intro: dict_ok_cache_get ext_cache.coherent_get)
  next
    case (ext_miss v i k now m)
    have "v \<le> db_ver (shared_db c)" using cache_version_ver [OF ext_miss(2)] by simp
    with ext_miss parts [of i] show ?thesis
      by (auto intro!: set_replica_ok assms(2) simp: replica_ok_def
          intro: dict_ok_cache_get ext_cache.coherent_get)
  next
    case (ext_fetch k v i a r)
    have "v \<le> db_ver (shared_db c)" using parts [of i] ext_fetch(2) by fastforce
    moreover have "qry_external (shared_db c) k = Some (a, info_of_row r)"
      using ext_fetch(3) by (simp add: qry_external_def)
    ultimately have "ext_cache.fresh (shared_db c) k v (a, info_of_row r)"
      by (intro ext_cache.fresh_now)
    with ext_fetch parts [of i] show ?thesis
      by (auto intro!: set_replica_ok assms(2) simp: replica_ok_def dest!: mem_remove1)
  next
    case (ext_fail u i)
    with parts [of i] show ?thesis
      by (auto intro!: set_replica_ok assms(2) simp: replica_ok_def dest!: mem_remove1)
  next
    case (ext_store k v x i now)
    have "ext_cache.fresh (shared_db c) k v x" using parts [of i] ext_store(2) by fastforce
    with ext_store parts [of i] show ?thesis
      by (auto intro!: set_replica_ok assms(2) dict_ok_cache_put ext_cache.coherent_put
          simp: replica_ok_def dest!: mem_remove1)
  next
    case (db_write e)
    have "committed (shared_db c) (apply_op (shared_db c) e)"
      using can by (auto simp: committed_def)
    with db_write rep show ?thesis
      by (auto simp: cluster_ok_def intro: replica_ok_write canonical_apply_op can)
  next
    case (invalidate i)
    with parts [of i] show ?thesis
      by (auto intro!: set_replica_ok assms(2) simp: replica_ok_def invalidate_cache_def
          invalidate_identity_cache_def invalidate_external_id_cache_def)
  next
    case (reload i v st)
    with parts [of i] show ?thesis
      by (auto intro!: set_replica_ok assms(2) id_cache.coherent_filter ext_cache.coherent_filter
          simp: replica_ok_def reload_cache_version_def split: sum.splits)
  qed
qed

lemma init_cluster_ok: "cluster_ok init_cluster"
  by (simp add: cluster_ok_def init_cluster_def canonical_migrated replica_ok_def new_replica_def
      new_storage_def)

lemma cluster_reachable_ok: "cluster_reachable cfg c \<Longrightarrow> cluster_ok c"
  by (induction rule: cluster_reachable.induct) (auto intro: init_cluster_ok cluster_step_ok)

section \<open>The caches stay small\<close>

lemma cache_put_bounded:
  "length c \<le> MAX_CACHE_ENTRIES \<Longrightarrow> length (cache_put cfg now c k v x) \<le> MAX_CACHE_ENTRIES"
  by (auto simp: cache_put_def length_dict_set MAX_CACHE_ENTRIES_def)

lemma cache_get_bounded: "cache_get c k v now = (r, c') \<Longrightarrow> length c' \<le> length c"
  by (auto simp: cache_get_def length_dict_pop split: option.splits if_splits)

definition small :: "replica \<Rightarrow> bool" where
  "small r \<longleftrightarrow> length (identity_cache (storage r)) \<le> MAX_CACHE_ENTRIES \<and>
     length (external_id_cache (storage r)) \<le> MAX_CACHE_ENTRIES"

lemma set_replica_small:
  "\<forall>i. small (replicas c i) \<Longrightarrow> small r \<Longrightarrow> \<forall>i. small (replicas (set_replica c j r) i)"
  by (simp add: set_replica_def)

lemma cluster_step_small:
  assumes "cluster_step cfg c c'" and s: "\<forall>i. small (replicas c i)"
  shows "\<forall>i. small (replicas c' i)"
proof -
  note r = s [rule_format, unfolded small_def]
  note keep = set_replica_small [OF s] cache_get_bounded [THEN le_trans]
  from assms(1) show ?thesis
  proof cases
    case (id_store k v x i now)
    show ?thesis unfolding id_store(1)
      using r [of i] by (intro keep(1)) (simp add: small_def cache_put_bounded)
  next
    case (ext_store k v x i now)
    show ?thesis unfolding ext_store(1)
      using r [of i] by (intro keep(1)) (simp add: small_def cache_put_bounded)
  next
    case (invalidate i)
    show ?thesis unfolding invalidate(1)
      by (intro keep(1)) (simp add: small_def invalidate_cache_def invalidate_identity_cache_def
          invalidate_external_id_cache_def)
  next
    case (reload i v st)
    then have "length (identity_cache st) \<le> length (identity_cache (storage (replicas c i)))"
      "length (external_id_cache st) \<le> length (external_id_cache (storage (replicas c i)))"
      by (auto simp: reload_cache_version_def split: sum.splits)
    with r [of i] show ?thesis unfolding reload(1)
      by (intro keep(1)) (auto simp: small_def)
  next
    case (id_hit v i k now x m)
    show ?thesis unfolding id_hit(1)
      using r [of i] keep(2) [OF id_hit(3)] by (intro keep(1)) (simp add: small_def)
  next
    case (id_miss v i k now m)
    show ?thesis unfolding id_miss(1)
      using r [of i] keep(2) [OF id_miss(3)] by (intro keep(1)) (simp add: small_def)
  next
    case (ext_hit v i k now x m)
    show ?thesis unfolding ext_hit(1)
      using r [of i] keep(2) [OF ext_hit(3)] by (intro keep(1)) (simp add: small_def)
  next
    case (ext_miss v i k now m)
    show ?thesis unfolding ext_miss(1)
      using r [of i] keep(2) [OF ext_miss(3)] by (intro keep(1)) (simp add: small_def)
  qed (use s keep(1) in \<open>simp_all add: small_def set_replica_def\<close>)
qed

lemma cluster_reachable_small: "cluster_reachable cfg c \<Longrightarrow> \<forall>i. small (replicas c i)"
proof (induction rule: cluster_reachable.induct)
  case start
  show ?case by (simp add: small_def init_cluster_def new_replica_def new_storage_def)
qed (rule cluster_step_small)

section \<open>What the caches answer\<close>

lemma lookup_by_identity_ok:
  assumes "canonical d" "id_cache.coherent d (identity_cache st)"
  shows "fst (get_instance_by_identity cfg now d p0 a st) =
    (case validate_provider p0 of
       Inl e \<Rightarrow> Inl e
     | Inr p \<Rightarrow> (case lookup_identity d (p, a) of
         None \<Rightarrow> Raise (InstanceNotFoundError (p @ '':'' @ a))
       | Some (_, r) \<Rightarrow> Ok (info_of_row r)))"
proof (cases "validate_provider p0")
  case (Inr p)
  have ok: "schema_ok d" using assms(1) by (simp add: canonical_def)
  note v = canonical_version [OF assms(1)]
  note q = query_by_identity_eq [OF ok, of p a]
  obtain res m where g: "cache_get (identity_cache st) (p, a) (db_ver d) now = (res, m)" by fastforce
  show ?thesis
  proof (cases res)
    case None
    with g v q Inr show ?thesis
      by (cases "lookup_identity d (p, a)") (simp_all add: get_instance_by_identity_def Let_def split_beta)
  next
    case (Some x)
    then have "qry_identity d (p, a) = Some x"
      using id_cache.hit_is_fresh [OF assms(2), of "(p, a)" now x] g by simp
    then obtain j r where "lookup_identity d (p, a) = Some (j, r)" "x = info_of_row r"
      using q by (cases "lookup_identity d (p, a)") (auto simp: qry_identity_def)
    with g v Inr Some show ?thesis by (simp add: get_instance_by_identity_def)
  qed
qed (simp add: get_instance_by_identity_def)

lemma lookup_by_external_ok:
  assumes "canonical d" "ext_cache.coherent d (external_id_cache st)"
  shows "fst (get_instance_by_external_id cfg now d ext p0 st) =
    (case validate_provider p0 of
       Inl e \<Rightarrow> Inl e
     | Inr p \<Rightarrow> (case one_or_none (query_by_external d ext p) of
         Inl e \<Rightarrow> Inl e
       | Inr None \<Rightarrow> Raise (InstanceNotFoundError (p @ '':'' @ ext))
       | Inr (Some (a, r)) \<Rightarrow> Ok (a, info_of_row r)))"
proof (cases "validate_provider p0")
  case (Inr p)
  note v = canonical_version [OF assms(1)]
  obtain res m where g: "cache_get (external_id_cache st) (ext, p) (db_ver d) now = (res, m)" by fastforce
  show ?thesis
  proof (cases res)
    case None
    with g v Inr show ?thesis
      by (auto simp: get_instance_by_external_id_def Let_def split: sum.splits option.splits)
  next
    case (Some x)
    then have "qry_external d (ext, p) = Some x"
      using ext_cache.hit_is_fresh [OF assms(2), of "(ext, p)" now x] g by simp
    with g v Inr Some show ?thesis
      by (auto simp: get_instance_by_external_id_def qry_external_def split: sum.splits option.splits prod.splits)
  qed
qed (simp add: get_instance_by_external_id_def)

lemma reachable_parts:
  assumes "cluster_reachable cfg c"
  shows "canonical (shared_db c)" "id_cache.coherent (shared_db c) (identity_cache (storage (replicas c i)))"
    "ext_cache.coherent (shared_db c) (external_id_cache (storage (replicas c i)))"
  using cluster_reachable_ok [OF assms] by (simp_all add: cluster_ok_def replica_ok_def)

text \<open>The row the external-id join returns is the one the identity lookup finds.\<close>

lemma query_by_external_mem:
  assumes "schema_ok d" "(a, r) \<in> set (query_by_external d ext p)"
  shows "\<exists>i. lookup_identity d (p, a) = Some (i, r)"
proof -
  from assms(2) obtain uid q puid where
    id: "((q, puid), uid) \<in> set (identities d)" "q = p"
    and r: "(a, r) \<in> set (map (\<lambda>r. (puid, r)) (assigned_rows d uid))"
    by (auto simp: query_by_external_def join_rows_def select_rows_def)
  have "dict_get (identities d) (p, puid) = Some uid"
    using dict_get_of_mem [OF schema_okD(3) [OF assms(1)]] id by simp
  moreover have "a = puid" "r \<in> set (assigned_rows d uid)" using r by auto
  moreover from this(2) have "\<exists>i. assigned_instance d uid = Some (i, r)"
    by (cases "assigned_instance d uid") (auto simp: assigned_rows_eq [OF assms(1)])
  ultimately show ?thesis by (auto simp: lookup_identity_def)
qed

definition written_cluster :: "storage_op \<Rightarrow> cluster" where
  "written_cluster e = init_cluster\<lparr>shared_db := apply_op (shared_db init_cluster) e\<rparr>"

lemma reachable_write: "cluster_reachable cfg (written_cluster e)"
  unfolding written_cluster_def
  by (rule cluster_reachable.step [OF cluster_reachable.start cluster_step.db_write])

lemma written_cluster_parts:
  "shared_db (written_cluster e) = apply_op migrated_db e"
  "storage (replicas (written_cluster e) i) = new_storage"
  by (simp_all add: written_cluster_def init_cluster_def new_replica_def)

section \<open>Properties\<close>

text \<open>
  Property C2. Cache transparency: in every state any number of replicas can reach, with
  lookups, writes, invalidations and reloads interleaved at their \<open>await\<close> points, a lookup
  by chat identity in any replica returns what the database holds at that moment (the
  bound instance, or the not-found error), whatever its cache contains and whatever the clock.
\<close>

theorem cached_lookup_is_current:
  assumes "cluster_reachable cfg c"
  shows "fst (get_instance_by_identity cfg now (shared_db c) p0 a (storage (replicas c i))) =
    (case validate_provider p0 of
       Inl e \<Rightarrow> Inl e
     | Inr p \<Rightarrow> (case lookup_identity (shared_db c) (p, a) of
         None \<Rightarrow> Raise (InstanceNotFoundError (p @ '':'' @ a))
       | Some (_, r) \<Rightarrow> Ok (info_of_row r)))"
  by (rule lookup_by_identity_ok [OF reachable_parts(1,2) [OF assms]])

theorem cached_lookup_is_current_witness:
  "fst (get_instance_by_identity default_settings 0
     (apply_op migrated_db (OpBind ''telegram'' ''7'' ''i1'' ''ws://h'' toy_creds None None))
     ''telegram'' ''7'' new_storage) =
   Ok \<lparr>instance_url = ''ws://h'', credentials = toy_creds\<rparr>"
proof -
  let ?e = "OpBind ''telegram'' ''7'' ''i1'' ''ws://h'' toy_creds None None"
  have "(case validate_provider ''telegram'' of
       Inl e \<Rightarrow> Inl e
     | Inr p \<Rightarrow> (case lookup_identity (apply_op migrated_db ?e) (p, ''7'') of
         None \<Rightarrow> Raise (InstanceNotFoundError (p @ '':'' @ ''7''))
       | Some (_, r) \<Rightarrow> Ok (info_of_row r))) = Ok \<lparr>instance_url = ''ws://h'', credentials = toy_creds\<rparr>"
    by code_simp
  then show ?thesis
    using cached_lookup_is_current [OF reachable_write, of default_settings 0 ?e "''telegram''" "''7''" 1]
    unfolding written_cluster_parts by (rule trans [rotated])
qed

text \<open>
  Property C9. A rebind is visible at once: when any replica's \<open>bind_user_instance\<close> succeeds,
  the next lookup of that identity in every replica (the one that wrote, or another whose
  cache still holds the old instance) returns the new URL and credentials.
\<close>

theorem bind_visible_in_every_replica:
  assumes r: "cluster_reachable cfg c"
    and b: "bind_user_instance p0 a i url creds ext role0 (shared_db c) (storage (replicas c j)) =
      (Ok info, d', st')"
    and n: "n = j \<and> st = st' \<or> n \<noteq> j \<and> st = storage (replicas c n)"
  shows "fst (get_instance_by_identity cfg now d' p0 a st) =
    Ok \<lparr>instance_url = url, credentials = creds\<rparr>"
proof -
  note parts = reachable_parts [OF r]
  obtain p where p: "validate_provider p0 = Ok p" and tx: "bind_tx p a i url creds ext role0 (shared_db c) = Ok d'"
    and st': "st' = invalidate_cache (storage (replicas c j))"
    using bind_user_instance_cases [OF b] by auto
  have can': "canonical d'"
    using canonical_bind_tx [OF parts(1) conjunct1 [OF validate_provider_cases [OF p]] tx] .
  have "d' = apply_op (shared_db c) (OpBind p0 a i url creds ext role0)"
    using p tx by (simp add: bind_user_instance_def)
  then have com: "committed (shared_db c) d'" using parts(1) unfolding committed_def by blast
  have coh: "id_cache.coherent d' (identity_cache st)"
    using n id_cache.coherent_mut [OF parts(2) com, of n]
    by (auto simp: st' invalidate_cache_def invalidate_identity_cache_def invalidate_external_id_cache_def)
  obtain x where "lookup_identity d' (p, a) = Some (i, x)" "info_of_row x = \<lparr>instance_url = url, credentials = creds\<rparr>"
    using bind_tx_lookup [OF _ tx] canonical_own [OF parts(1)] parts(1) by (auto simp: canonical_def)
  with lookup_by_identity_ok [OF can' coh, of cfg now p0 a] p show ?thesis by simp
qed

theorem bind_visible_in_every_replica_witness:
  "fst (get_instance_by_identity default_settings 5
     (fst (snd (bind_user_instance ''Slack '' ''U1'' ''i2'' ''ws://new'' toy_creds None None
        (shared_db init_cluster) (storage (replicas init_cluster 0)))))
     ''Slack '' ''U1'' (storage (replicas init_cluster 1))) =
   Ok \<lparr>instance_url = ''ws://new'', credentials = toy_creds\<rparr>"
proof -
  let ?b = "bind_user_instance ''Slack '' ''U1'' ''i2'' ''ws://new'' toy_creds None None
      (shared_db init_cluster) (storage (replicas init_cluster 0))"
  have "is_ok (fst ?b)" unfolding init_cluster_def new_replica_def by code_simp
  then obtain info where "fst ?b = Ok info" by (auto simp: is_ok_def split: sum.splits)
  then have "?b = (Ok info, fst (snd ?b), snd (snd ?b))" by (metis prod.collapse)
  from bind_visible_in_every_replica [OF cluster_reachable.start this, of 1] show ?thesis by simp
qed

text \<open>
  The two lookups agree: when a replica resolves an external id to a chat user
  and an instance, the lookup of that chat user by identity (in any replica) returns the same
  instance.
\<close>

theorem external_lookup_agrees:
  assumes "cluster_reachable cfg c"
    and "fst (get_instance_by_external_id cfg now (shared_db c) ext p0 (storage (replicas c i))) = Ok (a, info)"
  shows "fst (get_instance_by_identity cfg now' (shared_db c) p0 a (storage (replicas c j))) = Ok info"
proof -
  note parts = reachable_parts [OF assms(1)]
  have ok: "schema_ok (shared_db c)" using parts(1) by (simp add: canonical_def)
  from assms(2) lookup_by_external_ok [OF parts(1,3), of cfg now ext p0 i]
  obtain p r where p: "validate_provider p0 = Ok p"
    and q: "one_or_none (query_by_external (shared_db c) ext p) = Ok (Some (a, r))" "info = info_of_row r"
    by (auto split: sum.splits option.splits)
  then have "(a, r) \<in> set (query_by_external (shared_db c) ext p)"
    by (auto simp: one_or_none_def split: list.splits)
  from query_by_external_mem [OF ok this] p q(2)
    lookup_by_identity_ok [OF parts(1,2), of cfg now' p0 a j]
  show ?thesis by auto
qed

theorem external_lookup_agrees_witness:
  "fst (get_instance_by_identity default_settings 9
     (apply_op migrated_db (OpBind ''teams'' ''u9'' ''i3'' ''ws://t'' toy_creds (Some ''emp-9'') None))
     ''teams'' ''u9'' new_storage) = Ok \<lparr>instance_url = ''ws://t'', credentials = toy_creds\<rparr>"
proof -
  let ?e = "OpBind ''teams'' ''u9'' ''i3'' ''ws://t'' toy_creds (Some ''emp-9'') None"
  have "fst (get_instance_by_external_id default_settings 3 (apply_op migrated_db ?e) ''emp-9'' ''teams'' new_storage) =
      Ok (''u9'', \<lparr>instance_url = ''ws://t'', credentials = toy_creds\<rparr>)"
    by code_simp
  then show ?thesis
    using external_lookup_agrees [OF reachable_write, where i = 0 and j = 0, unfolded written_cluster_parts] by blast
qed

text \<open>
  Bounded caches: however many users ask, and however the requests interleave,
  no reachable replica holds more than \<open>MAX_CACHE_ENTRIES\<close> entries in either cache.
\<close>

theorem caches_bounded:
  "cluster_reachable cfg c \<Longrightarrow>
     length (identity_cache (storage (replicas c i))) \<le> MAX_CACHE_ENTRIES \<and>
     length (external_id_cache (storage (replicas c i))) \<le> MAX_CACHE_ENTRIES"
  using cluster_reachable_small [of cfg c] by (simp add: small_def)

theorem caches_bounded_witness:
  "length (identity_cache (storage (replicas (written_cluster (OpRemember ''slack'' ''U1'' ''C1'')) 0)))
     \<le> MAX_CACHE_ENTRIES"
  using caches_bounded [OF reachable_write] by blast

text \<open>
  The version row must be seeded. When \<open>mapping_state\<close> has no row, a reader
  tags its entry with version 1 (it creates the row in a session it never commits), and the
  first bind inserts version 1 as well: another replica goes on serving the instance the user
  was moved away from until the entry expires, while an uncached lookup returns the new one.
\<close>

theorem unseeded_version_serves_stale_instance:
  assumes ok: "schema_ok d" and none: "state_version d = None" and p: "validate_provider p0 = Ok p"
    and own: "\<And>b. dict_get (identities d) (p, b) = Some (p @ '':'' @ a) \<Longrightarrow> b = a"
    and old: "get_instance_by_identity cfg t0 d p0 a new_storage = (Ok info, st)"
    and tx: "bind_tx p a i url creds ext role0 d = Ok d'"
    and live: "t1 \<le> t0 + of_int (mapping_cache_ttl_sec cfg)"
  shows "fst (get_instance_by_identity cfg t1 d' p0 a st) = Ok info \<and>
    fst (get_instance_by_identity cfg t1 d' p0 a new_storage) = Ok \<lparr>instance_url = url, credentials = creds\<rparr>"
proof -
  note spec = bind_tx_spec [OF ok tx]
  have v': "cache_version d' = Ok 1" using spec(4) none by (simp add: cache_version_def)
  have miss: "cache_get ([] :: instance_info cache) k v t = (None, [])" for k v t
    by (simp add: cache_get_def)
  obtain v r where v: "cache_version d = Ok v" and q: "one_or_none (query_by_identity d p a) = Ok (Some r)"
    and st: "st = new_storage\<lparr>identity_cache := cache_put cfg t0 [] (p, a) v info\<rparr>"
    using old p
    by (auto simp: get_instance_by_identity_def new_storage_def miss Let_def split: sum.splits option.splits)
  have "v = 1" using cache_version_ver [OF v] none by (simp add: db_ver_def)
  then have hit: "fst (cache_get (identity_cache st) (p, a) 1 t1) = Some info"
    using live by (simp add: st cache_get_def cache_put_def MAX_CACHE_ENTRIES_def)
  obtain x where "lookup_identity d' (p, a) = Some (i, x)" "info_of_row x = \<lparr>instance_url = url, credentials = creds\<rparr>"
    using bind_tx_lookup [OF ok tx own] by blast
  then have "one_or_none (query_by_identity d' p a) = Ok (Some x)" "info_of_row x = \<lparr>instance_url = url, credentials = creds\<rparr>"
    by (simp_all add: query_by_identity_eq [OF spec(1)])
  then have "fst (get_instance_by_identity cfg t1 d' p0 a new_storage) = Ok \<lparr>instance_url = url, credentials = creds\<rparr>"
    using p v' by (simp add: get_instance_by_identity_def new_storage_def miss Let_def)
  moreover have "fst (get_instance_by_identity cfg t1 d' p0 a st) = Ok info"
    using p v' hit by (simp add: get_instance_by_identity_def split_beta split: option.splits)
  ultimately show ?thesis by simp
qed

definition unseeded_db :: db where
  "unseeded_db = (apply_op migrated_db (OpBind ''slack'' ''U1'' ''i1'' ''ws://old'' toy_creds None None))
     \<lparr>state_version := None\<rparr>"

theorem unseeded_version_serves_stale_instance_witness:
  "fst (get_instance_by_identity default_settings 10
     (apply_op unseeded_db (OpBind ''slack'' ''U1'' ''i2'' ''ws://new'' toy_creds None None)) ''slack'' ''U1''
     (snd (get_instance_by_identity default_settings 0 unseeded_db ''slack'' ''U1'' new_storage))) =
   Ok \<lparr>instance_url = ''ws://old'', credentials = toy_creds\<rparr>"
proof -
  let ?bind = "bind_tx ''slack'' ''U1'' ''i2'' ''ws://new'' toy_creds None None unseeded_db"
  let ?d' = "apply_op unseeded_db (OpBind ''slack'' ''U1'' ''i2'' ''ws://new'' toy_creds None None)"
  let ?get = "get_instance_by_identity default_settings 0 unseeded_db ''slack'' ''U1'' new_storage"
  let ?old = "\<lparr>instance_url = ''ws://old'', credentials = toy_creds\<rparr>"
  have ok: "schema_ok unseeded_db"
    using canonical_apply_op [OF canonical_migrated] by (simp add: unseeded_db_def canonical_def del: apply_op.simps)
  have none: "state_version unseeded_db = None" by (simp add: unseeded_db_def)
  have p: "validate_provider ''slack'' = Ok ''slack''" by code_simp
  have ids: "identities unseeded_db = [((''slack'', ''U1''), ''slack:U1'')]" by code_simp
  have own: "b = ''U1''" if "dict_get (identities unseeded_db) (''slack'', b) = Some (''slack'' @ '':'' @ ''U1'')" for b
    using that by (simp add: ids dict_get_def split: if_splits)
  have "fst ?get = Ok ?old" by code_simp
  then have old: "?get = (Ok ?old, snd ?get)" by (metis prod.collapse)
  have "is_ok ?bind" by code_simp
  then obtain d' where d': "?bind = Ok d'" by (auto simp: is_ok_def split: sum.splits)
  then have "?d' = d'" using p by (simp add: bind_user_instance_def)
  moreover have "10 \<le> 0 + rat_of_int (mapping_cache_ttl_sec default_settings)"
    by (simp add: default_settings_simps)
  ultimately show ?thesis
    using unseeded_version_serves_stale_instance [OF ok none p own old d', of 10] by simp
qed

end
