(* ===== verification/Json.thy ===== *)
theory Json
  imports PyStr Complex_Main
begin

text \<open>
  JSON values as Python reads them (\<open>json.loads\<close>, \<open>response.json()\<close>), with the operations the
  program applies to them: \<open>dict.get\<close>, truth value, \<open>or\<close>, \<open>isinstance\<close>, \<open>int()\<close>, \<open>str()\<close>. A frame
  on a websocket or a request body is such a value; its textual form is left to the standard
  library. A float carries the text Python shows for it.
\<close>

datatype json =
    JNull
  | JBool bool
  | JInt int
  | JFloat rat string
  | JStr string
  | JList "json list"
  | JObj "(string \<times> json) list"

fun truthy :: "json \<Rightarrow> bool" where
  "truthy JNull = False"
| "truthy (JBool b) = b"
| "truthy (JInt i) = (i \<noteq> 0)"
| "truthy (JFloat r t) = (r \<noteq> 0)"
| "truthy (JStr s) = (s \<noteq> [])"
| "truthy (JList xs) = (xs \<noteq> [])"
| "truthy (JObj d) = (d \<noteq> [])"

definition jor :: "json \<Rightarrow> json \<Rightarrow> json" where
  "jor a b = (if truthy a then a else b)"

fun is_obj :: "json \<Rightarrow> bool" where
  "is_obj (JObj d) = True"
| "is_obj _ = False"

fun is_str :: "json \<Rightarrow> bool" where
  "is_str (JStr s) = True"
| "is_str _ = False"

fun is_list :: "json \<Rightarrow> bool" where
  "is_list (JList xs) = True"
| "is_list _ = False"

text \<open>\<open>j.get(k, default)\<close>: only a dict has \<open>get\<close>; the default replaces a missing key, not a null.\<close>

fun jget_or :: "json \<Rightarrow> string \<Rightarrow> json \<Rightarrow> json result" where
  "jget_or (JObj d) k dflt = Ok (case dict_get d k of None \<Rightarrow> dflt | Some v \<Rightarrow> v)"
| "jget_or _ k dflt = Raise PyAttributeError"

definition jget :: "json \<Rightarrow> string \<Rightarrow> json result" where
  "jget j k = jget_or j k JNull"

text \<open>\<open>j[k]\<close> on a dict.\<close>

fun jindex :: "json \<Rightarrow> string \<Rightarrow> json result" where
  "jindex (JObj d) k = (case dict_get d k of None \<Rightarrow> Raise PyKeyError | Some v \<Rightarrow> Ok v)"
| "jindex _ k = Raise PyTypeError"

text \<open>\<open>j[0]\<close>.\<close>

fun jfirst :: "json \<Rightarrow> json result" where
  "jfirst (JList (x # xs)) = Ok x"
| "jfirst (JList []) = Raise PyIndexError"
| "jfirst (JStr (c # cs)) = Ok (JStr [c])"
| "jfirst (JStr []) = Raise PyIndexError"
| "jfirst (JObj d) = Raise PyKeyError"
| "jfirst _ = Raise PyTypeError"

text \<open>A JSON text where the code expects one; \<open>str_of\<close> is what it passes on otherwise.\<close>

fun jstr :: "json \<Rightarrow> string option" where
  "jstr (JStr s) = Some s"
| "jstr _ = None"

lemma jget_simps [simp]:
  "jget (JObj d) k = Ok (case dict_get d k of None \<Rightarrow> JNull | Some v \<Rightarrow> v)"
  "jget JNull k = Raise PyAttributeError" "jget (JBool b) k = Raise PyAttributeError"
  "jget (JInt i) k = Raise PyAttributeError" "jget (JFloat r t) k = Raise PyAttributeError"
  "jget (JStr s) k = Raise PyAttributeError" "jget (JList xs) k = Raise PyAttributeError"
  by (simp_all add: jget_def)

lemma jget_Ok_obj: "jget j k = Ok v \<Longrightarrow> is_obj j"
  by (cases j) simp_all

lemma truthy_jor [simp]: "truthy (jor a b) \<longleftrightarrow> truthy a \<or> truthy b"
  by (simp add: jor_def)

text \<open>\<open>int(x)\<close>: truncation for floats, an optional sign and digits for text.\<close>

fun digits_val :: "nat \<Rightarrow> string \<Rightarrow> nat option" where
  "digits_val acc [] = Some acc"
| "digits_val acc (c # cs) = (if is_digit c then digits_val (acc * 10 + (code c - 48)) cs else None)"

definition parse_int :: "string \<Rightarrow> int option" where
  "parse_int s0 =
     (let s = py_strip s0 in
      case s of
        [] \<Rightarrow> None
      | c # cs \<Rightarrow>
          if c = CHR ''-'' then (if cs = [] then None else map_option (\<lambda>n. - int n) (digits_val 0 cs))
          else if c = CHR ''+'' then (if cs = [] then None else map_option int (digits_val 0 cs))
          else map_option int (digits_val 0 s))"

fun py_int :: "json \<Rightarrow> int result" where
  "py_int (JInt i) = Ok i"
| "py_int (JBool b) = Ok (if b then 1 else 0)"
| "py_int (JFloat r t) = Ok (if r < 0 then - \<lfloor>- r\<rfloor> else \<lfloor>r\<rfloor>)"
| "py_int (JStr s) = (case parse_int s of None \<Rightarrow> Raise PyValueError | Some i \<Rightarrow> Ok i)"
| "py_int _ = Raise PyTypeError"

text \<open>
  \<open>str(x)\<close>: the text itself for a string, \<open>repr\<close> for everything else. \<open>repr\<close> of a string is
  in single quotes unless it holds a single quote and no double quote; control characters are
  escaped.
\<close>

definition hex_digit :: "nat \<Rightarrow> char" where
  "hex_digit n = char_of (if n < 10 then 48 + n else 87 + n)"

definition repr_char :: "char \<Rightarrow> char \<Rightarrow> string" where
  "repr_char q c =
     (if c = CHR 0x5C \<or> c = q then [CHR 0x5C, c]
      else if c = CHR 0x0A then [CHR 0x5C, CHR ''n'']
      else if c = CHR 0x0D then [CHR 0x5C, CHR ''r'']
      else if c = CHR 0x09 then [CHR 0x5C, CHR ''t'']
      else if is_ctrl c then [CHR 0x5C, CHR ''x'', hex_digit (code c div 16), hex_digit (code c mod 16)]
      else [c])"

definition repr_str :: "string \<Rightarrow> string" where
  "repr_str s =
     (let q = (if CHR 0x27 \<in> set s \<and> CHR 0x22 \<notin> set s then CHR 0x22 else CHR 0x27)
      in q # concat (map (repr_char q) s) @ [q])"

fun py_repr :: "json \<Rightarrow> string"
  and repr_list :: "json list \<Rightarrow> string list"
  and repr_items :: "(string \<times> json) list \<Rightarrow> string list" where
  "py_repr JNull = ''None''"
| "py_repr (JBool b) = (if b then ''True'' else ''False'')"
| "py_repr (JInt i) = str_int i"
| "py_repr (JFloat r t) = t"
| "py_repr (JStr s) = repr_str s"
| "py_repr (JList xs) = ''['' @ join_with '', '' (repr_list xs) @ '']''"
| "py_repr (JObj d) = ''{'' @ join_with '', '' (repr_items d) @ ''}''"
| "repr_list [] = []"
| "repr_list (x # xs) = py_repr x # repr_list xs"
| "repr_items [] = []"
| "repr_items ((k, v) # d) = (repr_str k @ '': '' @ py_repr v) # repr_items d"

fun py_str :: "json \<Rightarrow> string" where
  "py_str (JStr s) = s"
| "py_str j = py_repr j"

lemma digits_val_append:
  "digits_val a (s @ t) = Option.bind (digits_val a s) (\<lambda>b. digits_val b t)"
  by (induction s arbitrary: a) auto

lemma digits_val_digits_of [simp]: "digits_val 0 (digits_of n) = Some n"
proof (induction n rule: digits_of.induct)
  case (1 n)
  have d: "is_digit (char_of (48 + k)) \<and> code (char_of (48 + k)) = 48 + k" if "k < 10" for k :: nat
    using that by (simp add: is_digit_def)
  show ?case
  proof (cases "n < 10")
    case True
    then show ?thesis using d [OF True] by (subst digits_of.simps) simp
  next
    case False
    have m: "n mod 10 < 10" by simp
    show ?thesis
      using False 1 d [OF m] by (subst digits_of.simps) (simp add: digits_val_append)
  qed
qed

end
