(* ===== verification/OpenClawAuth.thy ===== *)
theory OpenClawAuth
  imports Json MappingStorage
begin

text \<open>
  The OpenClaw handshake (\<open>src/services/openclaw_client.py\<close>: \<open>_b64url_encode\<close>,
  \<open>_b64url_decode\<close>, \<open>_sign_connect\<close>, \<open>connect\<close>). Bytes are strings. The Ed25519 library and the
  websocket peer are parameters; the trace records what the client does to the sockets.
\<close>

section \<open>base64url\<close>

definition b64_alphabet :: string where
  "b64_alphabet = ''ABCDEFGHIJKLMNOPQRSTUVWXYZabcdefghijklmnopqrstuvwxyz0123456789-_''"

definition b64_char :: "nat \<Rightarrow> char" where
  "b64_char n = b64_alphabet ! n"

text \<open>The value of a character; \<open>urlsafe_b64decode\<close> accepts the standard alphabet too.\<close>

definition b64_val :: "char \<Rightarrow> nat option" where
  "b64_val c =
     (if c = CHR ''+'' then Some 62 else if c = CHR ''/'' then Some 63
      else map_of (zip b64_alphabet [0..<64]) c)"

text \<open>\<open>urlsafe_b64encode(data).rstrip(b"=")\<close>: groups of three bytes, the padding dropped.\<close>

fun b64url_encode :: "string \<Rightarrow> string" where
  "b64url_encode (a # b # c # s) =
     b64_char (code a div 4) # b64_char (code a mod 4 * 16 + code b div 16) #
     b64_char (code b mod 16 * 4 + code c div 64) # b64_char (code c mod 64) # b64url_encode s"
| "b64url_encode [a, b] =
     [b64_char (code a div 4), b64_char (code a mod 4 * 16 + code b div 16), b64_char (code b mod 16 * 4)]"
| "b64url_encode [a] = [b64_char (code a div 4), b64_char (code a mod 4 * 16)]"
| "b64url_encode [] = []"

text \<open>
  \<open>binascii.a2b_base64\<close>, not strict: characters outside the alphabet are skipped; the state is
  the position in the group, the number of pads seen and the bits left over.
\<close>

fun a2b :: "nat \<Rightarrow> nat \<Rightarrow> nat \<Rightarrow> string \<Rightarrow> string result" where
  "a2b quad pads left [] = (if quad = 0 then Ok [] else Raise PyValueError)"
| "a2b quad pads left (c # s) =
     (if c = CHR ''='' then
        if 2 \<le> quad \<and> 4 \<le> quad + (pads + 1) then Ok []
        else a2b quad (if 2 \<le> quad then pads + 1 else pads) left s
      else
        (case b64_val c of
           None \<Rightarrow> a2b quad pads left s
         | Some v \<Rightarrow>
             if quad = 0 then a2b 1 0 v s
             else if quad = 1 then
               bind_result (a2b 2 0 (v mod 16) s) (\<lambda>r. Ok (char_of (left * 4 + v div 16) # r))
             else if quad = 2 then
               bind_result (a2b 3 0 (v mod 4) s) (\<lambda>r. Ok (char_of (left * 16 + v div 4) # r))
             else bind_result (a2b 0 0 0 s) (\<lambda>r. Ok (char_of (left * 64 + v) # r))))"

definition b64url_decode :: "string \<Rightarrow> string result" where
  "b64url_decode s =
     (let padding = 4 - py_len s mod 4;
          s = (if padding \<noteq> 4 then s @ replicate padding (CHR ''='') else s)
      in if list_ex (\<lambda>c. 128 \<le> code c) s then Raise PyValueError
         else a2b 0 0 0 s)"

section \<open>The signed connect request\<close>

definition CLIENT_ID :: string where "CLIENT_ID = ''openclaw-control-ui''"
definition CLIENT_MODE :: string where "CLIENT_MODE = ''webchat''"
definition PLATFORM :: string where "PLATFORM = ''python-service''"
definition ROLE :: string where "ROLE = ''operator''"

definition SCOPES :: "string list" where
  "SCOPES = [''operator.admin'', ''operator.read'', ''operator.write'', ''operator.approvals'',
     ''operator.pairing'']"

definition SCOPES_CSV :: string where
  "SCOPES_CSV = join_with '','' SCOPES"

text \<open>\<open>Ed25519PrivateKey\<close>: loading a key may fail, signing does not.\<close>

record 'k ed25519_lib =
  from_private_bytes :: "string \<Rightarrow> 'k option"
  ed_sign :: "'k \<Rightarrow> string \<Rightarrow> string"

definition sign_payload :: "device_credentials \<Rightarrow> int \<Rightarrow> string \<Rightarrow> string \<Rightarrow> string" where
  "sign_payload cred signed_at_ms gw_token nonce =
     join_with ''|'' [''v2'', device_id cred, CLIENT_ID, CLIENT_MODE, ROLE, SCOPES_CSV,
       str_int signed_at_ms, gw_token, nonce]"

record identity_block =
  id_device :: json
  id_client :: "(string \<times> json) list"
  id_role :: json
  id_scopes :: json

definition sign_connect ::
    "'k ed25519_lib \<Rightarrow> int \<Rightarrow> string \<Rightarrow> device_credentials \<Rightarrow> string \<Rightarrow> identity_block result" where
  "sign_connect ed signed_at_ms nonce cred gw_token =
     bind_result (b64url_decode (private_key_b64 cred)) (\<lambda>priv_bytes.
       case from_private_bytes ed priv_bytes of
         None \<Rightarrow> Raise PyValueError
       | Some key \<Rightarrow>
           let sig = ed_sign ed key (sign_payload cred signed_at_ms gw_token nonce) in
           Ok \<lparr>id_device = JObj [(''id'', JStr (device_id cred)),
                  (''publicKey'', JStr (public_key_b64 cred)),
                  (''signature'', JStr (b64url_encode sig)),
                  (''signedAt'', JInt signed_at_ms), (''nonce'', JStr nonce)],
                id_client = [(''id'', JStr CLIENT_ID), (''version'', JStr ''clawmux-2.0''),
                  (''platform'', JStr PLATFORM), (''mode'', JStr CLIENT_MODE)],
                id_role = JStr ROLE, id_scopes = JList (map JStr SCOPES)\<rparr>)"

section \<open>connect\<close>

text \<open>
  The peer: whether the n-th connection opens, what the m-th \<open>recv\<close> on it returns, whether a
  send or close on it succeeds; and the clock in milliseconds at the n-th signature.
\<close>

record gateway =
  gw_open :: "nat \<Rightarrow> unit result"
  gw_recv :: "nat \<Rightarrow> nat \<Rightarrow> json result"
  gw_send :: "nat \<Rightarrow> unit result"
  gw_close :: "nat \<Rightarrow> unit result"
  gw_clock :: "nat \<Rightarrow> int"

datatype ws_action = Opened nat string | SentFrame nat json | Closed nat

record connection =
  conn_connected :: bool
  conn_ws :: "nat option"
  conn_listening :: bool

definition disconnected :: connection where
  "disconnected = \<lparr>conn_connected = False, conn_ws = None, conn_listening = False\<rparr>"

definition missing_credentials :: "device_credentials \<Rightarrow> string list" where
  "missing_credentials cred =
     (if py_strip (device_id cred) = [] then [''device_id''] else []) @
     (if py_strip (public_key_b64 cred) = [] then [''public_key_b64''] else []) @
     (if py_strip (private_key_b64 cred) = [] then [''private_key_b64''] else []) @
     (if py_strip (device_token cred) = [] then [''device_token''] else []) @
     (if py_strip (gateway_token cred) = [] then [''gateway_token''] else [])"

definition origin_of :: "string \<Rightarrow> string" where
  "origin_of url =
     (let origin = py_replace (py_replace url ''ws://'' ''http://'') ''/ws'' '''' in
      if startswith origin ''http://openclaw:18789'' then ''http://127.0.0.1:18789'' else origin)"

definition connect_frame ::
    "device_credentials \<Rightarrow> string \<Rightarrow> (string \<times> json) list \<Rightarrow> json \<Rightarrow> json \<Rightarrow> json \<Rightarrow> json" where
  "connect_frame cred req_id client_block rl scopes device =
     JObj [(''type'', JStr ''req''), (''id'', JStr req_id), (''method'', JStr ''connect''),
       (''params'', JObj [(''minProtocol'', JInt 4), (''maxProtocol'', JInt 4),
         (''client'', JObj client_block), (''role'', rl), (''scopes'', scopes),
         (''device'', device), (''caps'', JList [JStr ''tool-events'']),
         (''auth'', JObj [(''token'', JStr (gateway_token cred)),
            (''deviceToken'', JStr (device_token cred))])])]"

text \<open>
  One challenge and response on connection \<open>n\<close>: receive the challenge, sign its nonce, send the
  request, receive the answer. With a build id the retry adds it to the client block.
\<close>

definition nonce_of :: "json \<Rightarrow> string \<Rightarrow> string result" where
  "nonce_of data msg =
     bind_result (jget data ''event'') (\<lambda>ev.
       if ev \<noteq> JStr ''connect.challenge'' then Raise (OpenClawConnectionError (msg @ py_str ev))
       else bind_result (jindex data ''payload'') (\<lambda>p.
         bind_result (jindex p ''nonce'') (\<lambda>nn.
           case nn of JStr s \<Rightarrow> Ok s | _ \<Rightarrow> Raise PyTypeError)))"

definition exchange ::
    "'k ed25519_lib \<Rightarrow> gateway \<Rightarrow> device_credentials \<Rightarrow> string \<Rightarrow> nat \<Rightarrow> string \<Rightarrow> json option \<Rightarrow>
     json result \<times> ws_action list" where
  "exchange ed gw cred req_id n msg build =
     (case bind_result (gw_recv gw n 0) (\<lambda>data. nonce_of data msg) of
        Inl e \<Rightarrow> (Inl e, [])
      | Inr nonce \<Rightarrow>
        (case sign_connect ed (gw_clock gw n) nonce cred (gateway_token cred) of
           Inl e \<Rightarrow> (Inl e, [])
         | Inr ident \<Rightarrow>
             let cl = (case build of None \<Rightarrow> id_client ident
                       | Some b \<Rightarrow> dict_set (id_client ident) ''buildId'' b);
                 frame = connect_frame cred req_id cl (id_role ident) (id_scopes ident) (id_device ident)
             in (case gw_send gw n of
                   Inl e \<Rightarrow> (Inl e, [])
                 | Inr _ \<Rightarrow> (gw_recv gw n 1, [SentFrame n frame]))))"

text \<open>The build id a rejection asks for, if it does.\<close>

definition wanted_build :: "json \<Rightarrow> json result" where
  "wanted_build res =
     bind_result (jget_or res ''error'' (JObj [])) (\<lambda>err.
     bind_result (if is_obj err then jget err ''details'' else Ok JNull) (\<lambda>details.
       if is_obj details then jget details ''gatewayBuildId'' else Ok JNull))"

definition reject_unless_ok :: "json \<Rightarrow> unit result" where
  "reject_unless_ok res =
     bind_result (jget res ''ok'') (\<lambda>ok.
       if truthy ok then Ok ()
       else bind_result (jget_or res ''error'' (JStr ''unknown''))
         (\<lambda>err. Raise (OpenClawConnectionError (''Connect rejected: '' @ py_str err))))"

text \<open>The body of \<open>connect\<close>'s \<open>try\<close>: result, the current value of \<open>_ws\<close>, the trace.\<close>

definition connect_retry ::
    "'k ed25519_lib \<Rightarrow> gateway \<Rightarrow> string \<Rightarrow> device_credentials \<Rightarrow> string \<Rightarrow> json \<Rightarrow>
     unit result \<times> nat option \<times> ws_action list" where
  "connect_retry ed gw url cred req_id build =
     (case gw_close gw 0 of
        Inl e \<Rightarrow> (Inl e, Some 0, [Closed 0])
      | Inr _ \<Rightarrow>
        (case gw_open gw 1 of
           Inl e \<Rightarrow> (Inl e, Some 0, [Closed 0])
         | Inr _ \<Rightarrow>
             let (r, acts) = exchange ed gw cred req_id 1
                   ''Expected connect.challenge on retry, got: '' (Some build)
             in (bind_result r reject_unless_ok, Some 1, [Closed 0, Opened 1 (origin_of url)] @ acts)))"

definition connect_body ::
    "'k ed25519_lib \<Rightarrow> gateway \<Rightarrow> string \<Rightarrow> device_credentials \<Rightarrow> string \<Rightarrow>
     unit result \<times> nat option \<times> ws_action list" where
  "connect_body ed gw url cred req_id =
     (if missing_credentials cred \<noteq> [] then
        (Raise (OpenClawConnectionError (''Instance credentials are incomplete in DB (missing: '' @
           join_with '', '' (missing_credentials cred) @ '').'')), None, [])
      else
        (case gw_open gw 0 of
           Inl e \<Rightarrow> (Inl e, None, [])
         | Inr _ \<Rightarrow>
           (case exchange ed gw cred req_id 0 ''Expected connect.challenge, got: '' None of
              (Inl e, acts) \<Rightarrow> (Inl e, Some 0, Opened 0 (origin_of url) # acts)
            | (Inr res, acts) \<Rightarrow>
              (case jget res ''ok'' of
                 Inl e \<Rightarrow> (Inl e, Some 0, Opened 0 (origin_of url) # acts)
               | Inr ok \<Rightarrow>
                   if truthy ok then (Ok (), Some 0, Opened 0 (origin_of url) # acts)
                   else
                     (case wanted_build res of
                        Inl e \<Rightarrow> (Inl e, Some 0, Opened 0 (origin_of url) # acts)
                      | Inr build \<Rightarrow>
                          if truthy build then
                            (case connect_retry ed gw url cred req_id build of
                               (r, ws, acts') \<Rightarrow> (r, ws, Opened 0 (origin_of url) # acts @ acts'))
                          else (reject_unless_ok res, Some 0, Opened 0 (origin_of url) # acts))))))"

fun exn_text :: "exn \<Rightarrow> string" where
  "exn_text (OpenClawConnectionError s) = s"
| "exn_text (HTTPError s) = s"
| "exn_text (OSErr s) = s"
| "exn_text (PyRuntimeError s) = s"
| "exn_text (PyException s) = s"
| "exn_text (ProvisioningError s) = s"
| "exn_text (CredentialEncryptionError s) = s"
| "exn_text (TeamsAuthError s) = s"
| "exn_text _ = []"

definition connect ::
    "'k ed25519_lib \<Rightarrow> gateway \<Rightarrow> string \<Rightarrow> device_credentials \<Rightarrow> string \<Rightarrow>
     unit result \<times> connection \<times> ws_action list" where
  "connect ed gw url cred req_id =
     (case connect_body ed gw url cred req_id of
        (Inr _, ws, acts) \<Rightarrow>
          (Ok (), \<lparr>conn_connected = True, conn_ws = ws, conn_listening = True\<rparr>, acts)
      | (Inl e, ws, acts) \<Rightarrow>
          ((case e of
              OpenClawConnectionError m \<Rightarrow> Raise (OpenClawConnectionError m)
            | _ \<Rightarrow> Raise (OpenClawConnectionError (''Connection failed: '' @ exn_text e))),
           disconnected,
           acts @ (case ws of None \<Rightarrow> [] | Some n \<Rightarrow> [Closed n])))"

section \<open>The codec\<close>

lemma b64_val_char [simp]: "n < 64 \<Longrightarrow> b64_val (b64_char n) = Some n"
proof -
  have "list_all (\<lambda>n. b64_val (b64_char n) = Some n) [0..<64]" by code_simp
  then show "n < 64 \<Longrightarrow> b64_val (b64_char n) = Some n" by (simp add: list_all_iff)
qed

lemma b64_char_ok: "n < 64 \<Longrightarrow> b64_char n \<noteq> CHR ''='' \<and> code (b64_char n) < 128 \<and> b64_char n \<in> set b64_alphabet"
proof -
  have "list_all (\<lambda>n. b64_char n \<noteq> CHR ''='' \<and> code (b64_char n) < 128 \<and> b64_char n \<in> set b64_alphabet) [0..<64]"
    by code_simp
  then show "n < 64 \<Longrightarrow> b64_char n \<noteq> CHR ''='' \<and> code (b64_char n) < 128 \<and> b64_char n \<in> set b64_alphabet"
    by (simp add: list_all_iff)
qed

lemma char_of_code [simp]: "char_of (code c) = c"
  by (simp add: code_def)

lemma quarter: "code a div 4 < 64" "code a mod 4 < 4" "code a div 16 < 16" "code a mod 16 < 16"
    "code a div 64 < 4" "code a mod 64 < 64"
  using code_lt [of a] by (simp_all add: less_mult_imp_div_less)

lemma sextets:
  "code a div 4 < 64" "code a mod 4 * 16 + code b div 16 < 64"
  "code b mod 16 * 4 + code c div 64 < 64" "code c mod 64 < 64" "code a mod 4 * 16 < 64" "code b mod 16 * 4 < 64"
  using quarter [of a] quarter [of b] quarter [of c] by linarith+

lemma two_parts: "(x * m + y) div m = x" "(x * m + y) mod m = y" if "y < m" for x m y :: nat
  using that by simp_all

lemma regroup:
  "code a div 4 * 4 + (code a mod 4 * 16 + code b div 16) div 16 = code a"
  "(code a mod 4 * 16 + code b div 16) mod 16 * 16 + (code b mod 16 * 4 + code c div 64) div 4 = code b"
  "(code b mod 16 * 4 + code c div 64) mod 4 * 64 + code c mod 64 = code c"
  "code a div 4 * 4 + code a mod 4 * 16 div 16 = code a"
  "(code a mod 4 * 16 + code b div 16) mod 16 * 16 + code b mod 16 * 4 div 4 = code b"
  by (simp_all only: two_parts quarter div_mult_mod_eq nonzero_mult_div_cancel_right)

text \<open>Groups of four, three and two characters.\<close>

lemma a2b_quad:
  assumes "v < 64" "w < 64" "x < 64" "y < 64"
  shows "a2b 0 0 0 (b64_char v # b64_char w # b64_char x # b64_char y # s) =
    bind_result (a2b 0 0 0 s) (\<lambda>r. Ok (char_of (v * 4 + w div 16) #
      char_of (w mod 16 * 16 + x div 4) # char_of (x mod 4 * 64 + y) # r))"
  using assms b64_char_ok by (cases "a2b 0 0 0 s") simp_all

lemma a2b_tail:
  assumes "v < 64" "w < 64" "x < 64"
  shows "a2b 0 0 0 (b64_char v # b64_char w # b64_char x # ''='') =
      Ok [char_of (v * 4 + w div 16), char_of (w mod 16 * 16 + x div 4)]"
    and "a2b 0 0 0 (b64_char v # b64_char w # ''=='') = Ok [char_of (v * 4 + w div 16)]"
  using assms b64_char_ok by simp_all

lemma a2b_encode:
  "a2b 0 0 0 (b64url_encode s @ replicate ((3 - length s mod 3) mod 3) (CHR ''='')) = Ok s"
proof (induction s rule: b64url_encode.induct)
  case (1 a b c s)
  have "length (a # b # c # s) = 3 + length s" by simp
  then have "length (a # b # c # s) mod 3 = length s mod 3" by (metis mod_add_self1)
  then show ?case
    by (simp only: b64url_encode.simps append_Cons a2b_quad sextets 1 regroup char_of_code bind_result_simps)
next
  case (2 a b)
  have "length [a, b] = 2" "(3 - 2 mod 3) mod 3 = Suc 0" by simp_all
  then have r: "replicate ((3 - length [a, b] mod 3) mod 3) (CHR ''='') = ''=''"
    by (simp only: replicate.simps)
  show ?case unfolding r
    by (simp only: b64url_encode.simps append_Cons append_Nil a2b_tail sextets regroup char_of_code)
next
  case (3 a)
  have "length [a] = 1" "(3 - 1 mod 3) mod 3 = Suc (Suc 0)" by simp_all
  then have r: "replicate ((3 - length [a] mod 3) mod 3) (CHR ''='') = ''==''"
    by (simp only: replicate.simps)
  show ?case unfolding r
    by (simp only: b64url_encode.simps append_Cons append_Nil a2b_tail(2) [where x = 0] sextets regroup
        char_of_code zero_less_numeral)
qed simp

lemma encode_chars: "c \<in> set (b64url_encode s) \<Longrightarrow> code c < 128 \<and> c \<in> set b64_alphabet"
  by (induction s rule: b64url_encode.induct) (use b64_char_ok sextets in auto)

lemma length_encode: "length (b64url_encode s) = (4 * length s + 2) div 3"
  by (induction s rule: b64url_encode.induct) simp_all

section \<open>The signed text\<close>

lemma digits_of_inj: "digits_of m = digits_of n \<Longrightarrow> m = n"
  by (metis digits_val_digits_of option.inject)

lemma str_int_inj: "str_int i = str_int j \<Longrightarrow> i = j"
proof -
  have m: "hd (digits_of n) \<noteq> CHR ''-''" for n
    using digits_of_digits [of "hd (digits_of n)" n] by (auto simp: is_digit_def code_def)
  assume "str_int i = str_int j"
  then show ?thesis
    using m [of "nat i"] m [of "nat j"] digits_of_inj [of "nat i" "nat j"] digits_of_inj [of "nat (- i)" "nat (- j)"]
    by (auto simp: str_int_def split: if_splits) (metis list.sel(1))+
qed

lemma str_int_no_bar: "CHR ''|'' \<notin> set (str_int i)"
  using digits_of_digits [of "CHR ''|''"] by (auto simp: str_int_def is_digit_def code_def)

section \<open>What connect does to the sockets\<close>

text \<open>The sockets that are open after a trace.\<close>

fun open_sockets :: "nat list \<Rightarrow> ws_action list \<Rightarrow> nat list" where
  "open_sockets ws [] = ws"
| "open_sockets ws (Opened n _ # acts) = open_sockets (n # ws) acts"
| "open_sockets ws (SentFrame n _ # acts) = open_sockets ws acts"
| "open_sockets ws (Closed n # acts) = open_sockets (removeAll n ws) acts"

lemma open_sockets_append: "open_sockets ws (a @ b) = open_sockets (open_sockets ws a) b"
  by (induction ws a rule: open_sockets.induct) simp_all

definition challenged :: "gateway \<Rightarrow> nat \<Rightarrow> bool" where
  "challenged gw n \<longleftrightarrow> (\<exists>data. gw_recv gw n 0 = Ok data \<and>
     jget data ''event'' = Ok (JStr ''connect.challenge''))"

lemma nonce_of_challenge: "nonce_of data msg = Ok s \<Longrightarrow> jget data ''event'' = Ok (JStr ''connect.challenge'')"
  by (auto simp: nonce_of_def bind_result_Ok_iff split: if_splits)

lemma exchange_acts:
  assumes "exchange ed gw cred rid n msg build = (r, acts)"
  shows "acts = [] \<or> challenged gw n \<and> (\<exists>f. acts = [SentFrame n f])"
proof (cases "bind_result (gw_recv gw n 0) (\<lambda>data. nonce_of data msg)")
  case (Inr s)
  then have "challenged gw n" using nonce_of_challenge by (auto simp: challenged_def bind_result_Ok_iff)
  with assms Inr show ?thesis by (auto simp: exchange_def Let_def split: sum.splits)
qed (use assms in \<open>simp add: exchange_def\<close>)

text \<open>The shapes a trace of the \<open>try\<close> body can have.\<close>

definition sends_on :: "gateway \<Rightarrow> nat \<Rightarrow> ws_action list \<Rightarrow> bool" where
  "sends_on gw n acts \<longleftrightarrow> acts = [] \<or> challenged gw n \<and> (\<exists>f. acts = [SentFrame n f])"

lemma connect_retry_cases:
  assumes "connect_retry ed gw url cred rid build = (r, ws, acts)"
  shows "(ws = Some 0 \<and> acts = [Closed 0] \<and> \<not> is_ok r) \<or>
    (ws = Some 1 \<and> (\<exists>a. sends_on gw 1 a \<and> acts = [Closed 0, Opened 1 (origin_of url)] @ a))"
proof (cases "gw_close gw 0")
  case (Inl e)
  then show ?thesis using assms by (auto simp: connect_retry_def Inl)
next
  case close: (Inr u)
  show ?thesis
  proof (cases "gw_open gw 1")
    case (Inl e)
    then show ?thesis using assms by (auto simp: connect_retry_def close Inl [simplified])
  next
    case (Inr v)
    obtain x a where e: "exchange ed gw cred rid 1 ''Expected connect.challenge on retry, got: '' (Some build) = (x, a)"
      by fastforce
    have "sends_on gw 1 a" using exchange_acts [OF e] by (simp add: sends_on_def)
    then show ?thesis using assms by (auto simp: connect_retry_def close Inr [simplified] e [simplified])
  qed
qed

lemma connect_body_cases:
  assumes "connect_body ed gw url cred rid = (r, ws, acts)"
  shows "(ws = None \<and> acts = [] \<and> \<not> is_ok r) \<or>
    (\<exists>a. sends_on gw 0 a \<and>
      (ws = Some 0 \<and> acts = Opened 0 (origin_of url) # a \<or>
       ws = Some 0 \<and> acts = Opened 0 (origin_of url) # a @ [Closed 0] \<and> \<not> is_ok r \<or>
       ws = Some 1 \<and> (\<exists>b. sends_on gw 1 b \<and>
         acts = Opened 0 (origin_of url) # a @ [Closed 0, Opened 1 (origin_of url)] @ b)))"
proof -
  obtain x a where e: "exchange ed gw cred rid 0 ''Expected connect.challenge, got: '' None = (x, a)"
    by fastforce
  have s: "sends_on gw 0 a" using exchange_acts [OF e] by (simp add: sends_on_def)
  show ?thesis
  proof (cases "missing_credentials cred \<noteq> [] \<or> \<not> is_ok (gw_open gw 0)")
    case True
    with assms show ?thesis
      by (auto simp: connect_body_def is_ok_def split: if_splits sum.splits)
  next
    case False
    then obtain u where o: "gw_open gw 0 = Ok u" and m: "missing_credentials cred = []"
      by (auto simp: is_ok_def split: sum.splits)
    have "ws = Some 0 \<and> acts = Opened 0 (origin_of url) # a \<or>
        (\<exists>build r' acts'. connect_retry ed gw url cred rid build = (r', ws, acts') \<and> r = r' \<and>
          acts = Opened 0 (origin_of url) # a @ acts')"
      using assms by (auto simp: connect_body_def o m e split: sum.splits if_splits prod.splits)
    with s connect_retry_cases show ?thesis by fastforce
  qed
qed

section \<open>Properties\<close>

text \<open>
  The base64url codec loses nothing: decoding what \<open>_b64url_encode\<close> produced (with
  the padding \<open>_b64url_decode\<close> puts back) gives the same bytes, and the text uses only the
  url-safe alphabet.
\<close>

theorem b64url_roundtrip:
  "b64url_decode (b64url_encode s) = Ok s \<and> set (b64url_encode s) \<subseteq> set b64_alphabet"
proof -
  let ?e = "b64url_encode s"
  have ascii: "filter (\<lambda>c. \<not> (128 \<le> code c \<and> code c < 192)) ?e = ?e"
    by (rule filter_True) (use encode_chars in force)
  have len: "py_len ?e = (4 * length s + 2) div 3" by (simp only: py_len_def ascii length_encode)
  have "(if 4 - py_len ?e mod 4 \<noteq> 4 then ?e @ replicate (4 - py_len ?e mod 4) (CHR ''='') else ?e) =
      ?e @ replicate ((3 - length s mod 3) mod 3) (CHR ''='')"
  proof -
    obtain q r where n: "length s = 3 * q + r" "r < 3"
      by (metis mult_div_mod_eq mod_less_divisor zero_less_numeral)
    have pad: "(4 * (3 * q + 0) + 2) div 3 mod 4 = 0" "(4 * (3 * q + 1) + 2) div 3 mod 4 = 2"
        "(4 * (3 * q + 2) + 2) div 3 mod 4 = 3" for q :: nat
      by presburger+
    have m: "(3 * q + r) mod 3 = r" using n(2) by simp
    from n(2) have "r = 0 \<or> r = 1 \<or> r = 2" by auto
    with pad [of q] m show ?thesis by (elim disjE) (simp_all only: len n m, simp_all)
  qed
  moreover have "\<not> list_ex (\<lambda>c. 128 \<le> code c) (?e @ replicate k (CHR ''=''))" for k
    using encode_chars [of _ s] by (fastforce simp: list_ex_iff code_def)
  ultimately have "b64url_decode ?e = Ok s"
    by (simp only: b64url_decode_def Let_def a2b_encode if_False)
  with encode_chars show ?thesis by blast
qed

text \<open>
  A signature binds one connect request: if two requests sign the same text (no
  vertical bar occurs in the fields), they are for the same device, the same time, the same
  gateway token and the same nonce.
\<close>

theorem signature_binds_fields:
  assumes "sign_payload c t g n = sign_payload c' t' g' n'"
    and "\<forall>s \<in> {device_id c, g, n, device_id c', g', n'}. CHR ''|'' \<notin> set s"
  shows "device_id c = device_id c' \<and> t = t' \<and> g = g' \<and> n = n'"
proof -
  let ?f = "\<lambda>c t g n. [''v2'', device_id c, CLIENT_ID, CLIENT_MODE, ROLE, SCOPES_CSV, str_int t, g, n]"
  have "CHR ''|'' \<notin> set CLIENT_ID" "CHR ''|'' \<notin> set CLIENT_MODE" "CHR ''|'' \<notin> set ROLE"
    "CHR ''|'' \<notin> set SCOPES_CSV" by (atomize (full), code_simp)
  then have "split_on (CHR ''|'') (join_with ''|'' (?f c t g n)) = ?f c t g n"
    "split_on (CHR ''|'') (join_with ''|'' (?f c' t' g' n')) = ?f c' t' g' n'"
    using assms(2) by (intro split_on_join; simp add: str_int_no_bar)+
  with assms(1) have "?f c t g n = ?f c' t' g' n'" unfolding sign_payload_def by metis
  then show ?thesis using str_int_inj by simp
qed

theorem signature_binds_fields_witness:
  "sign_payload toy_creds 5 ''g'' ''n1'' = sign_payload toy_creds 5 ''g'' ''n1'' \<and> (5::int) = 5"
  using signature_binds_fields [of toy_creds 5 "''g''" "''n1''" toy_creds 5 "''g''" "''n1''"]
  by (simp add: toy_creds_def)

text \<open>
  Property C20. \<open>connect\<close> leaks nothing: if it raises, the error is an
  \<open>OpenClawConnectionError\<close>, the client is disconnected and every socket it opened is closed
  (provided closing works); if it returns, exactly one socket is open and it is the client's.
  Credentials are sent only on a socket whose peer sent a challenge first, at most once per
  socket, and with incomplete credentials no socket is opened at all.
\<close>

theorem connect_owns_its_sockets:
  assumes "connect ed gw url cred rid = (r, c, acts)"
  shows "(case r of
      Inl e \<Rightarrow> (\<exists>m. e = OpenClawConnectionError m) \<and> c = disconnected \<and> open_sockets [] acts = []
    | Inr _ \<Rightarrow> conn_connected c \<and> conn_listening c \<and>
        (\<exists>n. conn_ws c = Some n \<and> open_sockets [] acts = [n])) \<and>
    (\<forall>n f. SentFrame n f \<in> set acts \<longrightarrow> challenged gw n) \<and>
    (\<forall>n. length (filter (\<lambda>a. \<exists>f. a = SentFrame n f) acts) \<le> 1) \<and>
    (missing_credentials cred \<noteq> [] \<longrightarrow> acts = [])"
proof -
  obtain rb ws ab where b: "connect_body ed gw url cred rid = (rb, ws, ab)" using prod_cases3 by blast
  have m: "acts = []" if "missing_credentials cred \<noteq> []"
    using that assms by (auto simp: connect_def connect_body_def)
  have acts: "acts = ab @ (if is_ok rb then [] else case ws of None \<Rightarrow> [] | Some n \<Rightarrow> [Closed n])"
    using assms by (auto simp: connect_def b split: sum.splits)
  have rc: "case r of Inl e \<Rightarrow> \<not> is_ok rb \<and> (\<exists>m. e = OpenClawConnectionError m) \<and> c = disconnected
      | Inr _ \<Rightarrow> is_ok rb \<and> conn_connected c \<and> conn_listening c \<and> conn_ws c = ws"
    using assms by (auto simp: connect_def b split: sum.splits exn.splits)
  note cases = connect_body_cases [OF b]
  have o: "if is_ok rb then \<exists>n. ws = Some n \<and> open_sockets [] acts = [n] else open_sockets [] acts = []"
    using cases by (auto simp: acts sends_on_def)
  moreover have "\<forall>n f. SentFrame n f \<in> set acts \<longrightarrow> challenged gw n"
    using cases by (auto simp: acts sends_on_def split: if_splits option.splits)
  moreover have "\<forall>n. length (filter (\<lambda>a. \<exists>f. a = SentFrame n f) acts) \<le> 1"
    using cases by (auto simp: acts sends_on_def split: if_splits option.splits)
  ultimately show ?thesis using rc m by (auto split: sum.splits)
qed

definition toy_ed :: "string ed25519_lib" where
  "toy_ed = \<lparr>from_private_bytes = (\<lambda>b. Some b), ed_sign = (\<lambda>k m. rev (take 5 m))\<rparr>"

definition toy_gateway :: gateway where
  "toy_gateway = \<lparr>gw_open = (\<lambda>_. Ok ()),
     gw_recv = (\<lambda>n k. if k = 0
        then Ok (JObj [(''event'', JStr ''connect.challenge''), (''payload'', JObj [(''nonce'', JStr ''n1'')])])
        else if n = 0
        then Ok (JObj [(''ok'', JBool False), (''error'', JObj [(''details'', JObj [(''gatewayBuildId'', JStr ''b7'')])])])
        else Ok (JObj [(''ok'', JBool True)])),
     gw_send = (\<lambda>_. Ok ()), gw_close = (\<lambda>_. Ok ()), gw_clock = (\<lambda>_. 1000)\<rparr>"

theorem connect_owns_its_sockets_witness:
  "is_ok (fst (connect toy_ed toy_gateway ''ws://h:18789/ws'' toy_creds ''r1'')) \<and>
   open_sockets [] (snd (snd (connect toy_ed toy_gateway ''ws://h:18789/ws'' toy_creds ''r1''))) = [1]"
proof -
  let ?c = "connect toy_ed toy_gateway ''ws://h:18789/ws'' toy_creds ''r1''"
  have e: "?c = (fst ?c, fst (snd ?c), snd (snd ?c))" by simp
  have ok: "is_ok (fst ?c) \<and> conn_ws (fst (snd ?c)) = Some 1" by code_simp
  from connect_owns_its_sockets [OF e] ok show ?thesis
    by (cases "fst ?c") (simp_all only: is_ok_simps sum.case option.inject, auto)
qed

end
