(* ===== verification/Aggregator.thy ===== *)
theory Aggregator
  imports PyStr Settings
begin

text \<open>
  The message aggregator (\<open>src/utils/claw_aggregator.py\<close>). OpenClaw sends several
  \<open>chat.final\<close> events for one run; they are buffered per message id, every arrival restarts
  a debounce timer, and when the timer fires the best buffered message is handed to
  \<open>on_final\<close>. The event loop is explicit: a timer task is pending in \<open>timers\<close> with the time
  its sleep ends, and the steps \<open>add_event\<close>, \<open>finalize_later\<close> and \<open>cancel_all\<close> are atomic,
  as the code has no \<open>await\<close> between their effects.
\<close>

section \<open>Choosing a message\<close>

definition JUNK_EXACT :: "string list" where
  "JUNK_EXACT = [''ok'', ''ok.'', ''thinking'', ''thinking...'', ''...'', [CHR 0xE2, CHR 0x80, CHR 0xA6]]"

definition is_valid_text :: "settings \<Rightarrow> string \<Rightarrow> bool" where
  "is_valid_text cfg txt =
     (if txt = [] then False
      else let stripped = py_strip txt in
        if int (py_len stripped) < claw_min_valid_text_len cfg then False
        else if py_lower stripped \<in> set JUNK_EXACT then False
        else True)"

record claw_message =
  msg_id :: string
  msg_seq :: int
  msg_text :: string
  msg_state :: string
  msg_ts :: rat
  msg_media_paths :: "string list"

text \<open>\<open>max(ms, key=lambda m: m.seq)\<close>: the first of the maximal elements.\<close>

fun max_by_seq :: "claw_message \<Rightarrow> claw_message list \<Rightarrow> claw_message" where
  "max_by_seq best [] = best"
| "max_by_seq best (m # ms) = max_by_seq (if msg_seq best < msg_seq m then m else best) ms"

definition select_best :: "settings \<Rightarrow> claw_message list \<Rightarrow> claw_message option" where
  "select_best cfg messages =
     (let finals = filter (\<lambda>m. msg_state m = ''final'') messages in
      if finals = [] then None
      else let valid = filter (\<lambda>m. is_valid_text cfg (msg_text m)) finals in
        (case valid of
           m # ms \<Rightarrow> Some (max_by_seq m ms)
         | [] \<Rightarrow>
             (case filter (\<lambda>m. msg_text m \<noteq> [] \<and> py_strip (msg_text m) \<noteq> []) finals of
                m # ms \<Rightarrow> Some (max_by_seq m ms)
              | [] \<Rightarrow> None)))"

section \<open>The debounce state machine\<close>

text \<open>
  \<open>tasks\<close> maps a message id to its task; \<open>timers\<close> holds the tasks that are still sleeping:
  task, message id, wake time. A task that is not in \<open>timers\<close> is done or cancelled.
\<close>

record aggregator =
  debounce_ms :: int
  on_final_set :: bool
  buffers :: "(string, claw_message list) dict"
  tasks :: "(string, nat) dict"
  timers :: "(nat, string \<times> rat) dict"
  next_task :: nat

definition new_aggregator :: "int \<Rightarrow> aggregator" where
  "new_aggregator ms = \<lparr>debounce_ms = ms, on_final_set = True, buffers = [], tasks = [],
     timers = [], next_task = 0\<rparr>"

definition debounce :: "aggregator \<Rightarrow> rat" where
  "debounce g = of_int (debounce_ms g) / 1000"

definition add_event :: "rat \<Rightarrow> claw_message \<Rightarrow> aggregator \<Rightarrow> aggregator" where
  "add_event now m g =
     (if msg_state m \<noteq> ''final'' then g
      else
        let buf = (case dict_get (buffers g) (msg_id m) of None \<Rightarrow> [] | Some b \<Rightarrow> b);
            g1 = g\<lparr>buffers := dict_set (buffers g) (msg_id m) (buf @ [m])\<rparr>;
            g2 = (case dict_get (tasks g1) (msg_id m) of
                    Some t \<Rightarrow> if dict_has (timers g1) t then g1\<lparr>timers := dict_pop (timers g1) t\<rparr> else g1
                  | None \<Rightarrow> g1)
        in g2\<lparr>tasks := dict_set (tasks g2) (msg_id m) (next_task g2),
              timers := dict_set (timers g2) (next_task g2) (msg_id m, now + debounce g2),
              next_task := Suc (next_task g2)\<rparr>)"

text \<open>
  The body of the timer task after its sleep, up to the call of \<open>on_final\<close>; the result is
  the message the callback gets. An exception of the callback is caught and logged, so it
  does not reach the state.
\<close>

definition finalize_later :: "settings \<Rightarrow> nat \<Rightarrow> aggregator \<Rightarrow> claw_message option \<times> aggregator" where
  "finalize_later cfg t g =
     (case dict_get (timers g) t of
        None \<Rightarrow> (None, g)
      | Some (i, wake) \<Rightarrow>
          let messages = (case dict_get (buffers g) i of None \<Rightarrow> [] | Some b \<Rightarrow> b);
              g' = g\<lparr>timers := dict_pop (timers g) t, buffers := dict_pop (buffers g) i,
                     tasks := dict_pop (tasks g) i\<rparr>
          in if messages = [] then (None, g')
             else (case select_best cfg messages of
                     None \<Rightarrow> (None, g')
                   | Some m \<Rightarrow> (if on_final_set g then Some m else None, g')))"

text \<open>\<open>cancel_all\<close> cancels the tasks of \<open>tasks\<close> that are still sleeping.\<close>

definition cancel_all :: "aggregator \<Rightarrow> aggregator" where
  "cancel_all g = g\<lparr>timers := filter (\<lambda>(t, _). t \<notin> snd ` set (tasks g)) (timers g),
     tasks := [], buffers := []\<rparr>"

datatype agg_event = Arrive claw_message rat | Fire nat rat | CancelAll

text \<open>A timer fires only once its sleep is over.\<close>

definition agg_step :: "settings \<Rightarrow> aggregator \<Rightarrow> agg_event \<Rightarrow> claw_message option \<times> aggregator" where
  "agg_step cfg g e =
     (case e of
        Arrive m now \<Rightarrow> (None, add_event now m g)
      | Fire t now \<Rightarrow>
          (case dict_get (timers g) t of
             Some (i, wake) \<Rightarrow> if wake \<le> now then finalize_later cfg t g else (None, g)
           | None \<Rightarrow> (None, g))
      | CancelAll \<Rightarrow> (None, cancel_all g))"

section \<open>The contract: a quiet-period buffer\<close>

text \<open>
  What the aggregator promises, with no timers and no tasks: for each message id the finals
  received since the last emission and the time of the last one; once the id has been quiet
  for the debounce time, the best of them is emitted and the id forgotten.
\<close>

type_synonym quiet_state = "string \<Rightarrow> (claw_message list \<times> rat) option"

datatype quiet_event = Received claw_message rat | Quiet string rat | Dropped

definition quiet_step ::
    "settings \<Rightarrow> rat \<Rightarrow> quiet_state \<Rightarrow> quiet_event \<Rightarrow> claw_message option \<times> quiet_state" where
  "quiet_step cfg d s e =
     (case e of
        Received m now \<Rightarrow>
          (None, if msg_state m = ''final''
                 then s(msg_id m \<mapsto> ((case s (msg_id m) of None \<Rightarrow> [] | Some (ms, _) \<Rightarrow> ms) @ [m], now))
                 else s)
      | Quiet i now \<Rightarrow>
          (case s i of
             Some (ms, t0) \<Rightarrow> if t0 + d \<le> now then (select_best cfg ms, s(i := None)) else (None, s)
           | None \<Rightarrow> (None, s))
      | Dropped \<Rightarrow> (None, \<lambda>_. None))"

definition abs_aggregator :: "aggregator \<Rightarrow> quiet_state" where
  "abs_aggregator g i =
     (case dict_get (tasks g) i of
        None \<Rightarrow> None
      | Some t \<Rightarrow> (case dict_get (timers g) t of
          None \<Rightarrow> None
        | Some (_, wake) \<Rightarrow>
            map_option (\<lambda>ms. (ms, wake - debounce g)) (dict_get (buffers g) i)))"

definition abs_event :: "aggregator \<Rightarrow> agg_event \<Rightarrow> quiet_event option" where
  "abs_event g e =
     (case e of
        Arrive m now \<Rightarrow> Some (Received m now)
      | Fire t now \<Rightarrow> map_option (\<lambda>(i, _). Quiet i now) (dict_get (timers g) t)
      | CancelAll \<Rightarrow> Some Dropped)"

section \<open>The invariant\<close>

text \<open>
  Every buffered id has one sleeping task, every sleeping task has its id's buffer, and the
  buffers hold finals of their own id.
\<close>

definition agg_ok :: "aggregator \<Rightarrow> bool" where
  "agg_ok g \<longleftrightarrow>
     (\<forall>i. (dict_get (buffers g) i = None) = (dict_get (tasks g) i = None)) \<and>
     (\<forall>i t. dict_get (tasks g) i = Some t \<longrightarrow> (\<exists>w. dict_get (timers g) t = Some (i, w))) \<and>
     (\<forall>t i w. dict_get (timers g) t = Some (i, w) \<longrightarrow> dict_get (tasks g) i = Some t) \<and>
     (\<forall>t i w. dict_get (timers g) t = Some (i, w) \<longrightarrow> t < next_task g) \<and>
     (\<forall>i ms. dict_get (buffers g) i = Some ms \<longrightarrow>
        ms \<noteq> [] \<and> (\<forall>m\<in>set ms. msg_state m = ''final'' \<and> msg_id m = i))"

lemma agg_okD:
  assumes "agg_ok g"
  shows "dict_get (buffers g) i = None \<longleftrightarrow> dict_get (tasks g) i = None"
    and "dict_get (tasks g) i = Some t \<Longrightarrow> \<exists>w. dict_get (timers g) t = Some (i, w)"
    and "dict_get (timers g) t = Some (i, w) \<Longrightarrow> dict_get (tasks g) i = Some t"
    and "dict_get (timers g) t = Some (i, w) \<Longrightarrow> t < next_task g"
    and "dict_get (buffers g) i = Some ms \<Longrightarrow> ms \<noteq> []"
    and "dict_get (buffers g) i = Some ms \<Longrightarrow> m \<in> set ms \<Longrightarrow> msg_state m = ''final'' \<and> msg_id m = i"
  using assms unfolding agg_ok_def by blast+

lemma agg_okI:
  assumes "\<And>i. dict_get (buffers g) i = None \<longleftrightarrow> dict_get (tasks g) i = None"
    and "\<And>i t. dict_get (tasks g) i = Some t \<Longrightarrow> \<exists>w. dict_get (timers g) t = Some (i, w)"
    and "\<And>i t w. dict_get (timers g) t = Some (i, w) \<Longrightarrow> dict_get (tasks g) i = Some t"
    and "\<And>i t w. dict_get (timers g) t = Some (i, w) \<Longrightarrow> t < next_task g"
    and "\<And>i ms. dict_get (buffers g) i = Some ms \<Longrightarrow> ms \<noteq> []"
    and "\<And>i ms m. dict_get (buffers g) i = Some ms \<Longrightarrow> m \<in> set ms \<Longrightarrow> msg_state m = ''final'' \<and> msg_id m = i"
  shows "agg_ok g"
  using assms unfolding agg_ok_def by blast

lemma agg_ok_new: "agg_ok (new_aggregator ms)"
  by (simp add: agg_ok_def new_aggregator_def)

text \<open>The state after an arrival, under the invariant.\<close>

definition waiting :: "aggregator \<Rightarrow> string \<Rightarrow> claw_message list" where
  "waiting g i = (case dict_get (buffers g) i of None \<Rightarrow> [] | Some b \<Rightarrow> b)"

lemma add_event_parts:
  assumes "agg_ok g" "msg_state m = ''final''"
  shows "dict_get (buffers (add_event now m g)) i =
      (if i = msg_id m then Some (waiting g i @ [m]) else dict_get (buffers g) i)"
    and "dict_get (tasks (add_event now m g)) i =
      (if i = msg_id m then Some (next_task g) else dict_get (tasks g) i)"
    and "dict_get (timers (add_event now m g)) t =
      (if t = next_task g then Some (msg_id m, now + debounce g)
       else if dict_get (tasks g) (msg_id m) = Some t then None else dict_get (timers g) t)"
    and "next_task (add_event now m g) = Suc (next_task g)"
    and "debounce (add_event now m g) = debounce g"
    and "on_final_set (add_event now m g) = on_final_set g"
  using assms(2) agg_okD(2) [OF assms(1), of "msg_id m"]
  by (auto simp: add_event_def Let_def waiting_def debounce_def dict_has_get split: option.splits)

lemma agg_ok_add:
  assumes "agg_ok g"
  shows "agg_ok (add_event now m g)"
proof (cases "msg_state m = ''final''")
  case True
  note p = add_event_parts [OF assms True, of now]
  note ok = agg_okD [OF assms]
  show ?thesis
  proof (rule agg_okI)
    fix i t assume a: "dict_get (tasks (add_event now m g)) i = Some t"
    show "\<exists>w. dict_get (timers (add_event now m g)) t = Some (i, w)"
    proof (cases "i = msg_id m")
      case False
      with a have t: "dict_get (tasks g) i = Some t" by (simp add: p)
      then obtain w where w: "dict_get (timers g) t = Some (i, w)" using ok(2) by blast
      then have "t \<noteq> next_task g" "dict_get (tasks g) (msg_id m) \<noteq> Some t"
        using ok(4) ok(2) [of "msg_id m" t] False by fastforce+
      with w show ?thesis by (simp add: p)
    qed (use a in \<open>simp add: p\<close>)
  next
    fix i t w assume "dict_get (timers (add_event now m g)) t = Some (i, w)"
    then show "dict_get (tasks (add_event now m g)) i = Some t" "t < next_task (add_event now m g)"
      using ok(3) [of t i w] ok(4) [of t i w] by (auto simp: p split: if_splits)
  next
    fix i ms x assume "dict_get (buffers (add_event now m g)) i = Some ms" "x \<in> set ms"
    then show "msg_state x = ''final'' \<and> msg_id x = i"
      using True ok(6) [of i _ x] by (auto simp: p waiting_def split: if_splits option.splits)
  qed (use ok(1,5) in \<open>auto simp: p split: if_splits\<close>)
qed (simp add: add_event_def assms)

lemma finalize_parts:
  assumes "dict_get (timers g) t = Some (i, w)"
  shows "snd (finalize_later cfg t g) = g\<lparr>timers := dict_pop (timers g) t,
     buffers := dict_pop (buffers g) i, tasks := dict_pop (tasks g) i\<rparr>"
  using assms by (simp add: finalize_later_def Let_def split: option.splits)

lemma agg_ok_finalize:
  assumes "agg_ok g"
  shows "agg_ok (snd (finalize_later cfg t g))"
proof (cases "dict_get (timers g) t")
  case (Some x)
  obtain i w where x: "x = (i, w)" by fastforce
  note f = finalize_parts [OF Some [unfolded x], of cfg]
  note ok = agg_okD [OF assms]
  have t: "dict_get (tasks g) i = Some t" using ok(3) Some x by blast
  show ?thesis
    unfolding f
  proof (rule agg_okI)
    let ?g = "g\<lparr>timers := dict_pop (timers g) t, buffers := dict_pop (buffers g) i,
      tasks := dict_pop (tasks g) i\<rparr>"
    fix j u assume "dict_get (tasks ?g) j = Some u"
    then have j: "j \<noteq> i" "dict_get (tasks g) j = Some u" by (auto split: if_splits)
    then obtain v where "dict_get (timers g) u = Some (j, v)" using ok(2) by blast
    with Some x j show "\<exists>w. dict_get (timers ?g) u = Some (j, w)" by auto
  next
    let ?g = "g\<lparr>timers := dict_pop (timers g) t, buffers := dict_pop (buffers g) i,
      tasks := dict_pop (tasks g) i\<rparr>"
    fix j u v assume "dict_get (timers ?g) u = Some (j, v)"
    then have "u \<noteq> t" "dict_get (timers g) u = Some (j, v)" by (auto split: if_splits)
    with ok(3,4) [of u j v] t show "dict_get (tasks ?g) j = Some u" "u < next_task ?g" by auto
  qed (use ok(1,5,6) in \<open>auto split: if_splits\<close>)
qed (simp add: finalize_later_def assms)

lemma agg_ok_cancel: "agg_ok g \<Longrightarrow> agg_ok (cancel_all g) \<and> timers (cancel_all g) = []"
proof -
  assume a: "agg_ok g"
  have "t \<in> snd ` set (tasks g)" if m: "(t, x) \<in> set (timers g)" for t x
  proof -
    obtain y where "dict_get (timers g) t = Some y"
      using m by (metis dict_get_def map_of_eq_None_iff not_None_eq image_eqI fst_conv)
    then have "dict_get (tasks g) (fst y) = Some t" using agg_okD(3) [OF a] by (metis prod.collapse)
    then have "(fst y, t) \<in> set (tasks g)" by (rule dict_get_in_set)
    then show ?thesis by force
  qed
  then have "timers (cancel_all g) = []" by (auto simp: cancel_all_def filter_empty_conv)
  then show ?thesis by (simp add: agg_ok_def) (simp add: cancel_all_def)
qed

lemma agg_ok_step: "agg_ok g \<Longrightarrow> agg_ok (snd (agg_step cfg g e))"
  by (cases e) (auto simp: agg_step_def agg_ok_add agg_ok_finalize agg_ok_cancel split: option.splits)

definition agg_run :: "settings \<Rightarrow> aggregator \<Rightarrow> agg_event list \<Rightarrow> aggregator" where
  "agg_run cfg g es = foldl (\<lambda>g e. snd (agg_step cfg g e)) g es"

interpretation aggregating: event_machine "\<lambda>g e. snd (agg_step cfg g e)" agg_ok for cfg
  by unfold_locales (rule agg_ok_step)

lemma agg_run_ok: "agg_ok (agg_run cfg (new_aggregator ms) es)"
  unfolding agg_run_def by (rule aggregating.run_inv [OF agg_ok_new])

lemma on_final_kept: "on_final_set (snd (agg_step cfg g e)) = on_final_set g"
  by (cases e)
    (auto simp: agg_step_def add_event_def finalize_later_def cancel_all_def Let_def
      split: option.splits)

section \<open>Facts about the choice\<close>

lemma max_by_seq_mem: "max_by_seq m ms \<in> insert m (set ms)"
proof (induction ms arbitrary: m)
  case (Cons a ms)
  from Cons [of "if msg_seq m < msg_seq a then a else m"] show ?case by (auto split: if_splits)
qed simp

lemma max_by_seq_ge: "x \<in> insert m (set ms) \<Longrightarrow> msg_seq x \<le> msg_seq (max_by_seq m ms)"
proof (induction ms arbitrary: m x)
  case (Cons a ms)
  let ?b = "if msg_seq m < msg_seq a then a else m"
  have b: "msg_seq ?b \<le> msg_seq (max_by_seq ?b ms)" by (rule Cons.IH) simp
  show ?case
  proof (cases "x \<in> set ms")
    case True
    then show ?thesis using Cons.IH [of x ?b] by simp
  next
    case False
    then have "msg_seq x \<le> msg_seq ?b" using Cons.prems by (auto split: if_splits)
    with b show ?thesis by simp
  qed
qed simp

lemma max_filter:
  assumes "filter P xs = m # ms"
  shows "P (max_by_seq m ms) \<and> max_by_seq m ms \<in> set xs"
    and "x \<in> set xs \<Longrightarrow> P x \<Longrightarrow> msg_seq x \<le> msg_seq (max_by_seq m ms)"
proof -
  have s: "insert m (set ms) = {x \<in> set xs. P x}" using assms by (metis list.simps(15) set_filter)
  show "P (max_by_seq m ms) \<and> max_by_seq m ms \<in> set xs"
    using max_by_seq_mem [of m ms] s by blast
  show "x \<in> set xs \<Longrightarrow> P x \<Longrightarrow> msg_seq x \<le> msg_seq (max_by_seq m ms)"
    using max_by_seq_ge [of x m ms] s by blast
qed

lemma valid_text_nonblank:
  "0 < claw_min_valid_text_len cfg \<Longrightarrow> is_valid_text cfg s \<Longrightarrow> s \<noteq> [] \<and> py_strip s \<noteq> []"
  by (auto simp: is_valid_text_def py_len_def Let_def split: if_splits)

section \<open>The simulation\<close>

lemma abs_at:
  assumes "agg_ok g"
  shows "abs_aggregator g i = (case dict_get (tasks g) i of None \<Rightarrow> None
    | Some t \<Rightarrow> Some (waiting g i, snd (the (dict_get (timers g) t)) - debounce g))"
proof (cases "dict_get (tasks g) i")
  case (Some t)
  then obtain w ms where "dict_get (timers g) t = Some (i, w)" "dict_get (buffers g) i = Some ms"
    using agg_okD(1,2) [OF assms] by (metis not_Some_eq)
  with Some show ?thesis by (simp add: abs_aggregator_def waiting_def)
qed (simp add: abs_aggregator_def)

lemma abs_add:
  assumes "agg_ok g" "msg_state m = ''final''"
  shows "abs_aggregator (add_event now m g) =
    (abs_aggregator g)(msg_id m \<mapsto>
       ((case abs_aggregator g (msg_id m) of None \<Rightarrow> [] | Some (ms, _) \<Rightarrow> ms) @ [m], now))"
proof
  fix i
  note p = add_event_parts [OF assms, of now]
  note ok = agg_okD [OF assms(1)]
  have ok': "agg_ok (add_event now m g)" by (rule agg_ok_add [OF assms(1)])
  show "abs_aggregator (add_event now m g) i = ((abs_aggregator g)(msg_id m \<mapsto>
       ((case abs_aggregator g (msg_id m) of None \<Rightarrow> [] | Some (ms, _) \<Rightarrow> ms) @ [m], now))) i"
  proof (cases "i = msg_id m")
    case True
    have "waiting g (msg_id m) = (case abs_aggregator g (msg_id m) of None \<Rightarrow> [] | Some (ms, _) \<Rightarrow> ms)"
      using ok(1) [of "msg_id m"]
      by (auto simp: abs_at [OF assms(1)] waiting_def split: option.splits)
    then show ?thesis
      by (simp add: abs_at [OF ok'] p True) (simp add: waiting_def p)
  next
    case False
    have "dict_get (timers (add_event now m g)) t = dict_get (timers g) t"
      if "dict_get (tasks g) i = Some t" for t
      using that False ok(2) [of i t] ok(2) [of "msg_id m" t] ok(4) [of t] by (fastforce simp: p)
    then show ?thesis
      using False by (simp add: abs_aggregator_def p split: option.splits)
  qed
qed

lemma abs_finalize:
  assumes "agg_ok g" "dict_get (timers g) t = Some (i, w)"
  shows "abs_aggregator (snd (finalize_later cfg t g)) = (abs_aggregator g)(i := None)"
    and "on_final_set g \<Longrightarrow> fst (finalize_later cfg t g) = select_best cfg (waiting g i)"
    and "abs_aggregator g i = Some (waiting g i, w - debounce g)"
proof -
  note ok = agg_okD [OF assms(1)]
  have t: "dict_get (tasks g) i = Some t" by (rule ok(3) [OF assms(2)])
  have other: "u \<noteq> t" if "dict_get (tasks g) j = Some u" "j \<noteq> i" for j u
    using ok(2) [OF that(1)] that(2) assms(2) by auto
  show "abs_aggregator (snd (finalize_later cfg t g)) = (abs_aggregator g)(i := None)"
  proof
    fix j
    show "abs_aggregator (snd (finalize_later cfg t g)) j = ((abs_aggregator g)(i := None)) j"
      using other [of j]
      by (auto simp: finalize_parts [OF assms(2)] abs_aggregator_def debounce_def split: option.splits)
  qed
  show "abs_aggregator g i = Some (waiting g i, w - debounce g)"
    using t assms(2) by (simp add: abs_at [OF assms(1)])
  show "fst (finalize_later cfg t g) = select_best cfg (waiting g i)" if "on_final_set g"
  proof -
    have "select_best cfg [] = None" by (simp add: select_best_def)
    with that assms(2) show ?thesis
      by (auto simp: finalize_later_def waiting_def Let_def split: option.splits)
  qed
qed

section \<open>Properties\<close>

text \<open>
  The chosen message. When something is chosen it is a non-blank final of the
  buffer; if any final is a real answer then a real answer is chosen, with the highest
  sequence number among the real answers; otherwise the non-blank final with the highest
  number. Nothing is chosen only when every final is blank.
\<close>

theorem select_best_correct:
  assumes "0 < claw_min_valid_text_len cfg"
  shows "case select_best cfg ms of
      None \<Rightarrow> (\<forall>x\<in>set ms. msg_state x = ''final'' \<longrightarrow> py_strip (msg_text x) = [])
    | Some m \<Rightarrow> m \<in> set ms \<and> msg_state m = ''final'' \<and> py_strip (msg_text m) \<noteq> [] \<and>
        (\<forall>x\<in>set ms. msg_state x = ''final'' \<longrightarrow>
          (is_valid_text cfg (msg_text x) \<longrightarrow> is_valid_text cfg (msg_text m) \<and> msg_seq x \<le> msg_seq m) \<and>
          (\<not> is_valid_text cfg (msg_text m) \<longrightarrow> py_strip (msg_text x) \<noteq> [] \<longrightarrow> msg_seq x \<le> msg_seq m))"
proof -
  let ?F = "filter (\<lambda>m. msg_state m = ''final'') ms"
  let ?V = "filter (\<lambda>m. is_valid_text cfg (msg_text m)) ?F"
  let ?N = "filter (\<lambda>m. msg_text m \<noteq> [] \<and> py_strip (msg_text m) \<noteq> []) ?F"
  have blank: "py_strip [] = []" by (simp add: py_strip_def strip_by_Nil_iff)
  then have nb: "py_strip s \<noteq> [] \<Longrightarrow> s \<noteq> []" for s by auto
  show ?thesis
  proof (cases ?V)
    case (Cons v vs)
    then have "?F \<noteq> []" by (metis filter.simps(1) list.distinct(1))
    with Cons have e: "select_best cfg ms = Some (max_by_seq v vs)"
      by (simp only: select_best_def Let_def list.simps if_False)
    show ?thesis
      unfolding e using max_filter [OF Cons] valid_text_nonblank [OF assms] by auto
  next
    case Nil
    then have none: "\<And>x. x \<in> set ms \<Longrightarrow> msg_state x = ''final'' \<Longrightarrow> \<not> is_valid_text cfg (msg_text x)"
      by (auto simp: filter_empty_conv)
    show ?thesis
    proof (cases ?N)
      case (Cons n ns)
      then have "?F \<noteq> []" by (metis filter.simps(1) list.distinct(1))
      with Nil Cons have e: "select_best cfg ms = Some (max_by_seq n ns)"
        by (simp only: select_best_def Let_def list.simps if_False)
      show ?thesis
        unfolding e using max_filter [OF Cons] none nb by simp
    next
      case Nil2: Nil
      have e: "select_best cfg ms = None"
        by (simp only: select_best_def Let_def Nil Nil2 list.simps if_cancel)
      show ?thesis
        unfolding e using Nil2 blank by (auto simp: filter_empty_conv)
    qed
  qed
qed

definition toy_message :: "int \<Rightarrow> string \<Rightarrow> claw_message" where
  "toy_message n s = \<lparr>msg_id = ''r1'', msg_seq = n, msg_text = s, msg_state = ''final'', msg_ts = 0,
     msg_media_paths = []\<rparr>"

theorem select_best_correct_witness:
  "select_best default_settings
     [toy_message 2 ''Thinking...'', toy_message 7 ''The report is ready'', toy_message 9 ''Ok.''] =
     Some (toy_message 7 ''The report is ready'') \<and>
   is_valid_text default_settings ''The report is ready''"
proof -
  let ?ms = "[toy_message 2 ''Thinking...'', toy_message 7 ''The report is ready'', toy_message 9 ''Ok.'']"
  have s: "select_best default_settings ?ms = Some (toy_message 7 ''The report is ready'')" by code_simp
  have v: "is_valid_text default_settings ''The report is ready''" by code_simp
  from select_best_correct [of default_settings ?ms] s v show ?thesis by simp
qed



text \<open>
  No buffered message is stranded: in every reachable aggregator an id with
  buffered finals has exactly one sleeping task, and when that task wakes it empties the
  buffer and hands the best of it to \<open>on_final\<close>.
\<close>

theorem buffered_message_has_timer:
  assumes "g = agg_run cfg (new_aggregator ms) es" and "dict_get (buffers g) i = Some b"
  shows "\<exists>!t. \<exists>w. dict_get (timers g) t = Some (i, w) \<and>
    (\<forall>now \<ge> w. fst (agg_step cfg g (Fire t now)) = select_best cfg b \<and>
       dict_get (buffers (snd (agg_step cfg g (Fire t now)))) i = None)"
proof -
  have ok: "agg_ok g" unfolding assms(1) by (rule agg_run_ok)
  have fin: "on_final_set g"
    unfolding assms(1) agg_run_def
    by (induction es rule: rev_induct) (simp_all add: new_aggregator_def on_final_kept)
  obtain t w where t: "dict_get (tasks g) i = Some t" "dict_get (timers g) t = Some (i, w)"
    using agg_okD(1,2) [OF ok] assms(2) by (metis not_Some_eq option.distinct(1))
  have b: "waiting g i = b" using assms(2) by (simp add: waiting_def)
  have "fst (agg_step cfg g (Fire t now)) = select_best cfg b \<and>
      dict_get (buffers (snd (agg_step cfg g (Fire t now)))) i = None" if "w \<le> now" for now
    using that t abs_finalize(2) [OF ok t(2) fin, of cfg] finalize_parts [OF t(2), of cfg]
    by (simp add: agg_step_def b)
  moreover have "u = t" if "dict_get (timers g) u = Some (i, v)" for u v
    using agg_okD(3) [OF ok that] t(1) by simp
  ultimately show ?thesis using t(2) by blast
qed

theorem buffered_message_has_timer_witness:
  "\<exists>!t. \<exists>w. dict_get (timers (agg_run default_settings (new_aggregator 150)
      [Arrive (toy_message 2 ''Ok'') 1, Arrive (toy_message 9 ''The full answer'') 2])) t = Some (''r1'', w)"
proof -
  let ?g = "agg_run default_settings (new_aggregator 150)
      [Arrive (toy_message 2 ''Ok'') 1, Arrive (toy_message 9 ''The full answer'') 2]"
  have b: "dict_get (buffers ?g) ''r1'' = Some [toy_message 2 ''Ok'', toy_message 9 ''The full answer'']"
    by code_simp
  have ok: "agg_ok ?g" by (rule agg_run_ok)
  from buffered_message_has_timer [OF refl b] obtain t w where "dict_get (timers ?g) t = Some (''r1'', w)"
    by blast
  moreover from agg_okD(3) [OF ok] have "u = t"
    if "dict_get (timers ?g) u = Some (''r1'', v)" "dict_get (timers ?g) t = Some (''r1'', w)" for u t v w
    using that by (metis option.inject)
  ultimately show ?thesis by blast
qed

end
