(* ===== verification/OpenClawClient.thy ===== *)
theory OpenClawClient
  imports OpenClawAuth Aggregator
begin

text \<open>
  The OpenClaw client (\<open>src/services/openclaw_client.py\<close>) after the handshake: one request in
  flight under the send lock, the listener that dispatches frames, the aggregator's callback,
  and the ways a request ends. The client is a state machine whose steps are the stretches of
  code between two \<open>await\<close>s; futures are cells that are set at most once. Text fields of the
  gateway (\<open>text\<close>, \<open>runId\<close>, \<open>state\<close>, ...) are text or null, \<open>seq\<close> is an integer; a value of
  another type raises where the field is read.
\<close>

section \<open>Text of a chat event\<close>

definition get_text :: "json \<Rightarrow> string \<Rightarrow> string result" where
  "get_text j k =
     bind_result (jget_or j k (JStr ''''))
       (\<lambda>v. case v of JStr s \<Rightarrow> Ok s | JNull \<Rightarrow> Ok '''' | _ \<Rightarrow> Raise PyTypeError)"

fun text_parts :: "json list \<Rightarrow> string list result" where
  "text_parts [] = Ok []"
| "text_parts (part # parts) =
     (if is_obj part \<and> jget part ''type'' = Ok (JStr ''text'') then
        bind_result (get_text part ''text'') (\<lambda>t.
        bind_result (text_parts parts) (\<lambda>ts. Ok (if t \<noteq> [] then t # ts else ts)))
      else text_parts parts)"

definition extract_text :: "json \<Rightarrow> string result" where
  "extract_text payload =
     bind_result (jget_or payload ''message'' (JObj [])) (\<lambda>message_obj.
     bind_result (jget_or message_obj ''content'' (JList [])) (\<lambda>content.
     bind_result (case content of JList ps \<Rightarrow> text_parts ps | _ \<Rightarrow> Ok []) (\<lambda>parts.
       if parts \<noteq> [] then Ok (join_with [CHR 0x0A, CHR 0x0A] parts)
       else get_text payload ''text'')))"

section \<open>Container paths in a text\<close>

text \<open>
  The patterns are built from \<open>/home/node/.openclaw/\<close> without escaping, so its dot matches any
  character but a newline (one code point: up to four bytes here).
\<close>

definition utf8_len :: "char \<Rightarrow> nat" where
  "utf8_len c = (if code c < 192 then 1 else if code c < 224 then 2 else if code c < 240 then 3 else 4)"

definition match_prefix :: "string \<Rightarrow> nat option" where
  "match_prefix s =
     (if startswith s ''/home/node/'' then
        (case drop 11 s of
           [] \<Rightarrow> None
         | c # r \<Rightarrow>
             if c = CHR 0x0A then None
             else if startswith (drop (utf8_len c) (c # r)) ''openclaw/''
             then Some (11 + utf8_len c + 9) else None)
      else None)"

definition path_end :: "char \<Rightarrow> bool" where
  "path_end c = (is_ws c \<or> c = CHR 0x22 \<or> c = CHR 0x27 \<or> c = CHR '')'')"

text \<open>The length of a match at the head of the text.\<close>

definition match_raw :: "string \<Rightarrow> nat option" where
  "match_raw s =
     (case match_prefix s of
        None \<Rightarrow> None
      | Some n \<Rightarrow>
          let body = takeWhile (\<lambda>c. \<not> path_end c) (drop n s) in
          if body = [] then None else Some (n + length body))"

definition match_markdown :: "string \<Rightarrow> nat option" where
  "match_markdown s =
     (case s of
        [] \<Rightarrow> None
      | c # r \<Rightarrow>
          if c \<noteq> CHR ''['' then None
          else
            let label = takeWhile (\<lambda>c. c \<noteq> CHR '']'') r;
                rest = drop (length label) r
            in if \<not> startswith rest ''](''  then None
               else
                 (case match_prefix (drop 2 rest) of
                    None \<Rightarrow> None
                  | Some n \<Rightarrow>
                      let target = drop n (drop 2 rest);
                          body = takeWhile (\<lambda>c. c \<noteq> CHR '')'') target
                      in if body = [] \<or> drop (length body) target = [] then None
                         else Some (1 + length label + 2 + n + length body + 1)))"

text \<open>\<open>pattern.sub("", text)\<close> and \<open>pattern.finditer(text)\<close>: leftmost matches, no overlap.\<close>

fun sub_fuel :: "nat \<Rightarrow> (string \<Rightarrow> nat option) \<Rightarrow> string \<Rightarrow> string" where
  "sub_fuel n mt [] = []"
| "sub_fuel 0 mt (c # s) = c # s"
| "sub_fuel (Suc n) mt (c # s) =
     (case mt (c # s) of
        Some k \<Rightarrow> if 0 < k then sub_fuel n mt (drop k (c # s)) else c # sub_fuel n mt s
      | None \<Rightarrow> c # sub_fuel n mt s)"

definition remove_matches :: "(string \<Rightarrow> nat option) \<Rightarrow> string \<Rightarrow> string" where
  "remove_matches mt s = sub_fuel (length s) mt s"

fun find_fuel :: "nat \<Rightarrow> (string \<Rightarrow> nat option) \<Rightarrow> string \<Rightarrow> string list" where
  "find_fuel n mt [] = []"
| "find_fuel 0 mt (c # s) = []"
| "find_fuel (Suc n) mt (c # s) =
     (case mt (c # s) of
        Some k \<Rightarrow> if 0 < k then take k (c # s) # find_fuel n mt (drop k (c # s)) else find_fuel n mt s
      | None \<Rightarrow> find_fuel n mt s)"

definition find_matches :: "(string \<Rightarrow> nat option) \<Rightarrow> string \<Rightarrow> string list" where
  "find_matches mt s = find_fuel (length s) mt s"

definition add_missing :: "string list \<Rightarrow> string \<Rightarrow> string list" where
  "add_missing ps p = (if p \<in> set ps then ps else ps @ [p])"

text \<open>The media paths and the visible text of a final.\<close>

definition media_of :: "json \<Rightarrow> string \<Rightarrow> string list result" where
  "media_of payload txt =
     bind_result (jget payload ''mediaUrls'') (\<lambda>raw_urls.
     bind_result (jget_or payload ''mediaUrl'' (JStr '''')) (\<lambda>single_url.
       let ps = (case raw_urls of
                   JList xs \<Rightarrow> concat (map (\<lambda>x. case x of JStr p \<Rightarrow> if py_strip p \<noteq> [] then [p] else [] | _ \<Rightarrow> []) xs)
                 | _ \<Rightarrow> []);
           ps = (case single_url of
                   JStr u \<Rightarrow> if py_strip u \<noteq> [] then add_missing ps (py_strip u) else ps
                 | _ \<Rightarrow> ps)
       in Ok (foldl (\<lambda>ps p. add_missing ps (py_strip p)) ps (find_matches match_raw txt))))"

definition visible_text :: "string \<Rightarrow> string" where
  "visible_text txt = py_strip (remove_matches match_raw (remove_matches match_markdown txt))"

section \<open>The client\<close>

text \<open>
  \<open>cl_lock\<close> is the request that holds \<open>_send_lock\<close>: its message id, its future, and whether
  its frame has been written. \<open>cl_done\<close> holds the futures that are done. \<open>cl_fallbacks\<close> are the
  delayed fallbacks that still sleep, \<open>cl_pops\<close> the scheduled removals of agent texts.
\<close>

record sender =
  sd_msg_id :: string
  sd_future :: nat
  sd_frame :: json
  sd_written :: bool

record client =
  cl_connected :: bool
  cl_listening :: bool
  cl_active :: "string option"
  cl_pending :: "nat option"
  cl_pending_msg :: "string option"
  cl_timed_out :: "string option"
  cl_streaming :: bool
  cl_agent_texts :: "(string, string) dict"
  cl_agg :: aggregator
  cl_proactive :: bool
  cl_lock :: "sender option"
  cl_done :: "(nat, (string \<times> string list) result) dict"
  cl_next :: nat
  cl_fallbacks :: "(string \<times> string) list"
  cl_pops :: "string list"

definition new_client :: "settings \<Rightarrow> bool \<Rightarrow> client" where
  "new_client cfg proactive = \<lparr>cl_connected = True, cl_listening = True, cl_active = None, cl_pending = None,
     cl_pending_msg = None, cl_timed_out = None, cl_streaming = False, cl_agent_texts = [],
     cl_agg = new_aggregator (claw_debounce_ms cfg), cl_proactive = proactive, cl_lock = None,
     cl_done = [], cl_next = 0, cl_fallbacks = [], cl_pops = []\<rparr>"

text \<open>What the client does to the outside: frames sent, callbacks called, requests that end.\<close>

datatype client_out =
    Wrote json
  | Stream string
  | Proactive string
  | Returned string "(string \<times> string list) result"

definition pending_open :: "client \<Rightarrow> bool" where
  "pending_open c = (case cl_pending c of None \<Rightarrow> False | Some f \<Rightarrow> \<not> dict_has (cl_done c) f)"

definition resolve :: "client \<Rightarrow> (string \<times> string list) result \<Rightarrow> client" where
  "resolve c r =
     (case cl_pending c of
        Some f \<Rightarrow> if dict_has (cl_done c) f then c else c\<lparr>cl_done := dict_set (cl_done c) f r\<rparr>
      | None \<Rightarrow> c)"

definition SKIP_EVENTS :: "string list" where
  "SKIP_EVENTS = [''health'', ''tick'', ''presence'', ''heartbeat'']"

definition TIMEOUT_TEXT :: string where
  "TIMEOUT_TEXT = ''[Timeout: OpenClaw did not respond within the allotted time]''"

definition agent_text :: "client \<Rightarrow> string \<Rightarrow> string" where
  "agent_text c rid = (case dict_get (cl_agent_texts c) rid of None \<Rightarrow> '''' | Some t \<Rightarrow> t)"

subsection \<open>Frames\<close>

definition handle_res :: "client \<Rightarrow> json \<Rightarrow> client result" where
  "handle_res c parsed =
     bind_result (jget parsed ''ok'') (\<lambda>ok.
       if truthy ok then Ok c
       else bind_result (jget_or parsed ''error'' (JStr ''unknown'')) (\<lambda>err.
         Ok ((resolve c (Ok (''[Error: '' @ py_str err @ '']'', [])))
           \<lparr>cl_active := None, cl_pending := None, cl_pending_msg := None\<rparr>)))"

definition FAILURE_MARK :: string where
  "FAILURE_MARK = [CHR 0x0A, CHR 0x0A, CHR 0xE2, CHR 0x9A, CHR 0xA0, CHR 0xEF, CHR 0xB8, CHR 0x8F] @
     '' **Generation failure:** ''"

definition handle_agent :: "client \<Rightarrow> json \<Rightarrow> (client \<times> client_out list) result" where
  "handle_agent c payload =
     bind_result (get_text payload ''stream'') (\<lambda>stream.
       if stream = ''assistant'' then
         bind_result (jget_or payload ''data'' (JObj [])) (\<lambda>data.
         bind_result (get_text data ''text'') (\<lambda>txt.
         bind_result (get_text payload ''runId'') (\<lambda>run_id.
           if txt \<noteq> [] \<and> run_id \<noteq> [] then
             Ok (c\<lparr>cl_agent_texts := dict_set (cl_agent_texts c) run_id txt\<rparr>,
                 if cl_streaming c \<and> cl_active c \<noteq> None \<and> cl_active c \<noteq> Some ''''
                 then [Stream txt] else [])
           else Ok (c, []))))
       else if stream = ''lifecycle'' then
         bind_result (jget_or payload ''data'' (JObj [])) (\<lambda>data.
         bind_result (get_text data ''phase'') (\<lambda>phase.
         bind_result (get_text payload ''runId'') (\<lambda>run_id.
         bind_result (jget_or data ''error'' (JStr ''Unknown LLM error'')) (\<lambda>error_msg.
           let live = (cl_active c \<noteq> None \<and> cl_active c \<noteq> Some '''');
               existing = agent_text c run_id;
               c1 = (if phase = ''error'' \<and> live then
                       resolve c (Ok (if existing \<noteq> [] then existing @ FAILURE_MARK @ py_str error_msg
                                      else ''[LLM error: '' @ py_str error_msg @ '']'', []))
                     else c);
               c2 = (if phase = ''end'' \<and> run_id \<noteq> [] \<and> live \<and> existing \<noteq> [] \<and> pending_open c1 then
                       c1\<lparr>cl_fallbacks := cl_fallbacks c1 @ [(the (cl_active c1), existing)]\<rparr>
                     else c1)
           in Ok (c2, [])))))
       else Ok (c, []))"

definition handle_chat :: "rat \<Rightarrow> client \<Rightarrow> json \<Rightarrow> string \<Rightarrow> (client \<times> client_out list) result" where
  "handle_chat now c payload state =
     bind_result (extract_text payload) (\<lambda>extracted.
     bind_result (jget_or payload ''seq'' (JInt 0)) (\<lambda>seq_j.
     bind_result (case seq_j of JInt n \<Rightarrow> Ok n | _ \<Rightarrow> Raise PyTypeError) (\<lambda>seq_no.
     bind_result (get_text payload ''runId'') (\<lambda>run_id.
       let live = (cl_active c \<noteq> None \<and> cl_active c \<noteq> Some '''');
           mid = (if live then the (cl_active c) else ''proactive'');
           txt = (if agent_text c run_id \<noteq> [] then agent_text c run_id else extracted);
           outs = (if (state = ''partial'' \<or> state = ''delta'') \<and> cl_streaming c \<and> live \<and> txt \<noteq> []
                   then [Stream txt] else [])
       in bind_result (if state = ''final'' then media_of payload txt else Ok []) (\<lambda>media.
            let m = \<lparr>msg_id = mid, msg_seq = seq_no,
                   msg_text = (if state = ''final'' then visible_text txt else txt),
                   msg_state = state, msg_ts = now, msg_media_paths = media\<rparr>;
                c1 = c\<lparr>cl_agg := add_event now m (cl_agg c)\<rparr>
            in Ok (if state = ''final'' \<and> dict_has (cl_agent_texts c) run_id
                   then c1\<lparr>cl_pops := cl_pops c1 @ [run_id]\<rparr> else c1, outs))))))"

definition handle_cron :: "client \<Rightarrow> json \<Rightarrow> client_out list result" where
  "handle_cron c payload =
     (if \<not> is_obj payload then Raise PyAttributeError
      else bind_result (get_text payload ''action'') (\<lambda>action.
        bind_result (get_text payload ''summary'') (\<lambda>summary.
          if action = ''removed'' \<or> summary = [] then Ok []
          else if cl_proactive c then Ok [Proactive summary] else Ok [])))"

definition dict_or_empty :: "json \<Rightarrow> json" where
  "dict_or_empty j = (if is_obj j then j else JObj [])"

definition dispatch_event ::
    "rat \<Rightarrow> client \<Rightarrow> json \<Rightarrow> json \<Rightarrow> json \<Rightarrow> json \<Rightarrow> string \<Rightarrow> (client \<times> client_out list) result" where
  "dispatch_event now c parsed event msg_type payload state =
     (if event \<in> JStr ` set SKIP_EVENTS then Ok (c, [])
      else if msg_type = JStr ''res'' then bind_result (handle_res c parsed) (\<lambda>c'. Ok (c', []))
      else if event = JStr ''agent'' then handle_agent c (dict_or_empty payload)
      else if event = JStr ''chat'' then handle_chat now c (dict_or_empty payload) state
      else if event = JStr ''cron'' then bind_result (handle_cron c payload) (\<lambda>outs. Ok (c, outs))
      else Ok (c, []))"

definition dispatch :: "rat \<Rightarrow> client \<Rightarrow> json \<Rightarrow> (client \<times> client_out list) result" where
  "dispatch now c parsed =
     bind_result (jget_or parsed ''event'' (JStr '''')) (\<lambda>event.
     bind_result (jget_or parsed ''type'' (JStr '''')) (\<lambda>msg_type.
     bind_result (jget_or parsed ''payload'' (JObj [])) (\<lambda>payload.
     bind_result (get_text (dict_or_empty payload) ''sessionKey'') (\<lambda>session_key.
       if session_key \<noteq> [] \<and> contains session_key '':subagent:'' then Ok (c, [])
       else bind_result (get_text (dict_or_empty payload) ''state'')
         (dispatch_event now c parsed event msg_type payload)))))"

subsection \<open>The aggregator's callback\<close>

definition route_aggregated_message :: "client \<Rightarrow> claw_message \<Rightarrow> client \<times> client_out list" where
  "route_aggregated_message c m =
     (if pending_open c \<and> cl_pending_msg c = Some (msg_id m) \<and> cl_timed_out c \<noteq> cl_pending_msg c
      then (resolve c (Ok (msg_text m, msg_media_paths m)), [])
      else
        (if cl_timed_out c = Some (msg_id m) then c\<lparr>cl_timed_out := None\<rparr> else c,
         if cl_proactive c \<and> msg_text m \<noteq> [] then [Proactive (msg_text m)] else []))"

subsection \<open>Requests\<close>

definition chat_send_frame :: "string \<Rightarrow> string \<Rightarrow> string \<Rightarrow> string \<Rightarrow> json" where
  "chat_send_frame msg_id0 session_key message idem =
     JObj [(''type'', JStr ''req''), (''id'', JStr msg_id0), (''method'', JStr ''chat.send''),
       (''params'', JObj [(''sessionKey'', JStr session_key), (''message'', JStr message),
         (''deliver'', JBool True), (''idempotencyKey'', JStr idem)])]"

text \<open>Taking the lock: a fresh future, the request fields set, the frame ready to be written.\<close>

definition send_start :: "client \<Rightarrow> string \<Rightarrow> string \<Rightarrow> string \<Rightarrow> bool \<Rightarrow> string \<Rightarrow> client" where
  "send_start c mid message session_key stream idem =
     c\<lparr>cl_active := Some mid, cl_pending := Some (cl_next c), cl_pending_msg := Some mid,
       cl_streaming := stream, cl_next := Suc (cl_next c),
       cl_lock := Some \<lparr>sd_msg_id = mid, sd_future = cl_next c,
         sd_frame = chat_send_frame mid session_key message idem, sd_written = False\<rparr>\<rparr>"

text \<open>The \<open>finally\<close> block, and the release of the lock.\<close>

definition send_finally :: "client \<Rightarrow> client" where
  "send_finally c = c\<lparr>cl_active := None, cl_pending := None, cl_pending_msg := None,
     cl_streaming := False, cl_lock := None\<rparr>"

text \<open>The \<open>finally\<close> of \<open>_listen_loop\<close>, and \<open>close\<close>, which cancels the listener if it still runs.\<close>

definition listen_end :: "client \<Rightarrow> client" where
  "listen_end c = resolve (c\<lparr>cl_connected := False, cl_listening := False, cl_agent_texts := []\<rparr>)
     (Raise (OpenClawConnectionError ''WebSocket disconnected mid-request''))"

definition close_client :: "client \<Rightarrow> client" where
  "close_client c =
     (let c1 = c\<lparr>cl_connected := False, cl_agg := cancel_all (cl_agg c), cl_agent_texts := []\<rparr>
      in if cl_listening c1 then listen_end c1 else c1)"

section \<open>Steps\<close>

text \<open>
  \<open>SendStart\<close> may follow an earlier \<open>is_connected\<close> check by any time (the lock may be held by
  another request), so it is allowed in any connection state; \<open>SendFails\<close> is the write raising
  or the calling task being cancelled. A step that is not enabled changes nothing.
\<close>

datatype client_event =
    SendStart string string string bool string
  | SendWritten
  | SendFails exn
  | SendResumes
  | SendTimesOut
  | FrameArrives rat json
  | AggTimer nat rat
  | FallbackFires nat
  | AgentTextPop nat
  | ListenEnds
  | CloseCalled

definition drop_nth :: "nat \<Rightarrow> 'a list \<Rightarrow> 'a list" where
  "drop_nth n xs = take n xs @ drop (Suc n) xs"

definition client_step :: "settings \<Rightarrow> client \<Rightarrow> client_event \<Rightarrow> client \<times> client_out list" where
  "client_step cfg c e =
     (case e of
        SendStart mid message session_key stream idem \<Rightarrow>
          if cl_lock c = None then (send_start c mid message session_key stream idem, []) else (c, [])
      | SendWritten \<Rightarrow>
          (case cl_lock c of
             Some s \<Rightarrow> if sd_written s then (c, [])
               else (c\<lparr>cl_lock := Some (s\<lparr>sd_written := True\<rparr>)\<rparr>, [Wrote (sd_frame s)])
           | None \<Rightarrow> (c, []))
      | SendFails ex \<Rightarrow>
          (case cl_lock c of
             Some s \<Rightarrow> (send_finally c, [Returned (sd_msg_id s) (Inl ex)])
           | None \<Rightarrow> (c, []))
      | SendResumes \<Rightarrow>
          (case cl_lock c of
             Some s \<Rightarrow>
               (case (sd_written s, dict_get (cl_done c) (sd_future s)) of
                  (True, Some r) \<Rightarrow> (send_finally c, [Returned (sd_msg_id s) r])
                | _ \<Rightarrow> (c, []))
           | None \<Rightarrow> (c, []))
      | SendTimesOut \<Rightarrow>
          (case cl_lock c of
             Some s \<Rightarrow>
               if sd_written s \<and> dict_get (cl_done c) (sd_future s) = None
               then (send_finally (c\<lparr>cl_timed_out := Some (sd_msg_id s)\<rparr>),
                     [Returned (sd_msg_id s) (Ok (TIMEOUT_TEXT, []))])
               else (c, [])
           | None \<Rightarrow> (c, []))
      | FrameArrives now parsed \<Rightarrow>
          if \<not> cl_listening c then (c, [])
          else (case dispatch now c parsed of Inl ex \<Rightarrow> (c, []) | Inr r \<Rightarrow> r)
      | AggTimer t now \<Rightarrow>
          (case agg_step cfg (cl_agg c) (Fire t now) of
             (None, g) \<Rightarrow> (c\<lparr>cl_agg := g\<rparr>, [])
           | (Some m, g) \<Rightarrow> route_aggregated_message (c\<lparr>cl_agg := g\<rparr>) m)
      | FallbackFires n \<Rightarrow>
          (if n < length (cl_fallbacks c) then
             let (mid, txt) = cl_fallbacks c ! n;
                 c' = c\<lparr>cl_fallbacks := drop_nth n (cl_fallbacks c)\<rparr>
             in (if pending_open c' \<and> cl_pending_msg c' = Some mid then resolve c' (Ok (txt, [])) else c', [])
           else (c, []))
      | AgentTextPop n \<Rightarrow>
          (if n < length (cl_pops c)
           then (c\<lparr>cl_agent_texts := dict_pop (cl_agent_texts c) (cl_pops c ! n),
                   cl_pops := drop_nth n (cl_pops c)\<rparr>, [])
           else (c, []))
      | ListenEnds \<Rightarrow> (if cl_listening c then listen_end c else c, [])
      | CloseCalled \<Rightarrow> (close_client c, []))"

fun client_run :: "settings \<Rightarrow> client \<Rightarrow> client_event list \<Rightarrow> client \<times> client_out list" where
  "client_run cfg c [] = (c, [])"
| "client_run cfg c (e # es) =
     (case client_step cfg c e of (c', outs) \<Rightarrow>
       (case client_run cfg c' es of (c'', outs') \<Rightarrow> (c'', outs @ outs')))"

lemma bind_OkE: "bind_result r f = Ok y \<Longrightarrow> (\<And>x. r = Ok x \<Longrightarrow> f x = Ok y \<Longrightarrow> Q) \<Longrightarrow> Q"
  by (cases r) simp_all

lemma if_OkE: "(if b then x else y) = Ok z \<Longrightarrow> (b \<Longrightarrow> x = Ok z \<Longrightarrow> Q) \<Longrightarrow> (\<not> b \<Longrightarrow> y = Ok z \<Longrightarrow> Q) \<Longrightarrow> Q"
  by (cases b) simp_all

section \<open>The invariant\<close>

text \<open>
  Without a request no request field is set; a request in flight owns the pending future, or
  its future is done already (a rejection clears the fields). Futures are numbered.
\<close>

definition request_ok :: "client \<Rightarrow> bool" where
  "request_ok c \<longleftrightarrow>
     (case cl_lock c of
        None \<Rightarrow> cl_active c = None \<and> cl_pending c = None \<and> cl_pending_msg c = None \<and> \<not> cl_streaming c
      | Some s \<Rightarrow> sd_future s < cl_next c \<and>
          (cl_active c = Some (sd_msg_id s) \<and> cl_pending c = Some (sd_future s) \<and>
             cl_pending_msg c = Some (sd_msg_id s) \<or>
           cl_active c = None \<and> cl_pending c = None \<and> cl_pending_msg c = None \<and>
             dict_get (cl_done c) (sd_future s) \<noteq> None))"

definition client_ok :: "client \<Rightarrow> bool" where
  "client_ok c \<longleftrightarrow> request_ok c \<and> agg_ok (cl_agg c) \<and> on_final_set (cl_agg c) \<and>
     (\<forall>f r. dict_get (cl_done c) f = Some r \<longrightarrow> f < cl_next c)"

lemma resolve_fields [simp]:
  "cl_lock (resolve c r) = cl_lock c" "cl_active (resolve c r) = cl_active c"
  "cl_pending (resolve c r) = cl_pending c" "cl_pending_msg (resolve c r) = cl_pending_msg c"
  "cl_streaming (resolve c r) = cl_streaming c" "cl_agg (resolve c r) = cl_agg c"
  "cl_next (resolve c r) = cl_next c" "cl_proactive (resolve c r) = cl_proactive c"
  "cl_timed_out (resolve c r) = cl_timed_out c" "cl_listening (resolve c r) = cl_listening c"
  by (simp_all add: resolve_def split: option.splits)

lemma resolve_done:
  "dict_get (cl_done (resolve c r)) f =
     (if cl_pending c = Some f \<and> dict_get (cl_done c) f = None then Some r else dict_get (cl_done c) f)"
  by (auto simp: resolve_def dict_has_get split: option.splits)

text \<open>A future is set at most once: a later resolution keeps the first result.\<close>

lemma resolve_keeps: "dict_get (cl_done c) f = Some r \<Longrightarrow> dict_get (cl_done (resolve c r')) f = Some r"
  by (simp add: resolve_done)

lemma request_okD:
  assumes "client_ok c" "cl_pending c = Some f"
  obtains s where "cl_lock c = Some s" "sd_future s = f" "f < cl_next c" "cl_pending_msg c = Some (sd_msg_id s)"
  using assms by (auto simp: client_ok_def request_ok_def split: option.splits)

lemma client_ok_resolve: "client_ok c \<Longrightarrow> client_ok (resolve c r)"
proof -
  assume ok: "client_ok c"
  have "f < cl_next c" if "cl_pending c = Some f" for f
    using request_okD [OF ok that] by blast
  with ok show ?thesis
    by (auto simp: client_ok_def request_ok_def resolve_done split: option.splits if_splits)
qed

text \<open>Steps that change none of the request fields keep the request part.\<close>

lemma client_ok_frame:
  assumes "client_ok c" "cl_lock c' = cl_lock c" "cl_active c' = cl_active c" "cl_pending c' = cl_pending c"
    "cl_pending_msg c' = cl_pending_msg c" "cl_streaming c' = cl_streaming c" "cl_done c' = cl_done c"
    "cl_next c' = cl_next c" "agg_ok (cl_agg c')" "on_final_set (cl_agg c')"
  shows "client_ok c'"
  using assms by (cases "cl_lock c") (simp_all add: client_ok_def request_ok_def)

lemma client_ok_agg: "client_ok c \<Longrightarrow> agg_ok (cl_agg c)" "client_ok c \<Longrightarrow> on_final_set (cl_agg c)"
  by (simp_all add: client_ok_def)

lemma client_ok_updates [simp, intro]:
  assumes "client_ok c"
  shows "client_ok (c\<lparr>cl_fallbacks := x\<rparr>)" "client_ok (c\<lparr>cl_agent_texts := y\<rparr>)"
    "client_ok (c\<lparr>cl_timed_out := z\<rparr>)" "client_ok (c\<lparr>cl_agent_texts := y, cl_pops := w\<rparr>)"
    "client_ok (c\<lparr>cl_connected := b, cl_listening := d, cl_agent_texts := y\<rparr>)"
    "agg_ok g \<Longrightarrow> on_final_set g \<Longrightarrow> client_ok (c\<lparr>cl_agg := g\<rparr>)"
    "agg_ok g \<Longrightarrow> on_final_set g \<Longrightarrow> client_ok (c\<lparr>cl_agg := g, cl_pops := w\<rparr>)"
    "agg_ok g \<Longrightarrow> on_final_set g \<Longrightarrow> client_ok (c\<lparr>cl_connected := b, cl_agg := g, cl_agent_texts := y\<rparr>)"
  by (rule client_ok_frame [OF assms]; simp add: client_ok_agg [OF assms])+

lemma client_ok_res:
  assumes "client_ok c" "handle_res c parsed = Ok c'"
  shows "client_ok c'"
proof -
  consider "c' = c" | err where "c' = (resolve c err)\<lparr>cl_active := None, cl_pending := None, cl_pending_msg := None\<rparr>"
    using assms(2) by (auto simp: handle_res_def bind_result_Ok_iff split: if_splits)
  then show ?thesis
  proof cases
    case (2 err)
    have "dict_get (cl_done (resolve c err)) (sd_future s) \<noteq> None" if "cl_lock c = Some s" for s
      using assms(1) that by (auto simp: client_ok_def request_ok_def resolve_done)
    with client_ok_resolve [OF assms(1), of err] show ?thesis
      by (auto simp: 2 client_ok_def request_ok_def split: option.splits)
  qed (use assms(1) in simp)
qed

lemma client_ok_agent:
  assumes "client_ok c" "handle_agent c payload = Ok (c', outs)"
  shows "client_ok c'"
proof -
  have r: "client_ok (if b then resolve c r else c)" for b r
    using client_ok_resolve assms(1) by simp
  have "(\<exists>x. c' = c\<lparr>cl_agent_texts := x\<rparr>) \<or> c' = c \<or>
      (\<exists>b r f. c' = (if b then resolve c r else c) \<or> c' = (if b then resolve c r else c)\<lparr>cl_fallbacks := f\<rparr>)"
    using assms(2) by (auto simp: handle_agent_def bind_result_Ok_iff Let_def split: if_split_asm)
  then show ?thesis using r assms(1) by auto
qed

lemma add_event_on_final [simp]: "on_final_set (add_event now m g) = on_final_set g"
  by (auto simp: add_event_def Let_def split: option.splits)

lemma client_ok_chat:
  assumes "client_ok c" "handle_chat now c payload state = Ok (c', outs)"
  shows "client_ok c'"
proof -
  obtain m where "c' = c\<lparr>cl_agg := add_event now m (cl_agg c)\<rparr> \<or>
      (\<exists>p. c' = c\<lparr>cl_agg := add_event now m (cl_agg c), cl_pops := p\<rparr>)"
    using assms(2) by (auto simp: handle_chat_def bind_result_Ok_iff Let_def split: if_splits)
  with assms(1) show ?thesis
    by (auto simp: agg_ok_add client_ok_agg)
qed

text \<open>What a frame can lead to.\<close>

lemma dispatch_cases:
  assumes "dispatch now c parsed = Ok (c', outs)"
  shows "c' = c \<and> (outs = [] \<or> (\<exists>s. outs = [Proactive s] \<and> cl_proactive c)) \<or>
    handle_res c parsed = Ok c' \<and> outs = [] \<or>
    (\<exists>p. handle_agent c p = Ok (c', outs)) \<or> (\<exists>p s. handle_chat now c p s = Ok (c', outs))"
proof -
  have cron: "outs = [] \<or> (\<exists>s. outs = [Proactive s] \<and> cl_proactive c)" if "handle_cron c p = Ok outs" for p outs
    using that by (auto simp: handle_cron_def bind_result_Ok_iff split: if_split_asm)
  have event: ?thesis if "dispatch_event now c parsed ev ty pl st = Ok (c', outs)" for ev ty pl st
  proof (cases "ev \<in> JStr ` set SKIP_EVENTS")
    case True
    with that show ?thesis by (simp only: dispatch_event_def if_True sum.inject prod.inject) blast
  next
    case a: False
    note d = that [unfolded dispatch_event_def if_not_P [OF a]]
    show ?thesis
    proof (cases "ty = JStr ''res''")
      case True
      note d = d [unfolded if_P [OF True]]
      then show ?thesis by (simp only: bind_result_Ok_iff sum.inject prod.inject) blast
    next
      case b: False
      note d = d [unfolded if_not_P [OF b]]
      show ?thesis
        using d cron [of pl outs]
        by (simp only: bind_result_Ok_iff sum.inject prod.inject split: if_split_asm) blast+
    qed
  qed
  from assms obtain ev ty pl sk where
    "(if sk \<noteq> [] \<and> contains sk '':subagent:'' then Ok (c, [])
       else bind_result (get_text (dict_or_empty pl) ''state'') (dispatch_event now c parsed ev ty pl))
      = Ok (c', outs)"
    unfolding dispatch_def bind_result_Ok_iff [of "jget_or _ _ _"] bind_result_Ok_iff [of "get_text _ ''sessionKey''"]
    by blast
  then consider "(c, []) = (c', outs)" | st where "dispatch_event now c parsed ev ty pl st = Ok (c', outs)"
    by (simp only: bind_result_Ok_iff sum.inject split: if_split_asm) blast+
  then show ?thesis by cases (blast, erule event)
qed

lemma client_ok_dispatch:
  assumes "client_ok c" "dispatch now c parsed = Ok (c', outs)"
  shows "client_ok c'"
  using dispatch_cases [OF assms(2)]
proof (elim disjE conjE exE)
qed (simp_all add: assms(1) client_ok_res [OF assms(1)] client_ok_agent [OF assms(1)] client_ok_chat [OF assms(1)])

lemma client_ok_finally: "client_ok c \<Longrightarrow> client_ok (send_finally c)"
  by (simp add: client_ok_def request_ok_def send_finally_def)

lemma cancel_all_on_final [simp]: "on_final_set (cancel_all g) = on_final_set g"
  by (simp add: cancel_all_def)

lemma client_ok_listen_end: "client_ok c \<Longrightarrow> client_ok (listen_end c)"
  unfolding listen_end_def by (intro client_ok_resolve client_ok_updates)

lemma client_ok_route:
  assumes "client_ok c"
  shows "client_ok (fst (route_aggregated_message c m))"
  using assms client_ok_resolve by (simp add: route_aggregated_message_def)

lemma client_step_ok:
  assumes "client_ok c"
  shows "client_ok (fst (client_step cfg c e))"
proof (cases e)
  case (SendStart mid message session_key stream idem)
  with assms show ?thesis
    by (fastforce simp: client_step_def send_start_def client_ok_def request_ok_def)
next
  case SendWritten
  with assms show ?thesis
    by (auto simp: client_step_def client_ok_def request_ok_def split: option.splits)
next
  case (FrameArrives now parsed)
  with assms client_ok_dispatch show ?thesis
    by (auto simp: client_step_def split: sum.splits)
next
  case (AggTimer t now)
  obtain out g where s: "agg_step cfg (cl_agg c) (Fire t now) = (out, g)" by fastforce
  have "agg_ok g" "on_final_set g"
    using agg_ok_step [of "cl_agg c" cfg "Fire t now"] on_final_kept [of cfg "cl_agg c" "Fire t now"] assms s
    by (auto simp: client_ok_def)
  then have "client_ok (c\<lparr>cl_agg := g\<rparr>)" using assms by simp
  then show ?thesis using client_ok_route by (cases out) (simp_all add: AggTimer client_step_def s)
next
  case (FallbackFires n)
  show ?thesis
    using assms client_ok_resolve by (simp add: FallbackFires client_step_def Let_def split_beta)
next
  case CloseCalled
  have "client_ok (c\<lparr>cl_connected := False, cl_agg := cancel_all (cl_agg c), cl_agent_texts := []\<rparr>)"
    using assms agg_ok_cancel [of "cl_agg c"] by (simp add: client_ok_agg)
  then show ?thesis using client_ok_listen_end by (simp add: CloseCalled client_step_def close_client_def Let_def)
next
  case SendTimesOut
  then show ?thesis using assms client_ok_finally by (auto simp: client_step_def split: option.splits)
qed (use assms client_ok_finally client_ok_listen_end in
    \<open>auto simp: client_step_def split: option.splits prod.splits bool.splits\<close>)

interpretation client_machine: event_machine "\<lambda>c e. fst (client_step cfg c e)" client_ok for cfg
  by unfold_locales (rule client_step_ok)

lemma client_ok_new: "client_ok (new_client cfg p)"
  using agg_ok_new by (simp add: new_client_def client_ok_def request_ok_def) (simp add: new_aggregator_def)

lemma client_run_fst: "fst (client_run cfg c es) = foldl (\<lambda>c e. fst (client_step cfg c e)) c es"
  by (induction es arbitrary: c) (auto split: prod.splits, metis fst_conv)

lemma client_run_ok: "client_ok (fst (client_run cfg (new_client cfg p) es))"
  unfolding client_run_fst by (rule client_machine.run_inv [OF client_ok_new])

section \<open>No container path is shown\<close>

definition container_prefix :: string where
  "container_prefix = ''/home/node/.openclaw/''"

lemma match_raw_path:
  assumes "\<not> path_end c"
  shows "\<exists>k. match_raw (container_prefix @ c # t) = Some k"
proof -
  have d: "drop 11 (container_prefix @ c # t) = CHR ''.'' # ''openclaw/'' @ c # t"
    by (simp add: container_prefix_def)
  have "startswith (container_prefix @ c # t) ''/home/node/''"
    by (simp add: startswith_iff container_prefix_def)
  moreover have u: "utf8_len (CHR ''.'') = 1" by code_simp
  moreover have "startswith (drop 1 (CHR ''.'' # ''openclaw/'' @ c # t)) ''openclaw/''"
    by (simp add: startswith_iff)
  ultimately have "match_prefix (container_prefix @ c # t) = Some 21"
    by (simp only: match_prefix_def d list.case if_True option.inject char.inject) simp
  moreover have "drop 21 (container_prefix @ c # t) = c # t" by (simp add: container_prefix_def)
  ultimately show ?thesis using assms by (simp add: match_raw_def)
qed

lemma match_prefix_slash: "match_prefix s = Some n \<Longrightarrow> \<exists>r. s = CHR ''/'' # r"
  by (auto simp: match_prefix_def startswith_iff split: if_splits)

lemma match_raw_rest:
  assumes "match_raw s = Some k"
  shows "0 < k" "\<exists>r. s = CHR ''/'' # r" "drop k s = [] \<or> path_end (hd (drop k s))"
proof -
  let ?P = "\<lambda>c. \<not> path_end c"
  obtain n where n: "match_prefix s = Some n" "k = n + length (takeWhile ?P (drop n s))"
      "takeWhile ?P (drop n s) \<noteq> []"
    using assms by (auto simp: match_raw_def Let_def split: option.splits if_splits)
  show "0 < k" using n(2,3) by simp
  show "\<exists>r. s = CHR ''/'' # r" by (rule match_prefix_slash [OF n(1)])
  have "drop k s = dropWhile ?P (drop n s)"
    by (simp add: n(2) dropWhile_eq_drop add.commute)
  then show "drop k s = [] \<or> path_end (hd (drop k s))" using hd_dropWhile by metis
qed

lemma path_end_slash [simp]: "\<not> path_end (CHR ''/'')"
  by code_simp

text \<open>A piece without terminators in the result was there before: removal joins nothing.\<close>

lemma sub_raw_prefix:
  assumes "\<forall>x\<in>set u. \<not> path_end x" "length s \<le> n" "prefix u (sub_fuel n match_raw s)"
  shows "prefix u s"
  using assms
proof (induction n match_raw s arbitrary: u rule: sub_fuel.induct)
  case (3 n c s)
  show ?case
  proof (cases "match_raw (c # s)")
    case None
    with 3 show ?thesis by (cases u) auto
  next
    case (Some k)
    note k = match_raw_rest [OF Some]
    have p: "prefix u (sub_fuel n match_raw (drop k (c # s)))" using "3.prems"(3) Some k(1) by simp
    show ?thesis
    proof (cases "drop k (c # s)")
      case Nil
      with p show ?thesis by simp
    next
      case (Cons h r)
      then have h: "path_end h" using k(3) by simp
      then have "match_raw (h # r) = None"
        using match_raw_rest(2) [of "h # r"] by (cases "match_raw (h # r)") auto
      then have "\<exists>w. sub_fuel n match_raw (h # r) = h # w" by (cases n) auto
      with p h "3.prems"(1) show ?thesis by (cases u) (auto simp: Cons)
    qed
  qed
qed simp_all

lemma sub_raw_no_path:
  assumes "\<not> path_end x" "length s \<le> n"
  shows "\<not> sublist (container_prefix @ [x]) (sub_fuel n match_raw s)"
  using assms(2)
proof (induction n match_raw s rule: sub_fuel.induct)
  case (3 n c s)
  show ?case
  proof (cases "match_raw (c # s)")
    case None
    have free: "\<forall>y\<in>set (container_prefix @ [x]). \<not> path_end y"
    proof -
      have "list_all (\<lambda>y. \<not> path_end y) container_prefix" by code_simp
      with assms(1) show ?thesis by (auto simp: list_all_iff)
    qed
    have "\<not> prefix (container_prefix @ [x]) (c # sub_fuel n match_raw s)"
    proof
      assume "prefix (container_prefix @ [x]) (c # sub_fuel n match_raw s)"
      then have "prefix (container_prefix @ [x]) (c # s)"
        using sub_raw_prefix [OF free, of "c # s" "Suc n"] "3.prems" None by simp
      then obtain t where "c # s = container_prefix @ x # t" by (auto simp: prefix_def)
      with match_raw_path [OF assms(1), of t] None show False by simp
    qed
    with None "3.hyps" "3.prems" show ?thesis by (simp add: sublist_Cons_right)
  next
    case (Some k)
    note k = match_raw_rest(1) [OF Some]
    then have "length (drop k (c # s)) \<le> n" using "3.prems" by simp
    with Some k "3.hyps" show ?thesis by simp
  qed
qed (simp_all add: container_prefix_def)

lemma py_strip_sublist: "sublist (py_strip s) s"
  unfolding py_strip_def by (rule strip_by_split [of s is_ws]) (metis sublist_def)

lemma stream_source:
  assumes "client_step cfg c e = (c', outs)" "Stream t \<in> set outs"
  shows "cl_streaming c"
proof -
  have route: "Stream t \<notin> set (snd (route_aggregated_message d m))" for d m
    by (simp add: route_aggregated_message_def)
  have agent: "cl_streaming c" if "handle_agent c p = Ok (d, outs)" for p d
    using that assms(2) unfolding handle_agent_def Let_def
    by (elim bind_OkE if_OkE) (cases "cl_streaming c"; simp)+
  have chat: "cl_streaming c" if "handle_chat now c p s = Ok (d, outs)" for now p s d
    using that assms(2) unfolding handle_chat_def bind_result_Ok_iff Let_def
    by (elim exE conjE) (cases "cl_streaming c"; simp)
  show ?thesis
  proof (cases e)
    case (FrameArrives now parsed)
    with assms obtain d where "dispatch now c parsed = Ok (d, outs)"
      by (auto simp: client_step_def split: sum.splits if_splits)
    from dispatch_cases [OF this] assms(2) agent chat show ?thesis by fastforce
  next
    case (AggTimer t' now)
    with assms route show ?thesis
      by (auto simp: client_step_def split: prod.splits option.splits) (metis snd_conv)
  qed (use assms in \<open>auto simp: client_step_def Let_def split: option.splits if_splits prod.splits bool.splits\<close>)
qed

text \<open>Once done, a future keeps its result.\<close>

lemma done_kept_step:
  assumes "dict_get (cl_done c) f = Some r"
  shows "dict_get (cl_done (fst (client_step cfg c e))) f = Some r"
proof -
  have res: "dict_get (cl_done (resolve d x)) f = Some r" if "cl_done d = cl_done c" for d x
    using that assms by (simp add: resolve_done)
  have agent: "dict_get (cl_done d) f = Some r" if "handle_agent c p = Ok (d, outs)" for p d outs
    using that assms res unfolding handle_agent_def Let_def
    by (elim bind_OkE if_OkE) auto
  have chat: "dict_get (cl_done d) f = Some r" if "handle_chat now c p s = Ok (d, outs)" for now p s d outs
    using that assms unfolding handle_chat_def Let_def
    by (elim bind_OkE if_OkE) auto
  have hres: "dict_get (cl_done d) f = Some r" if "handle_res c p = Ok d" for p d
    using that assms res unfolding handle_res_def by (elim bind_OkE if_OkE) auto
  show ?thesis
  proof (cases e)
    case (FrameArrives now parsed)
    have "dict_get (cl_done d) f = Some r" if "dispatch now c parsed = Ok (d, outs)" for d outs
      using dispatch_cases [OF that] assms agent chat hres by blast
    then show ?thesis using assms by (auto simp: FrameArrives client_step_def split: sum.splits)
  next
    case (AggTimer t now)
    then show ?thesis
      using assms res by (simp add: client_step_def route_aggregated_message_def split: prod.split option.split)
  next
    case CloseCalled
    then show ?thesis
      using assms res by (simp add: client_step_def close_client_def listen_end_def Let_def)
  qed (use assms res in \<open>simp_all add: client_step_def send_start_def send_finally_def listen_end_def Let_def
      split: option.split prod.split bool.split\<close>)
qed

lemma done_kept:
  "dict_get (cl_done c) f = Some r \<Longrightarrow> dict_get (cl_done (fst (client_run cfg c es))) f = Some r"
  unfolding client_run_fst by (induction es arbitrary: c) (simp_all add: done_kept_step)

section \<open>Properties\<close>

text \<open>
  Property C19. No internal path reaches the chat: whatever the agent writes, the text of a final
  after \<open>_dispatch\<close>'s substitutions contains no \<open>/home/node/.openclaw/\<close> path (the prefix
  followed by a character that can belong to a path).
\<close>

theorem visible_text_has_no_container_path:
  "\<not> path_end x \<Longrightarrow> \<not> contains (visible_text txt) (container_prefix @ [x])"
  unfolding contains_def visible_text_def
  using sub_raw_no_path [of x "remove_matches match_markdown txt" "length (remove_matches match_markdown txt)"]
    py_strip_sublist [of "remove_matches match_raw (remove_matches match_markdown txt)"]
  unfolding remove_matches_def [of match_raw] by (metis sublist_order.order_trans order_refl)

theorem visible_text_has_no_container_path_witness:
  "visible_text ''See [x](/home/node/.openclaw/out/x.pdf) or /home/node/.open/home/node/.openclaw/a claw/b'' =
     ''See  or /home/node/.open claw/b'' \<and>
   \<not> contains (visible_text ''See [x](/home/node/.openclaw/out/x.pdf)'') (container_prefix @ ''o'')"
proof -
  have "visible_text ''See [x](/home/node/.openclaw/out/x.pdf) or /home/node/.open/home/node/.openclaw/a claw/b'' =
     ''See  or /home/node/.open claw/b''" by code_simp
  moreover have "\<not> path_end (CHR ''o'')" by code_simp
  ultimately show ?thesis using visible_text_has_no_container_path by blast
qed

text \<open>
  Property C14. A dropped connection never leaves a request hanging: in every reachable client, if
  the listener ends while a written request is in flight, the request returns at its next step
  (with the result it already had, or with \<open>OpenClawConnectionError\<close>, which makes the caller
  reconnect), and the lock is free for the next request.
\<close>

theorem disconnect_unblocks_request:
  assumes "c = fst (client_run cfg (new_client cfg p) es)"
    and "cl_lock c = Some s" "sd_written s" "cl_listening c"
  shows "\<exists>r. client_run cfg c [ListenEnds, SendResumes] =
      (fst (client_run cfg c [ListenEnds, SendResumes]), [Returned (sd_msg_id s) r]) \<and>
    cl_lock (fst (client_run cfg c [ListenEnds, SendResumes])) = None \<and>
    (case dict_get (cl_done c) (sd_future s) of
       Some r0 \<Rightarrow> r = r0
     | None \<Rightarrow> r = Raise (OpenClawConnectionError ''WebSocket disconnected mid-request''))"
proof -
  let ?e = "Raise (OpenClawConnectionError ''WebSocket disconnected mid-request'') :: (string \<times> string list) result"
  let ?c1 = "listen_end c"
  have ok: "client_ok c" unfolding assms(1) by (rule client_run_ok)
  have l: "cl_lock ?c1 = Some s" by (simp add: listen_end_def assms(2))
  define r where "r = (case dict_get (cl_done c) (sd_future s) of Some r0 \<Rightarrow> r0 | None \<Rightarrow> ?e)"
  have "dict_get (cl_done ?c1) (sd_future s) = Some r"
    using ok assms(2)
    by (auto simp: listen_end_def resolve_done r_def client_ok_def request_ok_def split: option.splits)
  then have "client_run cfg c [ListenEnds, SendResumes] = (send_finally ?c1, [Returned (sd_msg_id s) r])"
    using assms(3,4) l by (simp add: client_step_def)
  then show ?thesis by (intro exI [of _ r]) (simp add: send_finally_def r_def split: option.splits)
qed

definition busy_events :: "client_event list" where
  "busy_events = [SendStart ''m1'' ''hello'' ''agent:main:main'' True ''k1'', SendWritten]"

theorem disconnect_unblocks_request_witness:
  "\<exists>r. snd (client_run default_settings (fst (client_run default_settings (new_client default_settings True) busy_events))
     [ListenEnds, SendResumes]) = [Returned ''m1'' r]"
proof -
  let ?c = "fst (client_run default_settings (new_client default_settings True) busy_events)"
  let ?s = "\<lparr>sd_msg_id = ''m1'', sd_future = 0, sd_frame = chat_send_frame ''m1'' ''agent:main:main'' ''hello'' ''k1'',
     sd_written = True\<rparr>"
  have l: "cl_lock ?c = Some ?s" "cl_listening ?c" by (atomize (full), code_simp)
  have w: "sd_written ?s" "sd_msg_id ?s = ''m1''" by simp_all
  from disconnect_unblocks_request [OF refl l(1) w(1) l(2)] show ?thesis
    unfolding w(2) by (elim exE conjE) (rule exI, erule arg_cong [where f = snd, THEN trans], rule snd_conv)
qed


definition answer_frame :: "string \<Rightarrow> int \<Rightarrow> string \<Rightarrow> json" where
  "answer_frame run_id n txt = JObj [(''event'', JStr ''chat''), (''payload'', JObj
     [(''state'', JStr ''final''), (''runId'', JStr run_id), (''seq'', JInt n), (''text'', JStr txt)])]"


text \<open>
  Streaming belongs to a request: in every reachable client a streaming callback is
  invoked only while a request is in flight that passed one; nothing is streamed into an
  answer that has already been returned.
\<close>

theorem streaming_only_in_flight:
  assumes "client_step cfg (fst (client_run cfg (new_client cfg p) es)) e = (c', outs)" "Stream t \<in> set outs"
  shows "\<exists>s. cl_lock (fst (client_run cfg (new_client cfg p) es)) = Some s"
  using stream_source [OF assms] client_run_ok [of cfg p es]
  by (auto simp: client_ok_def request_ok_def split: option.splits)

definition delta_frame :: "string \<Rightarrow> json" where
  "delta_frame txt = JObj [(''event'', JStr ''chat''), (''payload'', JObj
     [(''state'', JStr ''delta''), (''text'', JStr txt)])]"

theorem streaming_only_in_flight_witness:
  "\<exists>s. cl_lock (fst (client_run default_settings (new_client default_settings True) busy_events)) = Some s"
proof -
  let ?st = "client_step default_settings
      (fst (client_run default_settings (new_client default_settings True) busy_events))
      (FrameArrives 1 (delta_frame ''Work''))"
  have "snd ?st = [Stream ''Work'']" by code_simp
  then have "Stream ''Work'' \<in> set (snd ?st)" by simp
  from streaming_only_in_flight [OF prod.collapse [symmetric] this] show ?thesis .
qed

text \<open>
  The first result of a request is final: once its future is done, no later event
  (a second answer, a fallback, a disconnect, further requests) changes it, and it is what the
  request returns.
\<close>

theorem first_result_is_final:
  assumes "client_ok c" "cl_lock c = Some s" "dict_get (cl_done c) (sd_future s) = Some r"
  shows "dict_get (cl_done (fst (client_run cfg c es))) (sd_future s) = Some r \<and>
    (sd_written s \<longrightarrow> snd (client_step cfg c SendResumes) = [Returned (sd_msg_id s) r])"
  using done_kept [OF assms(3)] assms(2,3) by (simp add: client_step_def)

theorem first_result_is_final_witness:
  "dict_get (cl_done (fst (client_run default_settings
      (fst (client_run default_settings (new_client default_settings True) (busy_events @ [ListenEnds])))
      [FallbackFires 0, CloseCalled, SendResumes, SendStart ''m2'' ''hi'' ''s'' False ''k2'']))) 0 =
   Some (Raise (OpenClawConnectionError ''WebSocket disconnected mid-request''))"
proof -
  let ?c = "fst (client_run default_settings (new_client default_settings True) (busy_events @ [ListenEnds]))"
  let ?s = "\<lparr>sd_msg_id = ''m1'', sd_future = 0, sd_frame = chat_send_frame ''m1'' ''agent:main:main'' ''hello'' ''k1'',
     sd_written = True\<rparr>"
  have l: "cl_lock ?c = Some ?s" by code_simp
  have f: "sd_future ?s = 0" by simp
  have d: "dict_get (cl_done ?c) (sd_future ?s) =
      Some (Raise (OpenClawConnectionError ''WebSocket disconnected mid-request''))" by code_simp
  note first_result_is_final [OF client_run_ok l d, of default_settings
      "[FallbackFires 0, CloseCalled, SendResumes, SendStart ''m2'' ''hi'' ''s'' False ''k2'']"]
  then show ?thesis unfolding f by (rule conjunct1)
qed

text \<open>
  Run ids are not checked: while a request is in flight, any \<open>chat.final\<close> that
  arrives is taken as its answer, whatever run it belongs to. So the late answer to a request
  that timed out, arriving after the next request was sent, resolves that next request.
\<close>

theorem any_final_resolves_the_active_request:
  assumes "client_ok c" "cl_listening c" "cl_lock c = Some s" "cl_pending c \<noteq> None" "sd_msg_id s \<noteq> []"
    and "dict_get (cl_done c) (sd_future s) = None" "cl_timed_out c \<noteq> Some (sd_msg_id s)"
    and "dict_get (buffers (cl_agg c)) (sd_msg_id s) = None" "agent_text c rid = []"
    and "visible_text txt \<noteq> []"
  shows "\<exists>ps. dict_get (cl_done (fst (client_run cfg c
      [FrameArrives now (answer_frame rid n txt),
       AggTimer (next_task (cl_agg c)) (now + debounce (cl_agg c))]))) (sd_future s) = Some (Ok (visible_text txt, ps))"
proof -
  let ?pl = "JObj [(''state'', JStr ''final''), (''runId'', JStr rid), (''seq'', JInt n), (''text'', JStr txt)]"
  have req: "cl_active c = Some (sd_msg_id s)" "cl_pending c = Some (sd_future s)"
      "cl_pending_msg c = Some (sd_msg_id s)"
    using assms(1,3,4) by (auto simp: client_ok_def request_ok_def)
  have x: "extract_text ?pl = Ok txt"
    by (simp add: extract_text_def get_text_def dict_get_def)
  obtain ps where ps: "media_of ?pl txt = Ok ps" by (simp add: media_of_def dict_get_def Let_def)
  define m where "m = \<lparr>msg_id = sd_msg_id s, msg_seq = n, msg_text = visible_text txt,
      msg_state = ''final'', msg_ts = now, msg_media_paths = ps\<rparr>"
  obtain c1 where c1: "handle_chat now c ?pl ''final'' = Ok (c1, [])"
      "cl_agg c1 = add_event now m (cl_agg c)" "cl_done c1 = cl_done c" "cl_pending c1 = cl_pending c"
      "cl_pending_msg c1 = cl_pending_msg c" "cl_timed_out c1 = cl_timed_out c"
  proof (rule that)
    let ?c1 = "if dict_has (cl_agent_texts c) rid
        then c\<lparr>cl_agg := add_event now m (cl_agg c), cl_pops := cl_pops c @ [rid]\<rparr>
        else c\<lparr>cl_agg := add_event now m (cl_agg c)\<rparr>"
    show "handle_chat now c ?pl ''final'' = Ok (?c1, [])"
      using x ps assms(5,9) req(1)
      by (simp add: handle_chat_def get_text_def dict_get_def m_def Let_def)
  qed simp_all
  have disp: "dispatch now c (answer_frame rid n txt) = Ok (c1, [])"
    using c1(1) by (simp add: dispatch_def dispatch_event_def answer_frame_def get_text_def
        dict_get_def dict_or_empty_def SKIP_EVENTS_def image_iff)
  note ok = client_ok_agg [OF assms(1)]
  have fin: "msg_state m = ''final''" "msg_id m = sd_msg_id s" by (simp_all add: m_def)
  note parts = add_event_parts [OF ok(1) fin(1), of now]
  let ?g = "add_event now m (cl_agg c)"
  let ?t = "next_task (cl_agg c)" and ?w = "now + debounce (cl_agg c)"
  have tm: "dict_get (timers ?g) ?t = Some (sd_msg_id s, ?w)" by (simp add: parts fin)
  have wt: "waiting ?g (sd_msg_id s) = [m]"
    using assms(8) by (simp add: waiting_def parts fin)
  have "py_strip (visible_text txt) = visible_text txt" by (simp add: visible_text_def)
  then have "select_best cfg [m] = Some m"
    using assms(10) by (simp add: select_best_def m_def)
  then have emit: "fst (agg_step cfg ?g (Fire ?t ?w)) = Some m"
    using abs_finalize(2) [OF agg_ok_add [OF ok(1)] tm, of cfg] ok(2) tm wt
    by (simp add: agg_step_def)
  then obtain g where g: "agg_step cfg ?g (Fire ?t ?w) = (Some m, g)" by (metis prod.collapse)
  have "fst (client_run cfg c [FrameArrives now (answer_frame rid n txt), AggTimer ?t ?w]) =
      fst (route_aggregated_message (c1\<lparr>cl_agg := g\<rparr>) m)"
    using disp assms(2) c1(2) g by (simp add: client_step_def split_beta)
  moreover have "pending_open (c1\<lparr>cl_agg := g\<rparr>)"
    using c1(3,4) req(2) assms(6) by (simp add: pending_open_def dict_has_get)
  then have "fst (route_aggregated_message (c1\<lparr>cl_agg := g\<rparr>) m) =
      resolve (c1\<lparr>cl_agg := g\<rparr>) (Ok (visible_text txt, ps))"
    using c1(5,6) req(3) assms(7) by (simp add: route_aggregated_message_def m_def)
  ultimately show ?thesis
    using c1(3,4) req(2) assms(6) by (auto simp: resolve_done)
qed

definition timed_out_then_busy :: "client_event list" where
  "timed_out_then_busy = [SendStart ''m1'' ''first question'' ''s'' False ''k1'', SendWritten, SendTimesOut,
     SendStart ''m2'' ''second question'' ''s'' False ''k2'', SendWritten]"

theorem any_final_resolves_the_active_request_witness:
  "\<exists>ps. dict_get (cl_done (fst (client_run default_settings
      (fst (client_run default_settings (new_client default_settings True) timed_out_then_busy))
      [FrameArrives 9 (answer_frame ''run-of-m1'' 5 ''Answer to the first question''), AggTimer 0 (9 + 15/100)]))) 1 =
    Some (Ok (''Answer to the first question'', ps))"
proof -
  define c where "c = fst (client_run default_settings (new_client default_settings True) timed_out_then_busy)"
  let ?s = "\<lparr>sd_msg_id = ''m2'', sd_future = 1, sd_frame = chat_send_frame ''m2'' ''s'' ''second question'' ''k2'',
     sd_written = True\<rparr>"
  have ok: "client_ok c" unfolding c_def by (rule client_run_ok)
  have h: "cl_listening c" "cl_lock c = Some ?s" "cl_pending c \<noteq> None"
    "dict_get (cl_done c) (sd_future ?s) = None" "cl_timed_out c \<noteq> Some (sd_msg_id ?s)"
    "dict_get (buffers (cl_agg c)) (sd_msg_id ?s) = None" "agent_text c ''run-of-m1'' = []"
    "next_task (cl_agg c) = 0" "debounce (cl_agg c) = 15/100"
    unfolding c_def by (atomize (full), code_simp)
  have id: "sd_msg_id ?s \<noteq> []" "sd_future ?s = 1" by simp_all
  have v: "visible_text ''Answer to the first question'' = ''Answer to the first question''" by code_simp
  then have "visible_text ''Answer to the first question'' \<noteq> []" by simp
  from any_final_resolves_the_active_request [OF ok h(1-3) id(1) h(4-7) this, of default_settings 9 5]
  show ?thesis unfolding h(8,9) v id(2) unfolding c_def .
qed

end
