(* ===== verification/Effects.thy ===== *)
theory Effects
  imports Prelude
begin

text \<open>
  Python statements that read and write a state and may raise: an effect maps a state to a
  result and the next state. The state an exception leaves is the one at the point where it was
  raised. The laws of composition are given as a contract (\<open>frame\<close>) for relations between the
  states before and after.
\<close>

section \<open>Effects\<close>

type_synonym ('s, 'a) eff = "'s \<Rightarrow> 'a result \<times> 's"

definition eret :: "'a \<Rightarrow> ('s, 'a) eff" where
  "eret x s = (Ok x, s)"

definition eraise :: "exn \<Rightarrow> ('s, 'a) eff" where
  "eraise e s = (Raise e, s)"

definition elift :: "'a result \<Rightarrow> ('s, 'a) eff" where
  "elift r s = (r, s)"

definition eget :: "('s \<Rightarrow> 'a) \<Rightarrow> ('s, 'a) eff" where
  "eget f s = (Ok (f s), s)"

definition emod :: "('s \<Rightarrow> 's) \<Rightarrow> ('s, unit) eff" where
  "emod f s = (Ok (), f s)"

definition ebind :: "('s, 'a) eff \<Rightarrow> ('a \<Rightarrow> ('s, 'b) eff) \<Rightarrow> ('s, 'b) eff" where
  "ebind m f s = (case m s of (Inl e, s') \<Rightarrow> (Inl e, s') | (Inr x, s') \<Rightarrow> f x s')"

definition eseq :: "('s, 'a) eff \<Rightarrow> ('s, 'b) eff \<Rightarrow> ('s, 'b) eff" where
  "eseq m n = ebind m (\<lambda>_. n)"

text \<open>\<open>try ... except\<close> for the exceptions in \<open>P\<close>, and \<open>try ... finally\<close> with a clean-up that cannot raise.\<close>

definition ecatch :: "(exn \<Rightarrow> bool) \<Rightarrow> ('s, 'a) eff \<Rightarrow> (exn \<Rightarrow> ('s, 'a) eff) \<Rightarrow> ('s, 'a) eff" where
  "ecatch P m h s = (case m s of
     (Inl e, s') \<Rightarrow> if P e then h e s' else (Inl e, s')
   | (Inr x, s') \<Rightarrow> (Inr x, s'))"

definition etry :: "('s, 'a) eff \<Rightarrow> (exn \<Rightarrow> ('s, 'a) eff) \<Rightarrow> ('s, 'a) eff" where
  "etry = ecatch (\<lambda>_. True)"

definition efinally :: "('s, 'a) eff \<Rightarrow> ('s \<Rightarrow> 's) \<Rightarrow> ('s, 'a) eff" where
  "efinally m f s = (case m s of (r, s') \<Rightarrow> (r, f s'))"

definition ewhen :: "bool \<Rightarrow> ('s, unit) eff \<Rightarrow> ('s, unit) eff" where
  "ewhen b m = (if b then m else eret ())"

fun emap :: "('a \<Rightarrow> ('s, 'b) eff) \<Rightarrow> 'a list \<Rightarrow> ('s, 'b list) eff" where
  "emap f [] = eret []"
| "emap f (x # xs) = ebind (f x) (\<lambda>y. ebind (emap f xs) (\<lambda>ys. eret (y # ys)))"

lemmas eff_simps = eret_def eraise_def elift_def eget_def emod_def

lemma ebind_ret [simp]: "ebind (eret x) f = f x"
  by (rule ext) (simp add: ebind_def eret_def)

lemma ebind_raise [simp]: "ebind (eraise e) f = eraise e"
  by (rule ext) (simp add: ebind_def eraise_def)

lemma ebind_eret_right [simp]: "ebind m eret = m"
  by (rule ext) (auto simp: ebind_def eret_def split: prod.split sum.split)

lemma ebind_assoc: "ebind (ebind m f) g = ebind m (\<lambda>x. ebind (f x) g)"
  by (rule ext) (auto simp: ebind_def split: prod.split sum.split)

lemma ebind_cases:
  assumes "ebind m f s = (r, s')"
  obtains (raised) e where "m s = (Inl e, s')" "r = Inl e"
    | (cont) x s1 where "m s = (Inr x, s1)" "f x s1 = (r, s')"
  using assms by (cases "m s"; cases "fst (m s)") (auto simp: ebind_def)

lemma ebind_Inl: "m s = (Inl e, s') \<Longrightarrow> ebind m f s = (Inl e, s')"
  by (simp add: ebind_def)

lemma ebind_Inr: "m s = (Inr x, s') \<Longrightarrow> ebind m f s = f x s'"
  by (simp add: ebind_def)

lemma ecatch_cases:
  assumes "ecatch P m h s = (r, s')"
  obtains (ok) x where "m s = (Inr x, s')" "r = Inr x"
    | (caught) e s1 where "m s = (Inl e, s1)" "P e" "h e s1 = (r, s')"
    | (passed) e where "m s = (Inl e, s')" "\<not> P e" "r = Inl e"
  using assms by (cases "m s"; cases "fst (m s)") (auto simp: ecatch_def split: if_split_asm)

section \<open>Frames\<close>

text \<open>
  A reflexive and transitive relation between the states before and after, and a condition on
  states it keeps. What basic steps respect, everything composed of them respects, whatever is
  raised on the way.
\<close>

locale frame =
  fixes R :: "'s \<Rightarrow> 's \<Rightarrow> bool" and I :: "'s \<Rightarrow> bool"
  assumes refl: "R s s"
    and trans: "R s t \<Longrightarrow> R t u \<Longrightarrow> R s u"
    and stable: "R s t \<Longrightarrow> I s \<Longrightarrow> I t"
begin

definition keeps :: "('s, 'a) eff \<Rightarrow> bool" where
  "keeps m \<longleftrightarrow> (\<forall>s. I s \<longrightarrow> R s (snd (m s)))"

lemma keepsI: "(\<And>s r s'. I s \<Longrightarrow> m s = (r, s') \<Longrightarrow> R s s') \<Longrightarrow> keeps m"
  unfolding keeps_def by (metis prod.collapse)

lemma keepsD: "keeps m \<Longrightarrow> m s = (r, s') \<Longrightarrow> I s \<Longrightarrow> R s s'"
  unfolding keeps_def by (metis snd_conv)

lemma keeps_basic [simp, intro]: "keeps (eret x)" "keeps (eraise e)" "keeps (elift r)" "keeps (eget f)"
  by (simp_all add: keeps_def eff_simps refl)

lemma keeps_mod: "(\<And>s. I s \<Longrightarrow> R s (f s)) \<Longrightarrow> keeps (emod f)"
  by (simp add: keeps_def emod_def)

lemma keeps_bind: "keeps m \<Longrightarrow> (\<And>x. keeps (f x)) \<Longrightarrow> keeps (ebind m f)"
  by (rule keepsI, erule ebind_cases) (blast dest: keepsD stable intro: trans)+

lemma keeps_bind_post:
  "keeps m \<Longrightarrow> (\<And>s x s'. m s = (Inr x, s') \<Longrightarrow> keeps (f x)) \<Longrightarrow> keeps (ebind m f)"
  by (rule keepsI, erule ebind_cases) (blast dest: keepsD stable intro: trans)+

lemma keeps_get: "(\<And>s. I s \<Longrightarrow> keeps (f (g s))) \<Longrightarrow> keeps (ebind (eget g) f)"
  by (rule keepsI) (auto simp: ebind_def eget_def dest: keepsD)

lemma keeps_seq: "keeps m \<Longrightarrow> keeps n \<Longrightarrow> keeps (eseq m n)"
  unfolding eseq_def by (rule keeps_bind)

lemma keeps_catch: "keeps m \<Longrightarrow> (\<And>e. keeps (h e)) \<Longrightarrow> keeps (ecatch P m h)"
  by (rule keepsI, erule ecatch_cases) (blast dest: keepsD stable intro: trans)+

lemma keeps_try: "keeps m \<Longrightarrow> (\<And>e. keeps (h e)) \<Longrightarrow> keeps (etry m h)"
  unfolding etry_def by (rule keeps_catch)

lemma keeps_when: "keeps m \<Longrightarrow> keeps (ewhen b m)"
  by (simp add: ewhen_def)

lemma keeps_map: "(\<And>x. x \<in> set xs \<Longrightarrow> keeps (f x)) \<Longrightarrow> keeps (emap f xs)"
  by (induction xs) (auto intro!: keeps_bind)

lemma keeps_if: "(b \<Longrightarrow> keeps m) \<Longrightarrow> (\<not> b \<Longrightarrow> keeps n) \<Longrightarrow> keeps (if b then m else n)"
  by simp

lemma keeps_option: "(\<And>x. o' = Some x \<Longrightarrow> keeps (f x)) \<Longrightarrow> keeps n \<Longrightarrow> keeps (case o' of None \<Rightarrow> n | Some x \<Rightarrow> f x)"
  by (cases o') simp_all

lemma keeps_prod: "(\<And>x y. keeps (f x y)) \<Longrightarrow> keeps (case p of (x, y) \<Rightarrow> f x y)"
  by (cases p) simp

lemmas keeps_rules = keeps_basic keeps_bind keeps_seq keeps_catch keeps_try keeps_when keeps_map keeps_if
  keeps_option keeps_prod

end
end
