(* ===== verification/Dify.thy ===== *)
theory Dify
  imports Effects Json
begin

text \<open>
  The Dify fallback client (\<open>src/services/dify_client.py\<close>): one streamed chat request whose
  server-sent events are collected into an answer, and the conversation remembered per user. The
  HTTP exchange, \<open>json.loads\<close> and the TTL cache of the conversations are parameters; the cache is
  a function of what was stored. Time-outs are exceptions of the exchange.
\<close>

section \<open>The stream\<close>

record sse =
  sse_status :: int
  sse_lines :: "string list"
  sse_broken :: "exn option"

text \<open>
  \<open>de_cached\<close> reads the TTL cache: from the assignments made so far, the value for a user.
\<close>

type_synonym history = "(string \<times> json) list"

record dify_env =
  de_post :: "json \<Rightarrow> sse result"
  de_loads :: "string \<Rightarrow> json option"
  de_cached :: "history \<Rightarrow> string \<Rightarrow> json option"

text \<open>\<open>"".join(parts)\<close>: only texts can be joined.\<close>

fun join_parts :: "json list \<Rightarrow> string result" where
  "join_parts [] = Ok []"
| "join_parts (JStr s # ps) = bind_result (join_parts ps) (\<lambda>t. Ok (s @ t))"
| "join_parts (_ # ps) = Raise PyTypeError"

definition sse_data :: "dify_env \<Rightarrow> string \<Rightarrow> json option" where
  "sse_data env line =
     (if \<not> startswith line ''data:'' then None
      else let raw = py_strip (drop (length ''data:'') line) in
        if raw = [] \<or> raw = ''[DONE]'' then None else de_loads env raw)"

definition show_chunk :: "(string \<Rightarrow> ('s, unit) eff) option \<Rightarrow> json list \<Rightarrow> ('s, unit) eff" where
  "show_chunk on_stream parts =
     (case on_stream of
        None \<Rightarrow> eret ()
      | Some f \<Rightarrow> etry (ebind (elift (join_parts parts)) f) (\<lambda>_. eret ()))"

text \<open>
  The loop over the lines; \<open>None\<close> instead of the parts after an error event.
\<close>

fun consume ::
    "dify_env \<Rightarrow> (string \<Rightarrow> ('s, unit) eff) option \<Rightarrow> exn option \<Rightarrow> string list \<Rightarrow> json list \<Rightarrow> json \<Rightarrow>
     ('s, json list option \<times> json) eff" where
  "consume env on_stream broken [] parts conv =
     (case broken of Some e \<Rightarrow> eraise e | None \<Rightarrow> eret (Some parts, conv))"
| "consume env on_stream broken (line # lines) parts conv =
     (case sse_data env line of
        None \<Rightarrow> consume env on_stream broken lines parts conv
      | Some event \<Rightarrow>
          ebind (elift (jget_or event ''event'' (JStr []))) (\<lambda>event_type.
          ebind (elift (jget event ''conversation_id'')) (\<lambda>cid.
          let conv' = (if \<not> truthy conv \<and> truthy cid then cid else conv) in
          if event_type = JStr ''message'' \<or> event_type = JStr ''agent_message'' then
            ebind (elift (jget_or event ''answer'' (JStr []))) (\<lambda>chunk.
            if truthy chunk
            then ebind (show_chunk on_stream (parts @ [chunk])) (\<lambda>_.
                 consume env on_stream broken lines (parts @ [chunk]) conv')
            else consume env on_stream broken lines parts conv')
          else if event_type = JStr ''message_end'' then eret (Some parts, conv')
          else if event_type = JStr ''error'' then eret (None, conv')
          else consume env on_stream broken lines parts conv')))"

definition stream_chat ::
    "dify_env \<Rightarrow> json \<Rightarrow> (string \<Rightarrow> ('s, unit) eff) option \<Rightarrow> ('s, string \<times> json) eff" where
  "stream_chat env payload on_stream =
     ebind (elift (de_post env payload)) (\<lambda>response.
     if sse_status response \<noteq> 200 then eret ([], JStr [])
     else ebind (consume env on_stream (sse_broken response) (sse_lines response) [] (JStr [])) (\<lambda>(parts, conv).
       case parts of
         None \<Rightarrow> eret ([], conv)
       | Some ps \<Rightarrow> ebind (elift (join_parts ps)) (\<lambda>answer. eret (answer, conv))))"

section \<open>A chat turn\<close>

definition dify_payload :: "json \<Rightarrow> string \<Rightarrow> string \<Rightarrow> json" where
  "dify_payload conv user message =
     JObj [(''query'', JStr message), (''inputs'', JObj []), (''response_mode'', JStr ''streaming''),
       (''user'', JStr user), (''conversation_id'', conv)]"

fun http_failure :: "exn \<Rightarrow> bool" where
  "http_failure (HTTPError m) = True"
| "http_failure PyTimeoutError = True"
| "http_failure _ = False"

definition get_conversation_id :: "dify_env \<Rightarrow> history \<Rightarrow> string \<Rightarrow> json option" where
  "get_conversation_id env hist user = de_cached env hist user"

text \<open>Forgetting a user's conversation: as if it had not been stored.\<close>

definition clear_conversation :: "history \<Rightarrow> string \<Rightarrow> history" where
  "clear_conversation hist user = filter (\<lambda>(u, c). u \<noteq> user) hist"

text \<open>The answer and the assignments of the cache afterwards.\<close>

definition dify_chat ::
    "dify_env \<Rightarrow> history \<Rightarrow> string \<Rightarrow> string \<Rightarrow> (string \<Rightarrow> ('s, unit) eff) option \<Rightarrow>
     ('s, string \<times> history) eff" where
  "dify_chat env hist user message on_stream =
     (let conv = (case de_cached env hist user of None \<Rightarrow> JStr [] | Some c \<Rightarrow> c) in
      ecatch http_failure
        (ebind (stream_chat env (dify_payload conv user message) on_stream) (\<lambda>(answer, new_conv).
         eret (answer, if truthy new_conv then hist @ [(user, new_conv)] else hist)))
        (\<lambda>_. eret ([], hist)))"

text \<open>A turn changes the state only through its streaming callback.\<close>

context frame
begin

lemma keeps_show_chunk: "(\<And>f t. on_stream = Some f \<Longrightarrow> keeps (f t)) \<Longrightarrow> keeps (show_chunk on_stream parts)"
  unfolding show_chunk_def by (intro keeps_rules) auto

lemma keeps_consume:
  assumes "\<And>f t. on_stream = Some f \<Longrightarrow> keeps (f t)"
  shows "keeps (consume env on_stream broken lines parts conv)"
proof (induction lines arbitrary: parts conv)
  case (Cons line lines)
  then show ?case
    unfolding consume.simps Let_def
    by (intro keeps_rules keeps_show_chunk assms) auto
qed (auto split: option.split)

lemma keeps_dify_chat:
  assumes "\<And>f t. on_stream = Some f \<Longrightarrow> keeps (f t)"
  shows "keeps (dify_chat env hist user message on_stream)"
  unfolding dify_chat_def stream_chat_def Let_def
  by (intro keeps_rules keeps_consume assms) (auto split: option.split intro!: keeps_bind)

end

section \<open>What the loop computes\<close>

text \<open>
  The reference: the events of the stream, cut at the first \<open>message_end\<close>; empty when an error
  event comes before it, else the texts of the message events one after the other.
\<close>

definition event_kind :: "json \<Rightarrow> string" where
  "event_kind e = (case jget e ''event'' of Inr (JStr s) \<Rightarrow> s | _ \<Rightarrow> [])"

definition event_answer :: "json \<Rightarrow> string" where
  "event_answer e = (case jget e ''answer'' of Inr (JStr s) \<Rightarrow> s | _ \<Rightarrow> [])"

definition sse_events :: "dify_env \<Rightarrow> string list \<Rightarrow> json list" where
  "sse_events env lines = List.map_filter (sse_data env) lines"

definition answer_of :: "json list \<Rightarrow> string" where
  "answer_of es =
     (let before_end = takeWhile (\<lambda>e. event_kind e \<noteq> ''message_end'') es in
      if list_ex (\<lambda>e. event_kind e = ''error'') before_end then []
      else concat (map event_answer
        (filter (\<lambda>e. event_kind e = ''message'' \<or> event_kind e = ''agent_message'') before_end)))"

text \<open>Events as Dify sends them: objects whose kind, answer and conversation are texts.\<close>

definition sse_well_formed :: "json \<Rightarrow> bool" where
  "sse_well_formed e \<longleftrightarrow> is_obj e \<and>
     (\<forall>k \<in> {''event'', ''answer'', ''conversation_id''}. case jget e k of Inr v \<Rightarrow> v = JNull \<or> is_str v | Inl _ \<Rightarrow> False) \<and>
     (case jget_or e ''answer'' (JStr []) of Inr v \<Rightarrow> v = JNull \<or> is_str v | Inl _ \<Rightarrow> False)"


fun run_events :: "json list \<Rightarrow> string option" where
  "run_events [] = Some []"
| "run_events (e # es) =
     (if event_kind e = ''message_end'' then Some []
      else if event_kind e = ''error'' then None
      else map_option (\<lambda>t. (if event_kind e = ''message'' \<or> event_kind e = ''agent_message''
        then event_answer e else []) @ t) (run_events es))"

lemma answer_of_run: "answer_of es = (case run_events es of None \<Rightarrow> [] | Some t \<Rightarrow> t)"
proof -
  let ?b = "takeWhile (\<lambda>e. event_kind e \<noteq> ''message_end'') es"
  have "run_events es = (if list_ex (\<lambda>e. event_kind e = ''error'') ?b then None
    else Some (concat (map event_answer
      (filter (\<lambda>e. event_kind e = ''message'' \<or> event_kind e = ''agent_message'') ?b))))"
    by (induction es) auto
  then show ?thesis by (simp add: answer_of_def Let_def)
qed

lemma join_parts_snoc [simp]: "join_parts ps = Ok t \<Longrightarrow> join_parts (ps @ [JStr s]) = Ok (t @ s)"
  by (induction ps arbitrary: t rule: join_parts.induct) (auto simp: bind_result_Ok_iff)

lemma show_chunk_ok: "\<exists>s'. show_chunk on_stream parts s = (Ok (), s')"
proof (cases on_stream)
  case (Some f)
  let ?m = "ebind (elift (join_parts parts)) f"
  obtain r s1 where "?m s = (r, s1)" by fastforce
  then show ?thesis by (cases r) (auto simp: Some show_chunk_def etry_def ecatch_def eret_def)
qed (simp add: show_chunk_def eret_def)

lemma sse_events_Cons:
  "sse_events env (l # ls) = (case sse_data env l of None \<Rightarrow> sse_events env ls | Some e \<Rightarrow> e # sse_events env ls)"
  by (simp add: sse_events_def List.map_filter_simps split: option.split)

lemma well_formed_kind:
  assumes "sse_well_formed e"
  obtains k cid where "jget_or e ''event'' (JStr []) = Ok k" "k = JStr (event_kind e) \<or> k = JNull \<and> event_kind e = []"
    "jget e ''conversation_id'' = Ok cid"
    "jget_or e ''answer'' (JStr []) = Ok (JStr (event_answer e)) \<or>
     jget_or e ''answer'' (JStr []) = Ok JNull \<and> event_answer e = []"
proof -
  obtain d where d: "e = JObj d" using assms by (cases e) (auto simp: sse_well_formed_def)
  have v: "dict_get d k = None \<or> dict_get d k = Some JNull \<or> (\<exists>t. dict_get d k = Some (JStr t))"
    if "k \<in> {''event'', ''answer'', ''conversation_id''}" for k
  proof (cases "dict_get d k")
    case (Some v)
    with assms that have "v = JNull \<or> is_str v" by (auto simp: d sse_well_formed_def)
    with Some show ?thesis by (cases v) auto
  qed simp
  define k where "k = (case dict_get d ''event'' of None \<Rightarrow> JStr [] | Some v \<Rightarrow> v)"
  have "jget_or e ''event'' (JStr []) = Ok k" by (simp add: d k_def)
  moreover have "k = JStr (event_kind e) \<or> k = JNull \<and> event_kind e = []"
    using v [of "''event''"] by (auto simp: k_def d event_kind_def)
  moreover have "jget e ''conversation_id'' = Ok (case dict_get d ''conversation_id'' of None \<Rightarrow> JNull | Some v \<Rightarrow> v)"
    by (simp add: d)
  moreover have "jget_or e ''answer'' (JStr []) = Ok (JStr (event_answer e)) \<or>
     jget_or e ''answer'' (JStr []) = Ok JNull \<and> event_answer e = []"
    using v [of "''answer''"] by (auto simp: d event_answer_def)
  ultimately show thesis by (rule that)
qed

definition consumed :: "json list \<Rightarrow> string \<Rightarrow> json \<Rightarrow> json list option \<Rightarrow> json \<Rightarrow> bool" where
  "consumed es t conv ps c \<longleftrightarrow>
     (case run_events es of None \<Rightarrow> ps = None | Some u \<Rightarrow> \<exists>q. ps = Some q \<and> join_parts q = Ok (t @ u)) \<and>
     (c = conv \<or> (\<exists>e \<in> set es. jget e ''conversation_id'' = Ok c \<and> truthy c))"

lemma consumed_Cons:
  assumes "consumed es (t @ x) c1 ps c"
    and "c1 = conv \<or> jget e ''conversation_id'' = Ok c1 \<and> truthy c1"
    and "run_events (e # es) = map_option ((@) x) (run_events es)"
  shows "consumed (e # es) t conv ps c"
  using assms unfolding consumed_def assms(3) by (cases "run_events es") auto

lemma consume_run:
  assumes "list_all sse_well_formed (sse_events env lines)" "join_parts parts = Ok t"
  shows "\<exists>ps c s'. consume env on_stream None lines parts conv s = (Ok (ps, c), s') \<and>
    consumed (sse_events env lines) t conv ps c"
  using assms
proof (induction lines arbitrary: parts t conv s)
  case Nil
  then show ?case by (simp add: sse_events_def eret_def List.map_filter_simps consumed_def)
next
  case (Cons l ls)
  show ?case
  proof (cases "sse_data env l")
    case None
    with Cons show ?thesis by (simp add: sse_events_Cons)
  next
    case (Some e)
    let ?es = "sse_events env ls"
    have es: "sse_events env (l # ls) = e # ?es" using Some by (simp add: sse_events_Cons)
    have wf: "sse_well_formed e" "list_all sse_well_formed ?es" using Cons.prems(1) es by simp_all
    obtain k cid where k: "jget_or e ''event'' (JStr []) = Ok k"
      "k = JStr (event_kind e) \<or> k = JNull \<and> event_kind e = []" "jget e ''conversation_id'' = Ok cid"
      "jget_or e ''answer'' (JStr []) = Ok (JStr (event_answer e)) \<or>
       jget_or e ''answer'' (JStr []) = Ok JNull \<and> event_answer e = []"
      by (rule well_formed_kind [OF wf(1)])
    define c1 where "c1 = (if \<not> truthy conv \<and> truthy cid then cid else conv)"
    note st = Some k(1,3) c1_def [symmetric]
    have lift: "ebind (elift (Ok x)) f = f x" for x :: json and f :: "json \<Rightarrow> ('a, 'b) eff"
      by (rule ext) (simp add: ebind_def elift_def)
    have c1: "c1 = conv \<or> jget e ''conversation_id'' = Ok c1 \<and> truthy c1"
      using k(3) by (simp add: c1_def)
    note step = consumed_Cons [OF _ c1, of ?es t]
    consider (msg) "event_kind e = ''message'' \<or> event_kind e = ''agent_message''"
      | (fin) "event_kind e = ''message_end''" | (err) "event_kind e = ''error''"
      | (other) "event_kind e \<notin> {''message'', ''agent_message'', ''message_end'', ''error''}" by blast
    then show ?thesis
    proof cases
      case msg
      then have km: "k = JStr ''message'' \<or> k = JStr ''agent_message''" using k(2) by auto
      have run: "run_events (e # ?es) = map_option ((@) (event_answer e)) (run_events ?es)"
        using msg by auto
      show ?thesis
      proof (cases "event_answer e = []")
        case True
        obtain a where "jget_or e ''answer'' (JStr []) = Ok a" "\<not> truthy a" using k(4) True by auto
        then have "consume env on_stream None (l # ls) parts conv = consume env on_stream None ls parts c1"
          using km by (simp add: st lift Let_def)
        moreover obtain ps c s' where ih: "consume env on_stream None ls parts c1 s = (Ok (ps, c), s')"
          "consumed ?es t c1 ps c" using Cons.IH [OF wf(2) Cons.prems(2)] by blast
        ultimately show ?thesis using step [OF _ run] True es by simp
      next
        case False
        let ?p = "parts @ [JStr (event_answer e)]"
        have j: "join_parts ?p = Ok (t @ event_answer e)" using Cons.prems(2) by simp
        obtain s1 where s1: "show_chunk on_stream ?p s = (Ok (), s1)" using show_chunk_ok [of on_stream ?p s] by (elim exE)
        have a: "jget_or e ''answer'' (JStr []) = Ok (JStr (event_answer e))" using k(4) False by auto
        have "consume env on_stream None (l # ls) parts conv s = consume env on_stream None ls ?p c1 s1"
          using km a False s1 by (simp add: st lift Let_def ebind_Inr)
        moreover obtain ps c s' where ih: "consume env on_stream None ls ?p c1 s1 = (Ok (ps, c), s')"
          "consumed ?es (t @ event_answer e) c1 ps c" using Cons.IH [OF wf(2) j] by blast
        ultimately show ?thesis using step [OF ih(2) run] es by simp
      qed
    next
      case fin
      then have "k = JStr ''message_end''" using k(2) by auto
      then have "consume env on_stream None (l # ls) parts conv s = (Ok (Some parts, c1), s)"
        by (simp add: st lift Let_def eret_def)
      with fin Cons.prems(2) c1 es show ?thesis by (auto simp: consumed_def)
    next
      case err
      then have "k = JStr ''error''" using k(2) by auto
      then have "consume env on_stream None (l # ls) parts conv s = (Ok (None, c1), s)"
        by (simp add: st lift Let_def eret_def)
      with err c1 es show ?thesis by (auto simp: consumed_def)
    next
      case other
      then have "k \<noteq> JStr ''message''" "k \<noteq> JStr ''agent_message''" "k \<noteq> JStr ''message_end''" "k \<noteq> JStr ''error''"
        using k(2) by auto
      then have "consume env on_stream None (l # ls) parts conv = consume env on_stream None ls parts c1"
        by (simp add: st lift Let_def)
      moreover obtain ps c s' where ih: "consume env on_stream None ls parts c1 s = (Ok (ps, c), s')"
        "consumed ?es t c1 ps c" using Cons.IH [OF wf(2) Cons.prems(2)] by blast
      moreover have "run_events (e # ?es) = map_option ((@) []) (run_events ?es)"
        using other by (cases "run_events ?es") auto
      ultimately show ?thesis using step [of "[]"] es by simp
    qed
  qed
qed

section \<open>Properties\<close>

text \<open>
  Property C37. The streamed answer is complete and in order: when Dify's stream arrives whole and
  its events are as documented, the answer is the concatenation of the texts of its message
  events before the end (empty after an error event), whatever the streaming callback does; and
  the only conversation stored is one this stream named, under this user.
\<close>

theorem dify_answer_is_concatenation:
  fixes on_stream :: "(string \<Rightarrow> ('s, unit) eff) option"
  assumes "de_post env (dify_payload (case de_cached env hist user of None \<Rightarrow> JStr [] | Some c \<Rightarrow> c) user message) =
      Ok \<lparr>sse_status = 200, sse_lines = lines, sse_broken = None\<rparr>"
    and "list_all sse_well_formed (sse_events env lines)"
  shows "\<exists>hist' s'. dify_chat env hist user message on_stream s = (Ok (answer_of (sse_events env lines), hist'), s') \<and>
    (hist' = hist \<or> (\<exists>c. hist' = hist @ [(user, c)] \<and>
       (\<exists>e \<in> set (sse_events env lines). jget e ''conversation_id'' = Ok c)))"
proof -
  obtain ps c s1 where c: "consume env on_stream None lines [] (JStr []) s = (Ok (ps, c), s1)"
    "case run_events (sse_events env lines) of None \<Rightarrow> ps = None
     | Some u \<Rightarrow> \<exists>q. ps = Some q \<and> join_parts q = Ok u"
    "c = JStr [] \<or> (\<exists>e \<in> set (sse_events env lines). jget e ''conversation_id'' = Ok c \<and> truthy c)"
    using consume_run [OF assms(2) join_parts.simps(1), of on_stream "JStr []" s]
    unfolding consumed_def append_Nil by blast
  let ?conv = "case de_cached env hist user of None \<Rightarrow> JStr [] | Some c \<Rightarrow> c"
  have "stream_chat env (dify_payload ?conv user message) on_stream s =
      (Ok (answer_of (sse_events env lines), c), s1)"
  proof (cases "run_events (sse_events env lines)")
    case None
    with c(1,2) assms(1) show ?thesis
      by (simp add: stream_chat_def ebind_def elift_def answer_of_run eret_def)
  next
    case (Some u)
    with c(2) obtain q where "ps = Some q" "join_parts q = Ok u" by auto
    with c(1) assms(1) Some show ?thesis
      by (simp add: stream_chat_def ebind_def elift_def answer_of_run eret_def)
  qed
  then have "dify_chat env hist user message on_stream s =
      (Ok (answer_of (sse_events env lines), if truthy c then hist @ [(user, c)] else hist), s1)"
    by (simp add: dify_chat_def Let_def ecatch_def ebind_def eret_def)
  with c(3) show ?thesis by auto
qed

definition toy_dify :: dify_env where
  "toy_dify = \<lparr>de_post = (\<lambda>_. Ok \<lparr>sse_status = 200, sse_lines = [''data: 1'', [], ''data: 2'', ''data: 3''], sse_broken = None\<rparr>),
     de_loads = (\<lambda>raw. if raw = ''1'' then Some (JObj [(''event'', JStr ''message''), (''answer'', JStr ''Hel'')])
       else if raw = ''2'' then Some (JObj [(''event'', JStr ''message''), (''answer'', JStr ''lo''), (''conversation_id'', JStr ''c9'')])
       else if raw = ''3'' then Some (JObj [(''event'', JStr ''message_end'')]) else None),
     de_cached = (\<lambda>h u. map_of (rev h) u)\<rparr>"

theorem dify_answer_is_concatenation_witness:
  "\<exists>h' s'. dify_chat toy_dify [] ''U1'' ''hi'' (None :: (string \<Rightarrow> (nat, unit) eff) option) 0 = (Ok (''Hello'', h'), s')"
proof -
  let ?ls = "[''data: 1'', [], ''data: 2'', ''data: 3'']"
  have p: "de_post toy_dify (dify_payload (case de_cached toy_dify [] ''U1'' of None \<Rightarrow> JStr [] | Some c \<Rightarrow> c) ''U1'' ''hi'') =
      Ok \<lparr>sse_status = 200, sse_lines = ?ls, sse_broken = None\<rparr>" by (simp add: toy_dify_def)
  have w: "list_all sse_well_formed (sse_events toy_dify ?ls)" by code_simp
  have "answer_of (sse_events toy_dify ?ls) = ''Hello''" by code_simp
  with dify_answer_is_concatenation [OF p w, of None "0 :: nat"] show ?thesis by auto
qed

end
