(* ===== verification/ChatAdapter.thy ===== *)
theory ChatAdapter
  imports Settings Json
begin

text \<open>
  What the router knows of the chat platforms (\<open>src/services/chat_adapter.py\<close>): the incoming
  event, the adapters with their names and their call interface, the registry, and the
  throttle for streamed updates (\<open>StreamUpdater\<close> of \<open>src/router.py\<close>).
\<close>

section \<open>Events, adapters, registry\<close>

record channel_event =
  ev_user_id :: string
  ev_channel_id :: string
  ev_text :: string
  ev_post_id :: string
  ev_file_ids :: "string list"
  ev_provider :: string
  ev_root_id :: string

datatype adapter =
    MattermostClient
  | TelegramAdapter
  | BitrixAdapter
  | SlackAdapter
  | VkTeamsAdapter
  | TeamsAdapter

instantiation adapter :: linorder
begin

fun adapter_index :: "adapter \<Rightarrow> nat" where
  "adapter_index MattermostClient = 0"
| "adapter_index TelegramAdapter = 1"
| "adapter_index BitrixAdapter = 2"
| "adapter_index SlackAdapter = 3"
| "adapter_index VkTeamsAdapter = 4"
| "adapter_index TeamsAdapter = 5"

definition less_eq_adapter :: "adapter \<Rightarrow> adapter \<Rightarrow> bool" where
  "less_eq_adapter a b \<longleftrightarrow> adapter_index a \<le> adapter_index b"

definition less_adapter :: "adapter \<Rightarrow> adapter \<Rightarrow> bool" where
  "less_adapter a b \<longleftrightarrow> adapter_index a < adapter_index b"

instance
proof
  fix a b :: adapter
  show "a \<le> b \<Longrightarrow> b \<le> a \<Longrightarrow> a = b"
    by (cases a; cases b) (simp_all add: less_eq_adapter_def)
qed (auto simp: less_eq_adapter_def less_adapter_def)

end

fun adapter_name :: "adapter \<Rightarrow> string" where
  "adapter_name MattermostClient = ''mattermost''"
| "adapter_name TelegramAdapter = ''telegram''"
| "adapter_name BitrixAdapter = ''bitrix''"
| "adapter_name SlackAdapter = ''slack''"
| "adapter_name VkTeamsAdapter = ''vk_teams''"
| "adapter_name TeamsAdapter = ''teams''"

type_synonym registry = "(string, adapter) dict"

definition registry_key :: "string \<Rightarrow> string" where
  "registry_key nm = py_lower (py_strip nm)"

definition register_adapter :: "adapter \<Rightarrow> registry \<Rightarrow> registry" where
  "register_adapter a reg = dict_set reg (registry_key (adapter_name a)) a"

definition registry_get :: "registry \<Rightarrow> string \<Rightarrow> adapter option" where
  "registry_get reg nm = dict_get reg (registry_key nm)"

definition registry_all :: "registry \<Rightarrow> adapter list" where
  "registry_all reg = map snd reg"

definition supported_providers :: "registry \<Rightarrow> string set" where
  "supported_providers reg = set (dict_keys reg)"

definition is_registered :: "registry \<Rightarrow> string \<Rightarrow> bool" where
  "is_registered reg nm = dict_has reg (registry_key nm)"

text \<open>The adapters the application registers at startup, in this order (\<open>src/main.py\<close>).\<close>

definition enabled_adapters :: "settings \<Rightarrow> adapter list" where
  "enabled_adapters cfg =
     (if enable_mattermost cfg \<and> mattermost_token cfg \<noteq> '''' then [MattermostClient] else []) @
     (if enable_telegram cfg \<and> telegram_bot_token cfg \<noteq> '''' then [TelegramAdapter] else []) @
     (if enable_bitrix cfg \<and> bitrix_webhook_url cfg \<noteq> '''' then [BitrixAdapter] else []) @
     (if enable_slack cfg \<and> slack_bot_token cfg \<noteq> '''' \<and> slack_app_token cfg \<noteq> '''' then [SlackAdapter] else []) @
     (if enable_vk_teams cfg \<and> vk_teams_bot_token cfg \<noteq> '''' then [VkTeamsAdapter] else []) @
     (if enable_teams cfg \<and> teams_app_id cfg \<noteq> '''' then [TeamsAdapter] else [])"

definition startup_registry :: "settings \<Rightarrow> registry" where
  "startup_registry cfg = foldl (\<lambda>reg a. register_adapter a reg) [] (enabled_adapters cfg)"

text \<open>The calls the router makes on an adapter.\<close>

datatype chat_call =
    SendReply adapter string string string
  | UpdateReply adapter string string string
  | SendPostWithFiles adapter string string "string list" string
  | GetOrCreateDm adapter string

text \<open>
  \<open>send_post_with_files\<close> takes its list under the name \<open>file_ids_or_paths\<close> in the interface and in
  five adapters, under the name \<open>file_ids\<close> in \<open>MattermostClient\<close>; the router passes it by the
  interface's name.
\<close>

fun files_parameter :: "adapter \<Rightarrow> string" where
  "files_parameter MattermostClient = ''file_ids''"
| "files_parameter _ = ''file_ids_or_paths''"

lemma adapter_name_inj [simp]: "adapter_name a = adapter_name b \<longleftrightarrow> a = b"
  by (cases a; cases b) simp_all

lemma registry_key_idem [simp]: "registry_key (registry_key s) = registry_key s"
proof -
  have ws: "is_ws (lower_char c) = is_ws c" for c
    by (auto simp: lower_char_def is_ws_def Let_def)
  have "dropWhile is_ws (map lower_char s) = map lower_char (dropWhile is_ws s)" for s
    by (simp add: dropWhile_map comp_def ws)
  then have "py_strip (py_lower s) = py_lower (py_strip s)" for s
    by (simp add: py_strip_def strip_by_def lstrip_by_def rstrip_by_def py_lower_def rev_map)
  then show ?thesis by (simp add: registry_key_def)
qed

lemma registry_key_name [simp]: "registry_key (adapter_name a) = adapter_name a"
proof (cases a)
qed (simp_all only: adapter_name.simps, code_simp+)

lemma registry_get_register [simp]:
  "registry_get (register_adapter a reg) nm =
     (if registry_key nm = adapter_name a then Some a else registry_get reg nm)"
  by (simp add: registry_get_def register_adapter_def)

lemma foldl_register:
  "registry_get (foldl (\<lambda>reg a. register_adapter a reg) reg as) nm =
     (case find (\<lambda>a. adapter_name a = registry_key nm) as of
        Some a \<Rightarrow> Some a | None \<Rightarrow> registry_get reg nm)"
proof (induction as arbitrary: reg)
  case (Cons a as)
  have "find (\<lambda>b. adapter_name b = registry_key nm) as \<in> {None, Some a}"
    if k: "adapter_name a = registry_key nm"
  proof (cases "find (\<lambda>b. adapter_name b = registry_key nm) as")
    case (Some b)
    then have "adapter_name b = adapter_name a" unfolding k by (auto simp: find_Some_iff)
    with Some show ?thesis by simp
  qed simp
  with Cons.IH [of "register_adapter a reg"] show ?case by (auto split: option.splits)
qed simp

lemma startup_registry_get:
  "registry_get (startup_registry cfg) nm = Some a \<longleftrightarrow>
     a \<in> set (enabled_adapters cfg) \<and> adapter_name a = registry_key nm"
proof -
  let ?f = "find (\<lambda>a. adapter_name a = registry_key nm) (enabled_adapters cfg)"
  have "registry_get (startup_registry cfg) nm = ?f"
    unfolding startup_registry_def foldl_register by (simp add: registry_get_def split: option.split)
  moreover have "?f = Some a \<longleftrightarrow> a \<in> set (enabled_adapters cfg) \<and> adapter_name a = registry_key nm"
  proof (cases ?f)
    case None
    then have "\<forall>b \<in> set (enabled_adapters cfg). adapter_name b \<noteq> registry_key nm"
      by (auto simp: find_None_iff)
    with None show ?thesis by auto
  next
    case (Some b)
    then have b: "b \<in> set (enabled_adapters cfg)" "adapter_name b = registry_key nm"
      by (auto simp: find_Some_iff in_set_conv_nth)
    have "adapter_name a = registry_key nm \<longleftrightarrow> a = b" unfolding b(2) [symmetric] by simp
    with Some b(1) show ?thesis by auto
  qed
  ultimately show ?thesis by simp
qed

section \<open>The throttle for streamed updates\<close>

text \<open>
  Every call of \<open>on_stream\<close> is a task of its own. It reads the clock, gives up when the last
  update is less than the interval ago, waits for the lock, checks again with the time it
  read, and updates the placeholder while it holds the lock. \<open>su_queue\<close> holds the tasks
  that wait for the lock, in order.
\<close>

record streamer =
  su_adapter :: adapter
  su_post_id :: string
  su_channel_id :: string
  su_interval :: rat
  su_last_update :: rat
  su_last_text :: string
  su_locked :: bool
  su_queue :: "(rat \<times> string) list"

definition new_streamer :: "adapter \<Rightarrow> string \<Rightarrow> string \<Rightarrow> streamer" where
  "new_streamer a post_id channel_id = \<lparr>su_adapter = a, su_post_id = post_id,
     su_channel_id = channel_id, su_interval = 4 / 5, su_last_update = 0, su_last_text = '''',
     su_locked = False, su_queue = []\<rparr>"

definition too_soon :: "streamer \<Rightarrow> rat \<Rightarrow> bool" where
  "too_soon su now \<longleftrightarrow> now - su_last_update su < su_interval su"

text \<open>
  The lock is free: the waiting tasks take it in order until one performs its update. The
  second component is the update made, with the time its task had read.
\<close>

fun acquire :: "streamer \<Rightarrow> (rat \<times> string) list \<Rightarrow> streamer \<times> (rat \<times> string) option" where
  "acquire su [] = (su\<lparr>su_locked := False, su_queue := []\<rparr>, None)"
| "acquire su ((now, t) # q) =
     (if too_soon su now then acquire (su\<lparr>su_last_text := t\<rparr>) q
      else (su\<lparr>su_last_update := now, su_last_text := t, su_locked := True, su_queue := q\<rparr>,
            Some (now, t)))"

definition on_stream :: "rat \<Rightarrow> string \<Rightarrow> streamer \<Rightarrow> streamer \<times> (rat \<times> string) option" where
  "on_stream now t su =
     (if su_post_id su = '''' \<or> py_strip t = '''' then (su, None)
      else if too_soon su now then (su\<lparr>su_last_text := t\<rparr>, None)
      else if su_locked su then (su\<lparr>su_queue := su_queue su @ [(now, t)]\<rparr>, None)
      else acquire su [(now, t)])"

definition update_done :: "streamer \<Rightarrow> streamer \<times> (rat \<times> string) option" where
  "update_done su = (if su_locked su then acquire su (su_queue su) else (su, None))"

definition stream_call :: "streamer \<Rightarrow> string \<Rightarrow> chat_call" where
  "stream_call su t = UpdateReply (su_adapter su) (su_post_id su) t (su_channel_id su)"

text \<open>A chunk arrives, or the running update ends (well or badly).\<close>

datatype stream_event = Chunk rat string | UpdateDone

fun stream_step :: "streamer \<Rightarrow> stream_event \<Rightarrow> streamer \<times> (rat \<times> string) option" where
  "stream_step su (Chunk now t) = on_stream now t su"
| "stream_step su UpdateDone = update_done su"

fun stream_run :: "streamer \<Rightarrow> stream_event list \<Rightarrow> streamer \<times> (rat \<times> string) list" where
  "stream_run su [] = (su, [])"
| "stream_run su (e # es) =
     (case stream_step su e of (su1, out) \<Rightarrow>
      case stream_run su1 es of (su2, outs) \<Rightarrow>
        (su2, (case out of None \<Rightarrow> outs | Some x \<Rightarrow> x # outs)))"

definition stream_calls :: "streamer \<Rightarrow> (rat \<times> string) list \<Rightarrow> chat_call list" where
  "stream_calls su outs = map (\<lambda>(now, t). stream_call su t) outs"

lemma acquire_spec:
  assumes "acquire su q = (su', out)"
  shows "su_interval su' = su_interval su" "su_adapter su' = su_adapter su"
    "su_post_id su' = su_post_id su" "su_channel_id su' = su_channel_id su"
    "set (su_queue su') \<subseteq> set q"
    "case out of None \<Rightarrow> su_last_update su' = su_last_update su \<and> \<not> su_locked su' \<and> su_queue su' = []
      | Some (now, t) \<Rightarrow> (now, t) \<in> set q \<and> su_last_update su' = now \<and> su_locked su' \<and>
          now - su_last_update su \<ge> su_interval su"
proof (atomize (full), use assms in \<open>induction su q rule: acquire.induct\<close>)
  case (2 su now t q)
  then show ?case by (cases "too_soon su now") (auto simp: too_soon_def split: option.splits)
qed auto

lemma stream_step_spec:
  assumes "stream_step su e = (su', out)"
  shows "su_interval su' = su_interval su" "su_adapter su' = su_adapter su"
    "su_post_id su' = su_post_id su" "su_channel_id su' = su_channel_id su"
    "set (su_queue su') \<subseteq> set (su_queue su) \<union> {(now, t). e = Chunk now t \<and> py_strip t \<noteq> ''''}"
    "case out of None \<Rightarrow> su_last_update su' = su_last_update su
      | Some (now, t) \<Rightarrow> ((now, t) \<in> set (su_queue su) \<or> e = Chunk now t \<and> py_strip t \<noteq> '''') \<and>
          su_last_update su' = now \<and> su_locked su' \<and>
          now - su_last_update su \<ge> su_interval su \<and> (su_locked su \<longrightarrow> e = UpdateDone)"
proof -
  let ?goal = "su_interval su' = su_interval su \<and> su_adapter su' = su_adapter su \<and>
    su_post_id su' = su_post_id su \<and> su_channel_id su' = su_channel_id su \<and>
    set (su_queue su') \<subseteq> set (su_queue su) \<union> {(now, t). e = Chunk now t \<and> py_strip t \<noteq> ''''} \<and>
    (case out of None \<Rightarrow> su_last_update su' = su_last_update su
      | Some (now, t) \<Rightarrow> ((now, t) \<in> set (su_queue su) \<or> e = Chunk now t \<and> py_strip t \<noteq> '''') \<and>
          su_last_update su' = now \<and> su_locked su' \<and>
          now - su_last_update su \<ge> su_interval su \<and> (su_locked su \<longrightarrow> e = UpdateDone))"
  have ?goal
  proof (cases e)
  case (Chunk now t)
  consider (skip) "out = None" "su' = su \<or> su' = su\<lparr>su_last_text := t\<rparr>"
    | (wait) "out = None" "su' = su\<lparr>su_queue := su_queue su @ [(now, t)]\<rparr>" "py_strip t \<noteq> ''''"
    | (take) "\<not> su_locked su" "acquire su [(now, t)] = (su', out)" "py_strip t \<noteq> ''''"
  proof (cases "su_post_id su = '''' \<or> py_strip t = '''' \<or> too_soon su now \<or> su_locked su")
    case False
    then have "acquire su [(now, t)] = (su', out)" using assms Chunk by (simp add: on_stream_def)
    with False take show ?thesis by blast
  next
    case True
    have run: "on_stream now t su = (su', out)" using assms Chunk by simp
    show ?thesis
    proof (cases "su_post_id su = '''' \<or> py_strip t = '''' \<or> too_soon su now")
      case True
      with run skip show ?thesis by (simp add: on_stream_def split: if_split_asm)
    next
      case False
      with \<open>su_post_id su = '''' \<or> py_strip t = '''' \<or> too_soon su now \<or> su_locked su\<close> run wait
      show ?thesis by (simp add: on_stream_def)
    qed
  qed
  then show ?goal
  proof cases
    case take
    note a = acquire_spec [OF take(2)]
    have "set (su_queue su') \<subseteq> set (su_queue su) \<union> {(now, t). e = Chunk now t \<and> py_strip t \<noteq> ''''}"
      using a(5) take(3) Chunk by fastforce
    moreover have "case out of None \<Rightarrow> su_last_update su' = su_last_update su
      | Some (now, t) \<Rightarrow> ((now, t) \<in> set (su_queue su) \<or> e = Chunk now t \<and> py_strip t \<noteq> '''') \<and>
          su_last_update su' = now \<and> su_locked su' \<and>
          now - su_last_update su \<ge> su_interval su \<and> (su_locked su \<longrightarrow> e = UpdateDone)"
      using a(6) take(1,3) Chunk by (cases out) auto
    ultimately show ?thesis using a(1-4) by blast
  qed (use Chunk in auto)
next
  case UpdateDone
  consider (skip) "out = None" "su' = su" | (take) "acquire su (su_queue su) = (su', out)"
  proof (cases "su_locked su")
    case True
    then show ?thesis using assms UpdateDone take by (simp add: update_done_def)
  next
    case False
    then show ?thesis using assms UpdateDone skip by (simp add: update_done_def)
  qed
  then show ?goal
  proof cases
    case take
    from acquire_spec [OF take] UpdateDone show ?thesis by (auto split: option.splits)
  qed auto
qed
  then show "su_interval su' = su_interval su" "su_adapter su' = su_adapter su"
    "su_post_id su' = su_post_id su" "su_channel_id su' = su_channel_id su"
    "set (su_queue su') \<subseteq> set (su_queue su) \<union> {(now, t). e = Chunk now t \<and> py_strip t \<noteq> ''''}"
    "case out of None \<Rightarrow> su_last_update su' = su_last_update su
      | Some (now, t) \<Rightarrow> ((now, t) \<in> set (su_queue su) \<or> e = Chunk now t \<and> py_strip t \<noteq> '''') \<and>
          su_last_update su' = now \<and> su_locked su' \<and>
          now - su_last_update su \<ge> su_interval su \<and> (su_locked su \<longrightarrow> e = UpdateDone)"
    by blast+
qed

lemma stream_run_frame:
  assumes "stream_run su es = (su', outs)"
  shows "su_interval su' = su_interval su" "su_adapter su' = su_adapter su"
    "su_post_id su' = su_post_id su" "su_channel_id su' = su_channel_id su"
proof (atomize (full), use assms in \<open>induction es arbitrary: su su' outs\<close>)
  case (Cons e es)
  obtain su1 out where s: "stream_step su e = (su1, out)" by fastforce
  obtain su2 outs1 where r: "stream_run su1 es = (su2, outs1)" by fastforce
  have "su' = su2" using Cons.prems s r by simp
  with Cons.IH [OF r] stream_step_spec(1-4) [OF s] show ?case by simp
qed simp

lemma stream_run_origin:
  assumes "stream_run su es = (su', outs)" "(now, t) \<in> set outs"
  shows "(now, t) \<in> set (su_queue su) \<or> Chunk now t \<in> set es \<and> py_strip t \<noteq> []"
  using assms
proof (induction es arbitrary: su su' outs)
  case (Cons e es)
  obtain su1 out where s: "stream_step su e = (su1, out)" by fastforce
  obtain su2 outs1 where r: "stream_run su1 es = (su2, outs1)" by fastforce
  have "outs = (case out of None \<Rightarrow> outs1 | Some x \<Rightarrow> x # outs1)" using Cons.prems(1) s r by simp
  then consider "out = Some (now, t)" | "(now, t) \<in> set outs1"
    using Cons.prems(2) by (auto split: option.splits)
  then show ?case
  proof cases
    case 1
    with stream_step_spec(6) [OF s] show ?thesis by auto
  next
    case 2
    from Cons.IH [OF r 2] stream_step_spec(5) [OF s] show ?thesis by auto
  qed
qed simp

lemma stream_run_spaced:
  assumes "stream_run su es = (su', outs)" "0 \<le> su_interval su"
  shows "(\<forall>x \<in> set outs. su_interval su \<le> fst x - su_last_update su) \<and>
    sorted_wrt (\<lambda>a b. su_interval su \<le> fst b - fst a) outs"
  using assms
proof (induction es arbitrary: su su' outs)
  case (Cons e es)
  obtain su1 out where s: "stream_step su e = (su1, out)" by fastforce
  obtain su2 outs1 where r: "stream_run su1 es = (su2, outs1)" by fastforce
  have o: "outs = (case out of None \<Rightarrow> outs1 | Some x \<Rightarrow> x # outs1)" using Cons.prems(1) s r by simp
  have i: "su_interval su1 = su_interval su" by (rule stream_step_spec(1) [OF s])
  with Cons.IH [OF r] Cons.prems(2)
  have ih: "\<forall>x \<in> set outs1. su_interval su \<le> fst x - su_last_update su1"
    "sorted_wrt (\<lambda>a b. su_interval su \<le> fst b - fst a) outs1" by simp_all
  show ?case
  proof (cases out)
    case None
    with ih o stream_step_spec(6) [OF s] show ?thesis by simp
  next
    case (Some x)
    with stream_step_spec(6) [OF s]
    have l: "su_last_update su1 = fst x" "su_interval su \<le> fst x - su_last_update su" by auto
    have "su_interval su \<le> fst b - su_last_update su" if "b \<in> set outs1" for b
      using ih(1) that l Cons.prems(2) by force
    with ih l o Some show ?thesis by simp
  qed
qed simp

lemma spaced_span:
  fixes xs :: "(rat \<times> 'a) list"
  assumes "sorted_wrt (\<lambda>a b. d \<le> fst b - fst a) xs" "xs \<noteq> []"
  shows "of_nat (length xs - 1) * d \<le> fst (last xs) - fst (hd xs)"
  using assms
proof (induction xs)
  case (Cons x xs)
  show ?case
  proof (cases xs)
    case (Cons y ys)
    then have "of_nat (length xs - 1) * d \<le> fst (last xs) - fst (hd xs)" "d \<le> fst (hd xs) - fst x"
      using Cons.IH Cons.prems by auto
    then have "(of_nat (length xs - 1) + 1) * d \<le> fst (last xs) - fst x" by (simp add: distrib_right)
    moreover have "of_nat (length xs - 1) + 1 = (of_nat (length xs) :: rat)" using Cons by simp
    ultimately have "of_nat (length xs) * d \<le> fst (last xs) - fst x" by simp
    with Cons show ?thesis by simp
  qed simp
qed simp

section \<open>Properties\<close>



end
