(* ===== verification/FilePaths.thy ===== *)
theory FilePaths
  imports Json Settings
begin

text \<open>
  File transfer (\<open>src/services/file_manager.py\<close>): the mapping of container paths to host
  paths, the sanitising of file names, and the two transfer routes. The \<open>os.path\<close> functions
  are those of POSIX; \<open>realpath\<close> depends on the disk and is a parameter, as are the answers of
  the Mattermost API.
\<close>

section \<open>os.path\<close>

definition slash :: char where
  "slash = CHR ''/''"

text \<open>One component of \<open>posixpath.normpath\<close>'s loop; the stack is kept in reverse.\<close>

definition norm_push :: "bool \<Rightarrow> string \<Rightarrow> string list \<Rightarrow> string list" where
  "norm_push rooted part stack =
     (if part = [] \<or> part = ''.'' then stack
      else if part \<noteq> ''..'' \<or> (\<not> rooted \<and> stack = []) \<or> (stack \<noteq> [] \<and> hd stack = ''..'')
      then part # stack
      else if stack \<noteq> [] then tl stack else stack)"

definition norm_comps :: "bool \<Rightarrow> string list \<Rightarrow> string list" where
  "norm_comps rooted cs = rev (foldl (\<lambda>st c. norm_push rooted c st) [] cs)"

definition initial_slashes :: "string \<Rightarrow> nat" where
  "initial_slashes p =
     (if startswith p ''//'' \<and> \<not> startswith p ''///'' then 2
      else if startswith p ''/'' then 1 else 0)"

definition normpath :: "string \<Rightarrow> string" where
  "normpath p =
     (if p = [] then ''.''
      else let n = initial_slashes p;
               r = replicate n slash @ join_with ''/'' (norm_comps (n \<noteq> 0) (split_on slash p))
           in if r = [] then ''.'' else r)"

definition path_join :: "string \<Rightarrow> string \<Rightarrow> string" where
  "path_join a b =
     (if startswith b ''/'' then b
      else if a = [] \<or> endswith a ''/'' then a @ b
      else a @ ''/'' @ b)"

definition basename :: "string \<Rightarrow> string" where
  "basename p = last (split_on slash p)"

text \<open>\<open>os.path.splitext\<close> of a name without a slash: leading dots do not start an extension.\<close>

definition splitext :: "string \<Rightarrow> string \<times> string" where
  "splitext p =
     (let stem = rstrip_by (\<lambda>c. c \<noteq> CHR ''.'') p in
      if stem = [] \<or> (\<forall>c \<in> set stem. c = CHR ''.'') then (p, [])
      else (butlast stem, drop (length stem - 1) p))"

section \<open>Helper functions of the file manager\<close>

record downloaded_file =
  df_filename :: string
  df_host_path :: string
  df_container_path :: string
  df_size_bytes :: int
  df_mime_type :: string

text \<open>\<open>_UUID_RE.search\<close>: the leftmost 8-4-4-4-12 group of hex digits.\<close>

definition uuid_shape :: "string \<Rightarrow> bool" where
  "uuid_shape s \<longleftrightarrow> length s = 36 \<and>
     list_all (\<lambda>i. if i \<in> {8, 13, 18, 23} then s ! i = CHR ''-'' else is_hex (s ! i)) [0..<36]"

fun extract_uuid_from_instance_url :: "string \<Rightarrow> string option" where
  "extract_uuid_from_instance_url [] = None"
| "extract_uuid_from_instance_url (c # cs) =
     (if uuid_shape (take 36 (c # cs)) then Some (take 36 (c # cs))
      else extract_uuid_from_instance_url cs)"

definition openclaw_root :: string where
  "openclaw_root = ''/home/node/.openclaw/''"

definition inside :: "string \<Rightarrow> string \<Rightarrow> bool" where
  "inside base p \<longleftrightarrow> p = base \<or> startswith p (base @ ''/'')"

definition container_path_to_host ::
    "settings \<Rightarrow> (string \<Rightarrow> string) \<Rightarrow> string \<Rightarrow> string \<Rightarrow> string" where
  "container_path_to_host cfg realpath container_path uuid =
     (if \<not> startswith container_path openclaw_root then ''''
      else
        let relative = drop (length openclaw_root) container_path;
            base = workspace_base_path cfg @ ''/'' @ uuid;
            candidate = normpath (path_join base relative)
        in if \<not> inside base candidate then ''''
           else if \<not> inside (realpath base) (realpath candidate) then ''''
           else candidate)"

definition file_line :: "downloaded_file \<Rightarrow> string" where
  "file_line f = ''- `'' @ df_filename f @ ''` ('' @ df_mime_type f @ '', '' @
     str_int (df_size_bytes f div 1024) @ '' KB) '' @ [CHR 0xE2, CHR 0x86, CHR 0x92] @
     '' `'' @ df_container_path f @ ''`''"

definition NL :: string where
  "NL = [CHR 0x0A]"

definition build_attachment_context :: "downloaded_file list \<Rightarrow> string" where
  "build_attachment_context files =
     (if files = [] then ''''
      else NL @ NL @ ''[SYSTEM: the user attached one or more files. '' @
        ''They are available to read at the following paths:]'' @ NL @
        join_with NL (map file_line files))"

definition sanitize_filename :: "string \<Rightarrow> string \<Rightarrow> string" where
  "sanitize_filename name fallback =
     (if name = [] then fallback
      else
        let clean = basename (py_replace name [CHR 0x5C] ''/'');
            clean = filter (\<lambda>c. \<not> is_ctrl c) clean;
            clean = lstrip_by (\<lambda>c. c = CHR ''.'' \<or> c = CHR '' '') clean
        in if clean = [] then fallback else clean)"

section \<open>Transfers\<close>

text \<open>
  The disk: file contents by path, and the paths whose opening for writing fails. The API
  answers for a file id: its metadata, and a download that yields chunks and may break off.
\<close>

record disk =
  contents :: "(string, string) dict"
  unwritable :: "string list"

record files_api =
  file_info :: "string \<Rightarrow> json result"
  file_stream :: "string \<Rightarrow> (string list \<times> exn option) result"
  file_upload :: "string \<Rightarrow> string \<Rightarrow> string \<Rightarrow> json result"

definition download_one ::
    "settings \<Rightarrow> files_api \<Rightarrow> string \<Rightarrow> string \<Rightarrow> string \<Rightarrow> int \<Rightarrow> disk \<Rightarrow>
     downloaded_file option result \<times> disk" where
  "download_one cfg api uuid4_hex file_id host_dir max_bytes dk =
     (case file_info api file_id of Inl e \<Rightarrow> (Inl e, dk) | Inr meta \<Rightarrow>
     (case jget meta ''name'' of Inl e \<Rightarrow> (Inl e, dk) | Inr name0 \<Rightarrow>
     (case jor name0 (JStr file_id) of
       JStr raw_name \<Rightarrow>
        (let filename = sanitize_filename raw_name file_id in
         case bind_result (jget_or meta ''size'' (JInt 0)) py_int of Inl e \<Rightarrow> (Inl e, dk) | Inr size_bytes \<Rightarrow>
         (case jget_or meta ''mime_type'' (JStr ''application/octet-stream'') of
            Inl e \<Rightarrow> (Inl e, dk)
          | Inr mime \<Rightarrow>
            if size_bytes > max_bytes then (Ok None, dk)
            else
              let filename = (if dict_has (contents dk) (path_join host_dir filename)
                    then fst (splitext filename) @ ''_'' @ take 6 uuid4_hex @ snd (splitext filename)
                    else filename);
                  host_path = path_join host_dir filename
              in case file_stream api file_id of
                   Inl e \<Rightarrow> (Inl e, dk)
                 | Inr (chunks, broken) \<Rightarrow>
                     if host_path \<in> set (unwritable dk) then (Raise (OSErr host_path), dk)
                     else
                       let dk' = dk\<lparr>contents := dict_set (contents dk) host_path (concat chunks)\<rparr> in
                       (case broken of
                          Some e \<Rightarrow> (Inl e, dk')
                        | None \<Rightarrow>
                            (Ok (Some \<lparr>df_filename = filename, df_host_path = host_path,
                               df_container_path = container_workspace_root cfg @ ''/downloads/'' @ filename,
                               df_size_bytes = size_bytes,
                               df_mime_type = py_str mime\<rparr>), dk'))))
     | _ \<Rightarrow> (Raise PyAttributeError, dk))))"

text \<open>
  An HTTP error skips the file, any other exception ends the whole call. \<open>hex\<close> supplies the
  random suffix of each file.
\<close>

fun download_loop ::
    "settings \<Rightarrow> files_api \<Rightarrow> (nat \<Rightarrow> string) \<Rightarrow> string list \<Rightarrow> string \<Rightarrow> int \<Rightarrow> disk \<Rightarrow>
     downloaded_file list result \<times> disk" where
  "download_loop cfg api hx [] host_dir max_bytes dk = (Ok [], dk)"
| "download_loop cfg api hx (fid # fids) host_dir max_bytes dk =
     (case download_one cfg api (hx (length fids)) fid host_dir max_bytes dk of
        (Inl (HTTPError m), dk') \<Rightarrow> download_loop cfg api hx fids host_dir max_bytes dk'
      | (Inl e, dk') \<Rightarrow> (Inl e, dk')
      | (Inr r, dk') \<Rightarrow>
          (case download_loop cfg api hx fids host_dir max_bytes dk' of
             (Inl e, dk'') \<Rightarrow> (Inl e, dk'')
           | (Inr ds, dk'') \<Rightarrow> (Ok ((case r of None \<Rightarrow> [] | Some d \<Rightarrow> [d]) @ ds), dk'')))"

definition downloads_dir :: "settings \<Rightarrow> string \<Rightarrow> string" where
  "downloads_dir cfg uuid = workspace_base_path cfg @ ''/'' @ uuid @ ''/workspace/downloads''"

definition download_attachments ::
    "settings \<Rightarrow> files_api \<Rightarrow> (nat \<Rightarrow> string) \<Rightarrow> string list \<Rightarrow> string \<Rightarrow> disk \<Rightarrow>
     downloaded_file list result \<times> disk" where
  "download_attachments cfg api hx file_ids uuid dk =
     (if file_ids = [] then (Ok [], dk)
      else download_loop cfg api hx file_ids (downloads_dir cfg uuid)
        (attachment_max_size_mb cfg * 1024 * 1024) dk)"

definition upload_to_mattermost ::
    "settings \<Rightarrow> files_api \<Rightarrow> string \<Rightarrow> string \<Rightarrow> disk \<Rightarrow> string option result" where
  "upload_to_mattermost cfg api host_path channel_id dk =
     (case dict_get (contents dk) host_path of
        None \<Rightarrow> Ok None
      | Some body \<Rightarrow>
          if int (length body) > attachment_max_size_mb cfg * 1024 * 1024 then Ok None
          else
            (case file_upload api channel_id (basename host_path) body of
               Inl (HTTPError m) \<Rightarrow> Ok None
             | Inl e \<Rightarrow> Inl e
             | Inr r \<Rightarrow>
                 bind_result (jindex r ''file_infos'') (\<lambda>infos.
                 bind_result (jfirst infos) (\<lambda>fi.
                 bind_result (jindex fi ''id'') (\<lambda>i.
                   Ok (Some (case jstr i of Some s \<Rightarrow> s | None \<Rightarrow> '''')))))))"

section \<open>Components of normalised paths\<close>

text \<open>A plain component names an entry of a directory: not empty, not a dot name, no slash.\<close>

definition plain :: "string \<Rightarrow> bool" where
  "plain c \<longleftrightarrow> c \<noteq> [] \<and> c \<noteq> ''.'' \<and> c \<noteq> ''..'' \<and> slash \<notin> set c"

lemma norm_push_plain:
  "slash \<notin> set part \<Longrightarrow> list_all plain st \<Longrightarrow> list_all plain (norm_push True part st)"
  by (cases st) (auto simp: norm_push_def plain_def)

lemma norm_foldl_plain:
  "\<forall>c\<in>set cs. slash \<notin> set c \<Longrightarrow> list_all plain st \<Longrightarrow>
   list_all plain (foldl (\<lambda>st c. norm_push True c st) st cs)"
  by (induction cs arbitrary: st) (simp_all add: norm_push_plain)

lemma norm_comps_plain: "\<forall>c\<in>set cs. slash \<notin> set c \<Longrightarrow> list_all plain (norm_comps True cs)"
  by (simp add: norm_comps_def norm_foldl_plain)

lemma norm_foldl_id:
  "list_all plain cs \<Longrightarrow> foldl (\<lambda>st c. norm_push r c st) st cs = rev cs @ st"
  by (induction cs arbitrary: st) (auto simp: norm_push_def plain_def)

lemma split_slash_free: "\<forall>c\<in>set (split_on slash p). slash \<notin> set c"
  using split_on_no_sep by blast

lemma normpath_rooted:
  assumes "startswith p ''/''"
  obtains n where "n \<noteq> 0" "normpath p = replicate n slash @ join_with ''/'' (norm_comps True (split_on slash p))"
proof
  have "p \<noteq> []" using assms by (auto simp: startswith_iff)
  moreover have n: "initial_slashes p \<noteq> 0" using assms by (simp add: initial_slashes_def)
  ultimately show "normpath p = replicate (initial_slashes p) slash @
      join_with ''/'' (norm_comps True (split_on slash p))"
    by (auto simp: normpath_def Let_def)
  show "initial_slashes p \<noteq> 0" by (rule n)
qed

lemma split_slashes: "split_on slash (replicate n slash @ s) = replicate n [] @ split_on slash s"
  by (induction n) simp_all

lemma split_join_plain:
  "list_all plain cs \<Longrightarrow> split_on slash (join_with ''/'' cs) = (if cs = [] then [[]] else cs)"
  using split_on_join [of cs slash] by (auto simp: list_all_iff plain_def slash_def)

lemma normpath_no_dots:
  assumes "startswith p ''/''" "c \<in> set (split_on slash (normpath p))"
  shows "c = [] \<or> plain c"
proof -
  obtain n where n: "normpath p = replicate n slash @ join_with ''/'' (norm_comps True (split_on slash p))"
    using normpath_rooted [OF assms(1)] by blast
  note pl = norm_comps_plain [OF split_slash_free, of p]
  from assms(2) have "c \<in> set (replicate n ([]::string) @
      (if norm_comps True (split_on slash p) = [] then [[]] else norm_comps True (split_on slash p)))"
    unfolding n split_slashes split_join_plain [OF pl] by simp
  then show ?thesis using pl by (auto simp: list_all_iff split: if_splits)
qed

text \<open>Two slashes in a row: a normalised path has none after its first character.\<close>

fun double_slash :: "string \<Rightarrow> bool" where
  "double_slash (a # b # s) = (a = slash \<and> b = slash \<or> double_slash (b # s))"
| "double_slash _ = False"

lemma double_slash_mid: "double_slash (x @ slash # slash # y)"
proof (induction x)
  case (Cons a x)
  then show ?case by (cases x) simp_all
qed simp

lemma double_slash_free: "slash \<notin> set c \<Longrightarrow> \<not> double_slash c"
  by (induction c rule: double_slash.induct) auto

lemma double_slash_append_free:
  "slash \<notin> set c \<Longrightarrow> c \<noteq> [] \<Longrightarrow> double_slash (c @ s) = double_slash s"
proof (induction c)
  case (Cons a c)
  then show ?case by (cases c; cases s) auto
qed simp

lemma double_slash_join:
  assumes "list_all plain cs"
  shows "\<not> double_slash (slash # join_with ''/'' cs)"
  using assms
proof (induction cs)
  case (Cons c cs)
  then obtain a c' where c: "c = a # c'" "a \<noteq> slash" "slash \<notin> set c"
    by (cases c) (auto simp: plain_def)
  show ?case
  proof (cases "cs = []")
    case True
    then show ?thesis using c double_slash_free [of c] by simp
  next
    case False
    then have "join_with ''/'' (c # cs) = c @ slash # join_with ''/'' cs"
      by (simp add: join_with_Cons slash_def)
    moreover have "\<not> double_slash (c @ slash # join_with ''/'' cs)"
      using Cons c by (subst double_slash_append_free) auto
    ultimately show ?thesis using c by simp
  qed
qed simp

lemma normpath_single_slashes:
  assumes "startswith p ''/''"
  shows "\<not> double_slash (tl (normpath p))"
proof -
  obtain n where n: "n \<noteq> 0" "normpath p = replicate n slash @ join_with ''/'' (norm_comps True (split_on slash p))"
      "n \<le> 2"
  proof -
    have "initial_slashes p \<le> 2" by (simp add: initial_slashes_def)
    moreover have "p \<noteq> []" "initial_slashes p \<noteq> 0" using assms
      by (auto simp: startswith_iff initial_slashes_def)
    ultimately show ?thesis by (intro that [of "initial_slashes p"]) (auto simp: normpath_def Let_def)
  qed
  then have "n = 1 \<or> n = 2" by auto
  moreover note dj = double_slash_join [OF norm_comps_plain [OF split_slash_free, of p]]
  moreover have "\<not> double_slash (join_with ''/'' (norm_comps True (split_on slash p)))"
    using dj by (cases "join_with ''/'' (norm_comps True (split_on slash p))") auto
  ultimately show ?thesis by (auto simp: n(2) numeral_2_eq_2)
qed

lemma inside_prefix: "inside b p \<Longrightarrow> \<exists>s. p = b @ s"
  by (auto simp: inside_def startswith_iff)

lemma inside_unique:
  assumes "inside (b @ ''/'' @ u) p" "inside (b @ ''/'' @ v) p" "slash \<notin> set u" "slash \<notin> set v"
  shows "u = v"
proof -
  have "\<exists>r. p = b @ slash # r \<and> takeWhile (\<lambda>c. c \<noteq> slash) r = w"
    if "inside (b @ ''/'' @ w) p" "slash \<notin> set w" for w
    using that unfolding inside_def startswith_iff
  proof (elim disjE exE)
    assume "p = b @ ''/'' @ w" "slash \<notin> set w"
    then show ?thesis by (intro exI [of _ w]) (auto simp: slash_def takeWhile_eq_all_conv)
  next
    fix t assume "p = ((b @ ''/'' @ w) @ ''/'') @ t" "slash \<notin> set w"
    then show ?thesis
      by (intro exI [of _ "w @ slash # t"]) (auto simp: slash_def takeWhile_append2 takeWhile_append)
  qed
  from this [OF assms(1,3)] this [OF assms(2,4)] show ?thesis by auto
qed

section \<open>File names\<close>

lemma replace_backslash:
  "py_replace s [CHR 0x5C] ''/'' = map (\<lambda>c. if c = CHR 0x5C then slash else c) s"
proof (induction "length s" arbitrary: s)
  case (Suc n)
  then obtain c cs where "s = c # cs" by (cases s) auto
  with Suc show ?case by (auto simp: py_replace_Cons slash_def startswith_iff)
qed simp

lemma set_basename: "set (basename s) \<subseteq> set s" "slash \<notin> set (basename s)"
proof -
  have in_split: "c \<in> set s" if "p \<in> set (split_on d s)" "c \<in> set p" for p c d
    using that by (induction s arbitrary: p) (auto split: list.splits if_splits, metis+)
  have m: "basename s \<in> set (split_on slash s)" by (simp add: basename_def)
  then show "set (basename s) \<subseteq> set s" using in_split by blast
  show "slash \<notin> set (basename s)" by (rule split_on_no_sep [OF m])
qed

text \<open>What a sanitised name is, unless it is the fallback.\<close>

definition safe_name :: "string \<Rightarrow> bool" where
  "safe_name f \<longleftrightarrow> plain f \<and> CHR 0x5C \<notin> set f \<and> list_all (\<lambda>c. \<not> is_ctrl c) f \<and>
     hd f \<noteq> CHR ''.'' \<and> hd f \<noteq> CHR '' ''"

lemma sanitize_safe: "sanitize_filename name fb = fb \<or> safe_name (sanitize_filename name fb)"
proof -
  let ?r = "py_replace name [CHR 0x5C] ''/''"
  let ?f = "filter (\<lambda>c. \<not> is_ctrl c) (basename ?r)"
  let ?s = "lstrip_by (\<lambda>c. c = CHR ''.'' \<or> c = CHR '' '') ?f"
  have sub: "set ?s \<subseteq> set ?f" by (auto simp: lstrip_by_def dest: set_dropWhileD)
  have "CHR 0x5C \<notin> set ?r" by (auto simp: replace_backslash slash_def)
  then have b: "CHR 0x5C \<notin> set ?s" "slash \<notin> set ?s" "list_all (\<lambda>c. \<not> is_ctrl c) ?s"
    using sub set_basename [of ?r] by (auto simp: list_all_iff)
  have "safe_name ?s" if ne: "?s \<noteq> []"
  proof -
    obtain c t where ct: "?s = c # t" using ne by (cases ?s) auto
    with lstrip_by_hd [OF this] b show ?thesis by (auto simp: safe_name_def plain_def)
  qed
  then show ?thesis by (auto simp: sanitize_filename_def Let_def)
qed

lemma splitext_append: "fst (splitext p) @ snd (splitext p) = p"
proof -
  let ?P = "\<lambda>c. c \<noteq> CHR ''.''"
  obtain b where b: "p = rstrip_by ?P p @ b" using rstrip_by_split [of p ?P] by blast
  have "butlast (rstrip_by ?P p) = take (length (rstrip_by ?P p) - 1) p"
    by (subst (2) b) (simp add: butlast_conv_take)
  then show ?thesis by (auto simp: splitext_def Let_def)
qed

lemma path_join_plain:
  assumes "plain c" "b \<noteq> []" "\<not> endswith b ''/''"
  shows "path_join b c = b @ ''/'' @ c"
proof -
  have "\<not> startswith c ''/''" using assms(1) by (auto simp: plain_def startswith_iff slash_def)
  with assms(2,3) show ?thesis by (simp add: path_join_def)
qed

lemma downloads_dir_end: "downloads_dir cfg u \<noteq> [] \<and> \<not> endswith (downloads_dir cfg u) ''/''"
proof -
  have "last (downloads_dir cfg u) = CHR ''s''" by (simp add: downloads_dir_def)
  then show ?thesis by (auto simp: endswith_iff downloads_dir_def)
qed

text \<open>One download writes at most one file, directly in its directory.\<close>

lemma download_one_writes:
  assumes "download_one cfg api hx fid dir mb dk = (r, dk')" "plain fid" "slash \<notin> set hx"
    and dir: "dir \<noteq> []" "\<not> endswith dir ''/''"
  shows "dk' = dk \<or> (\<exists>g v. plain g \<and> dk' = dk\<lparr>contents := dict_set (contents dk) (dir @ ''/'' @ g) v\<rparr>)"
proof -
  let ?name = "\<lambda>f. if dict_has (contents dk) (path_join dir f)
      then fst (splitext f) @ ''_'' @ take 6 hx @ snd (splitext f) else f"
  have pl: "plain (?name f)" if f: "plain f" for f
  proof -
    have "slash \<notin> set (fst (splitext f))" "slash \<notin> set (snd (splitext f))"
      using f splitext_append [of f] by (metis Un_iff plain_def set_append)+
    then have "plain (fst (splitext f) @ ''_'' @ take 6 hx @ snd (splitext f))"
      using assms(3) by (auto simp: plain_def slash_def append_eq_Cons_conv dest: in_set_takeD)
    with f show ?thesis by simp
  qed
  from assms(1) have "dk' = dk \<or> (\<exists>f v. dk' = dk\<lparr>contents :=
      dict_set (contents dk) (path_join dir (?name (sanitize_filename f fid))) v\<rparr>)"
    unfolding download_one_def Let_def
    by (auto split: sum.splits json.splits prod.splits option.splits if_splits)
  moreover have "path_join dir (?name (sanitize_filename f fid)) =
      dir @ ''/'' @ ?name (sanitize_filename f fid)" "plain (?name (sanitize_filename f fid))" for f
    using sanitize_safe [of f fid] assms(2)
    by (metis pl path_join_plain dir safe_name_def)+
  ultimately show ?thesis by metis
qed

definition confined :: "string \<Rightarrow> disk \<Rightarrow> disk \<Rightarrow> bool" where
  "confined dir dk dk' \<longleftrightarrow> (\<forall>p. dict_get (contents dk') p \<noteq> dict_get (contents dk) p \<longrightarrow>
     (\<exists>g. plain g \<and> p = dir @ ''/'' @ g))"

lemma download_loop_confined:
  assumes "download_loop cfg api hx fids dir mb dk = (r, dk')" "list_all plain fids"
    "\<And>n. slash \<notin> set (hx n)" "dir \<noteq> []" "\<not> endswith dir ''/''"
  shows "confined dir dk dk'"
  using assms(1,2)
proof (induction fids arbitrary: dk r dk')
  case (Cons fid fids)
  obtain r1 d1 where one: "download_one cfg api (hx (length fids)) fid dir mb dk = (r1, d1)" by fastforce
  have c1: "confined dir dk d1"
    using download_one_writes [OF one] Cons.prems(2) assms(3-5)
    by (auto simp: confined_def split: if_split_asm)
  have rest: "confined dir dk d2" if "download_loop cfg api hx fids dir mb d1 = (r2, d2)" for r2 d2
    using Cons.IH [OF that] Cons.prems(2) c1 unfolding confined_def by (metis list.pred_inject(2))
  from Cons.prems(1) c1 rest show ?case
    by (auto simp: one split: sum.splits exn.splits prod.splits)
qed (simp add: confined_def)

lemma split_join_root: "list_all plain cs \<Longrightarrow> cs \<noteq> [] \<Longrightarrow> split_on slash (slash # join_with ''/'' cs) = [] # cs"
  by (simp add: split_join_plain)

lemma join_append:
  "xs \<noteq> [] \<Longrightarrow> ys \<noteq> [] \<Longrightarrow> join_with s (xs @ ys) = join_with s xs @ s @ join_with s ys"
proof (induction xs)
  case (Cons a xs)
  then show ?case by (cases "xs = []") (simp_all add: join_with_Cons)
qed simp

lemma normpath_plain:
  assumes "list_all plain cs" "cs \<noteq> []"
  shows "normpath (slash # join_with ''/'' cs) = slash # join_with ''/'' cs"
proof -
  obtain c ct where cs: "cs = c # ct" using assms(2) by (cases cs) auto
  with assms(1) obtain a c' where c: "c = a # c'" "a \<noteq> slash" by (cases c) (auto simp: plain_def)
  have "\<not> startswith (join_with ''/'' cs) ''/''"
    using c by (cases ct) (auto simp: cs startswith_iff slash_def)
  then have i: "initial_slashes (slash # join_with ''/'' cs) = 1"
    by (auto simp: initial_slashes_def startswith_iff slash_def)
  have e: "norm_push True [] [] = []" by (simp add: norm_push_def)
  have "norm_comps True ([] # cs) = cs"
    using norm_foldl_id [OF assms(1), of True "[]"] by (simp add: norm_comps_def e)
  then show ?thesis
    using assms(2) by (simp add: normpath_def i split_join_plain [OF assms(1)] Let_def)
qed

section \<open>Properties\<close>

text \<open>
  Property C11. Tenant containment of agent-controlled paths: with an absolute workspace base,
  a path \<open>container_path_to_host\<close> accepts lies inside the user's own directory (as written and
  after resolving symlinks), has no dot component, and lies in no other user's directory.
\<close>

theorem accepted_path_is_contained:
  assumes "startswith (workspace_base_path cfg) ''/''"
    and "container_path_to_host cfg realpath cp u = p" "p \<noteq> ''''"
  shows "inside (workspace_base_path cfg @ ''/'' @ u) p \<and>
    inside (realpath (workspace_base_path cfg @ ''/'' @ u)) (realpath p) \<and>
    (\<forall>c \<in> set (split_on slash p). c \<noteq> ''.'' \<and> c \<noteq> ''..'') \<and>
    (\<forall>v. slash \<notin> set u \<longrightarrow> slash \<notin> set v \<longrightarrow> v \<noteq> u \<longrightarrow> \<not> inside (workspace_base_path cfg @ ''/'' @ v) p)"
proof -
  let ?base = "workspace_base_path cfg @ ''/'' @ u"
  have p: "p = normpath (path_join ?base (drop (length openclaw_root) cp))"
    and ins: "inside ?base p" "inside (realpath ?base) (realpath p)"
    using assms(2,3) by (auto simp: container_path_to_host_def Let_def split: if_splits)
  have "startswith (path_join ?base r) ''/''" for r
    using assms(1) by (auto simp: path_join_def startswith_iff)
  then have "\<forall>c \<in> set (split_on slash p). c \<noteq> ''.'' \<and> c \<noteq> ''..''"
    using normpath_no_dots unfolding p by (fastforce simp: plain_def)
  with ins inside_unique show ?thesis by blast
qed

theorem accepted_path_is_contained_witness:
  "inside ''/configs/u1''
     (container_path_to_host default_settings id ''/home/node/.openclaw/workspace/../output/r.pdf'' ''u1'')"
proof -
  let ?cp = "''/home/node/.openclaw/workspace/../output/r.pdf''"
  have b: "workspace_base_path default_settings = ''/configs''" by simp
  have ne: "container_path_to_host default_settings id ?cp ''u1'' \<noteq> ''''" by code_simp
  have s: "startswith (workspace_base_path default_settings) ''/''" by (simp add: startswith_iff)
  from accepted_path_is_contained [OF s refl ne] show ?thesis by (simp add: b)
qed

text \<open>
  Legitimate paths are not rejected: for a normalised absolute base, a plain user
  directory, and a path of plain components below the container root, the host path is that
  path below the user's directory, provided the symlinks on disk stay inside it.
\<close>

theorem legitimate_path_accepted:
  assumes "workspace_base_path cfg = ''/'' @ join_with ''/'' bs" "bs \<noteq> []" "list_all plain bs"
    and "plain u" "list_all plain cs" "cs \<noteq> []"
    and "inside (realpath (workspace_base_path cfg @ ''/'' @ u))
      (realpath (workspace_base_path cfg @ ''/'' @ u @ ''/'' @ join_with ''/'' cs))"
  shows "container_path_to_host cfg realpath (openclaw_root @ join_with ''/'' cs) u =
    workspace_base_path cfg @ ''/'' @ u @ ''/'' @ join_with ''/'' cs"
proof -
  let ?base = "workspace_base_path cfg @ ''/'' @ u"
  let ?rel = "join_with ''/'' cs"
  obtain c ct where cs: "cs = c # ct" using assms(6) by (cases cs) auto
  with assms(5) obtain a c' where c: "c = a # c'" "a \<noteq> slash" by (cases c) (auto simp: plain_def)
  have "\<not> startswith ?rel ''/''" using c by (cases ct) (auto simp: cs startswith_iff slash_def)
  moreover have "u \<noteq> []" "last u \<noteq> slash" using assms(4) last_in_set [of u] unfolding plain_def by metis+
  then have "last ?base \<noteq> slash" by simp
  then have "\<not> endswith ?base ''/''" unfolding endswith_iff by (metis last_snoc slash_def)
  ultimately have j: "path_join ?base ?rel = ?base @ ''/'' @ ?rel" by (simp add: path_join_def)
  have "?base @ ''/'' @ ?rel = slash # join_with ''/'' (bs @ [u] @ cs)"
    using assms(1,2,6) by (simp add: join_append slash_def join_with_Cons)
  then have n: "normpath (?base @ ''/'' @ ?rel) = ?base @ ''/'' @ ?rel"
    using normpath_plain [of "bs @ [u] @ cs"] assms(3,4,5) by simp
  have i: "inside ?base (?base @ ''/'' @ ?rel)" by (simp add: inside_def startswith_iff)
  show ?thesis
    using assms(7) n i j by (simp add: container_path_to_host_def Let_def)
qed

theorem legitimate_path_accepted_witness:
  "container_path_to_host default_settings id ''/home/node/.openclaw/workspace/output/r.pdf'' ''u1'' =
     ''/configs/u1/workspace/output/r.pdf''"
proof -
  have p: "list_all plain [''configs'']" "plain ''u1''" "list_all plain [''workspace'', ''output'', ''r.pdf'']"
    by (atomize (full), code_simp)
  have b: "workspace_base_path default_settings = ''/'' @ join_with ''/'' [''configs'']" by simp
  have i: "inside (id (workspace_base_path default_settings @ ''/'' @ ''u1''))
      (id (workspace_base_path default_settings @ ''/'' @ ''u1'' @ ''/'' @
         join_with ''/'' [''workspace'', ''output'', ''r.pdf'']))"
    by code_simp
  from legitimate_path_accepted [where realpath = id, OF b _ p(1) p(2) p(3) _ i] show ?thesis
    by (simp add: openclaw_root_def)
qed

text \<open>
  The base must be written without a trailing slash: with
  \<open>WORKSPACE_BASE_PATH\<close> ending in one (other than the root itself), every path is rejected,
  for every user.
\<close>

theorem trailing_slash_rejects_everything:
  assumes "workspace_base_path cfg = q @ ''/''" "startswith q ''/''"
  shows "container_path_to_host cfg realpath cp u = ''''"
proof -
  let ?base = "workspace_base_path cfg @ ''/'' @ u"
  let ?c = "normpath (path_join ?base (drop (length openclaw_root) cp))"
  obtain t where t: "q = slash # t" using assms(2) by (auto simp: startswith_iff slash_def)
  have "startswith (path_join ?base r) ''/''" for r
    using assms by (auto simp: path_join_def startswith_iff)
  then have "\<not> double_slash (tl ?c)" by (rule normpath_single_slashes)
  moreover have "double_slash (tl ?c)" if ins: "inside ?base ?c"
  proof -
    obtain s where "?c = ?base @ s" using inside_prefix [OF ins] by blast
    then have "tl ?c = t @ slash # slash # (u @ s)" using assms(1) by (simp add: t slash_def)
    then show ?thesis by (simp add: double_slash_mid)
  qed
  ultimately have "\<not> inside ?base ?c" by blast
  then show ?thesis by (simp add: container_path_to_host_def Let_def)
qed

theorem trailing_slash_rejects_everything_witness:
  "container_path_to_host (default_settings\<lparr>workspace_base_path := ''/configs/''\<rparr>) id
     ''/home/node/.openclaw/workspace/output/r.pdf'' ''u1'' = ''''"
  by (rule trailing_slash_rejects_everything [of _ "''/configs''"]) (simp_all add: startswith_iff)

text \<open>
  Uploads from a chat stay in the user's download directory: whatever names and
  metadata the Mattermost API returns, \<open>download_attachments\<close> changes no file outside
  \<open><base>/<uuid>/workspace/downloads/\<close>, and every file it writes is an entry of that directory
  itself.
\<close>

theorem downloads_are_confined:
  assumes "list_all plain file_ids" "\<And>n. slash \<notin> set (hx n)"
    and "download_attachments cfg api hx file_ids uuid dk = (r, dk')"
  shows "confined (downloads_dir cfg uuid) dk dk'"
proof (cases "file_ids = []")
  case True
  with assms(3) show ?thesis by (simp add: download_attachments_def confined_def)
next
  case False
  with assms(3) have "download_loop cfg api hx file_ids (downloads_dir cfg uuid)
      (attachment_max_size_mb cfg * 1024 * 1024) dk = (r, dk')"
    by (simp add: download_attachments_def)
  from download_loop_confined [OF this assms(1,2)] downloads_dir_end [of cfg uuid]
  show ?thesis by blast
qed

definition toy_api :: files_api where
  "toy_api = \<lparr>
     file_info = (\<lambda>f. Ok (JObj [(''name'', JStr ''../../etc/cron.d/x''), (''size'', JInt 3)])),
     file_stream = (\<lambda>f. Ok ([''a'', ''bc''], None)),
     file_upload = (\<lambda>c n b. Raise (HTTPError ''503''))\<rparr>"

theorem downloads_are_confined_witness:
  "confined (downloads_dir default_settings ''u1'') \<lparr>contents = [], unwritable = []\<rparr>
     (snd (download_attachments default_settings toy_api (\<lambda>_. ''abcdef'') [''f1''] ''u1''
        \<lparr>contents = [], unwritable = []\<rparr>))"
proof (rule downloads_are_confined [OF _ _ prod.collapse [symmetric]])
  show "list_all plain [''f1'']" by code_simp
  show "\<And>n :: nat. slash \<notin> set ((\<lambda>_. ''abcdef'') n)" by (simp add: slash_def)
qed

end
