(* ===== verification/Urls.thy ===== *)
theory Urls
  imports Settings Json
begin

text \<open>
  How the standard library reads a URL (\<open>urllib.parse.urlparse\<close>, as far as the program uses it:
  scheme and host), and the two guards built on it: the \<open>serviceUrl\<close> whitelist and the check of
  the bearer token of \<open>src/services/teams_auth.py\<close>. Unicode tables (the NFKC check of a host that
  is not ASCII) and the JWT library are parameters.
\<close>

section \<open>IP literals\<close>

definition ipv4_octet :: "string \<Rightarrow> bool" where
  "ipv4_octet s \<longleftrightarrow> s \<noteq> [] \<and> list_all is_digit s \<and> length s \<le> 3 \<and>
     (length s > 1 \<longrightarrow> hd s \<noteq> CHR ''0'') \<and>
     (case digits_val 0 s of Some n \<Rightarrow> n \<le> 255 | None \<Rightarrow> False)"

definition ipv4_ok :: "string \<Rightarrow> bool" where
  "ipv4_ok s = (let os = split_on (CHR ''.'') s in length os = 4 \<and> list_all ipv4_octet os)"

definition hextet_ok :: "string \<Rightarrow> bool" where
  "hextet_ok s \<longleftrightarrow> s \<noteq> [] \<and> length s \<le> 4 \<and> list_all is_hex s"

text \<open>
  \<open>IPv6Address\<close>: three to nine pieces, the last one perhaps a dotted quad (it counts for two),
  at most one inner empty piece (the \<open>::\<close>), which stands for at least one group.
\<close>

definition ipv6_parts :: "string \<Rightarrow> string list option" where
  "ipv6_parts s =
     (let parts = split_on (CHR '':'') s in
      if length parts < 3 then None
      else if CHR ''.'' \<in> set (last parts)
      then (if ipv4_ok (last parts) then Some (butlast parts @ [''0'', ''0'']) else None)
      else Some parts)"

definition inner_empty :: "string list \<Rightarrow> nat list" where
  "inner_empty parts = filter (\<lambda>i. parts ! i = []) [1..<length parts - 1]"

definition ipv6_groups_ok :: "string list \<Rightarrow> bool" where
  "ipv6_groups_ok parts =
     (if length parts > 9 then False
      else case inner_empty parts of
        [] \<Rightarrow> length parts = 8 \<and> list_all hextet_ok parts
      | [k] \<Rightarrow>
          let hi = take k parts; lo = drop (Suc k) parts;
              hi' = (if hd parts = [] then tl hi else hi);
              lo' = (if last parts = [] then butlast lo else lo)
          in (hd parts = [] \<longrightarrow> hi' = []) \<and> (last parts = [] \<longrightarrow> lo' = []) \<and>
             length hi' + length lo' < 8 \<and> list_all hextet_ok (hi' @ lo')
      | _ \<Rightarrow> False)"

definition before :: "char \<Rightarrow> string \<Rightarrow> string" where
  "before d s = takeWhile (\<lambda>c. c \<noteq> d) s"

definition after :: "char \<Rightarrow> string \<Rightarrow> string" where
  "after d s = drop 1 (dropWhile (\<lambda>c. c \<noteq> d) s)"

definition ipv6_ok :: "string \<Rightarrow> bool" where
  "ipv6_ok s =
     ((if CHR ''%'' \<in> set s
       then after (CHR ''%'') s \<noteq> [] \<and> CHR ''%'' \<notin> set (after (CHR ''%'') s) else True) \<and>
      (case ipv6_parts (before (CHR ''%'') s) of None \<Rightarrow> False | Some ps \<Rightarrow> ipv6_groups_ok ps))"

definition ipvfuture_ok :: "string \<Rightarrow> bool" where
  "ipvfuture_ok s =
     (let v = tl s in before (CHR ''.'') v \<noteq> [] \<and> list_all is_hex (before (CHR ''.'') v) \<and>
      CHR ''.'' \<in> set v \<and> after (CHR ''.'') v \<noteq> [])"

definition bracketed_host_ok :: "string \<Rightarrow> bool" where
  "bracketed_host_ok h = (if startswith h ''v'' then ipvfuture_ok h else ipv6_ok h)"

section \<open>urlparse\<close>

definition url_clean :: "string \<Rightarrow> string" where
  "url_clean url =
     filter (\<lambda>c. code c \<notin> {9, 10, 13}) (lstrip_by (\<lambda>c. code c \<le> 32) url)"

definition scheme_char :: "char \<Rightarrow> bool" where
  "scheme_char c \<longleftrightarrow> is_alpha c \<or> is_digit c \<or> c \<in> {CHR ''+'', CHR ''-'', CHR ''.''}"

definition split_scheme :: "string \<Rightarrow> string \<times> string" where
  "split_scheme url =
     (let s = before (CHR '':'') url in
      if CHR '':'' \<in> set url \<and> s \<noteq> [] \<and> is_alpha (hd s) \<and> list_all scheme_char s
      then (py_lower s, after (CHR '':'') url) else ('''', url))"

definition ends_netloc :: "char \<Rightarrow> bool" where
  "ends_netloc c \<longleftrightarrow> c \<in> {CHR ''/'', CHR ''?'', CHR 0x23}"

definition netloc_of :: "string \<Rightarrow> string" where
  "netloc_of rest = (if startswith rest ''//'' then takeWhile (\<lambda>c. \<not> ends_netloc c) (drop 2 rest) else '''')"

text \<open>What follows the last \<open>@\<close>: host and port; a bracket opens an IP literal.\<close>

definition hostinfo_of :: "string \<Rightarrow> string" where
  "hostinfo_of netloc = last (split_on (CHR ''@'') netloc)"

definition brackets_ok :: "string \<Rightarrow> bool" where
  "brackets_ok netloc =
     (let opens = CHR ''['' \<in> set netloc; closes = CHR '']'' \<in> set netloc; h = hostinfo_of netloc in
      if opens \<noteq> closes then False
      else if \<not> opens then True
      else if CHR ''['' \<in> set h then
        let inner = after (CHR ''['') h; port = after (CHR '']'') inner in
        before (CHR ''['') h = [] \<and> (port = [] \<or> startswith port '':'') \<and>
        bracketed_host_ok (before (CHR '']'') inner)
      else bracketed_host_ok (before (CHR '':'') h))"

definition lower_host :: "string \<Rightarrow> string" where
  "lower_host h = py_lower (before (CHR ''%'') h) @ dropWhile (\<lambda>c. c \<noteq> CHR ''%'') h"

definition hostname_of :: "string \<Rightarrow> string option" where
  "hostname_of netloc =
     (let h = hostinfo_of netloc;
          name = (if CHR ''['' \<in> set h then before (CHR '']'') (after (CHR ''['') h)
                  else before (CHR '':'') h)
      in if name = [] then None else Some (lower_host name))"

record parsed_url =
  url_scheme :: string
  url_netloc :: string

definition hostname :: "parsed_url \<Rightarrow> string option" where
  "hostname u = hostname_of (url_netloc u)"

definition urlparse :: "(string \<Rightarrow> bool) \<Rightarrow> string \<Rightarrow> parsed_url result" where
  "urlparse nfkc_ok url =
     (case split_scheme (url_clean url) of (scheme, rest) \<Rightarrow>
      let netloc = netloc_of rest in
      if \<not> brackets_ok netloc then Raise PyValueError
      else if list_ex (\<lambda>c. code c \<ge> 128) netloc \<and> \<not> nfkc_ok netloc then Raise PyValueError
      else Ok \<lparr>url_scheme = scheme, url_netloc = netloc\<rparr>)"

section \<open>Guards of the Teams webhook\<close>

definition is_allowed_service_url :: "settings \<Rightarrow> (string \<Rightarrow> bool) \<Rightarrow> string \<Rightarrow> bool result" where
  "is_allowed_service_url cfg nfkc_ok service_url =
     bind_result (urlparse nfkc_ok service_url) (\<lambda>parsed.
       if url_scheme parsed \<noteq> ''https'' then Ok False
       else let h = py_lower (case hostname parsed of None \<Rightarrow> '''' | Some h \<Rightarrow> h) in
         if h = '''' then Ok False
         else Ok (list_ex (\<lambda>allowed. h = allowed \<or> endswith h (''.'' @ allowed))
           (map py_lower (split_csv (teams_allowed_service_url_hosts cfg)))))"

text \<open>
  The JWT library: fetching the signing key of a token from a key-set URL and decoding the token
  with it (RS256, audience, issuers, expiry required) succeeds or raises.
\<close>

type_synonym jwt_lib = "string \<Rightarrow> string \<Rightarrow> string \<Rightarrow> string list \<Rightarrow> unit result"

fun try_jwks :: "jwt_lib \<Rightarrow> string \<Rightarrow> string \<Rightarrow> string list \<Rightarrow> string list \<Rightarrow> unit result" where
  "try_jwks jwt token audience issuers [] = Raise (TeamsAuthError ''Token verification failed'')"
| "try_jwks jwt token audience issuers (url # urls) =
     (case jwt url token audience issuers of
        Inr _ \<Rightarrow> Ok ()
      | Inl e \<Rightarrow> try_jwks jwt token audience issuers urls)"

definition verify_inbound_token :: "settings \<Rightarrow> jwt_lib \<Rightarrow> string option \<Rightarrow> unit result" where
  "verify_inbound_token cfg jwt authorization =
     (let audience = (if py_strip (teams_jwt_audience cfg) \<noteq> '''' then py_strip (teams_jwt_audience cfg)
                      else py_strip (teams_app_id cfg)) in
      if audience = '''' then Raise (TeamsAuthError ''Teams inbound verification disabled'')
      else case authorization of
        None \<Rightarrow> Raise (TeamsAuthError ''Missing Bearer token'')
      | Some auth \<Rightarrow>
          if \<not> startswith auth ''Bearer '' then Raise (TeamsAuthError ''Missing Bearer token'')
          else let token = py_strip (drop (length ''Bearer '') auth) in
            if token = '''' then Raise (TeamsAuthError ''Empty Bearer token'')
            else try_jwks jwt token audience (split_csv (teams_allowed_issuers cfg))
              (split_csv (teams_jwks_urls cfg)))"

section \<open>Shape of an accepted URL\<close>

lemma before_after: "d \<in> set s \<Longrightarrow> s = before d s @ d # after d s"
proof -
  assume "d \<in> set s"
  then have "dropWhile (\<lambda>c. c \<noteq> d) s \<noteq> []" by (simp add: dropWhile_eq_Nil_conv)
  then obtain x xs where "dropWhile (\<lambda>c. c \<noteq> d) s = x # xs" by (cases "dropWhile (\<lambda>c. c \<noteq> d) s") auto
  moreover from this have "x = d" by (auto simp: dropWhile_eq_Cons_conv)
  ultimately show ?thesis
    unfolding before_def after_def by (metis drop_Suc_Cons One_nat_def drop0 takeWhile_dropWhile_id)
qed

lemma before_free: "d \<notin> set (before d s)"
  by (auto simp: before_def dest: set_takeWhileD)

lemma before_id: "d \<notin> set s \<Longrightarrow> before d s = s"
  by (auto simp: before_def takeWhile_eq_all_conv)

lemma urlparse_shape:
  assumes "urlparse nfkc_ok url = Ok u" "url_netloc u \<noteq> ''''"
  shows "\<exists>scheme rest. url_clean url = scheme @ (if scheme = '''' then '''' else '':'') @ ''//'' @ url_netloc u @ rest \<and>
     url_scheme u = py_lower scheme \<and> list_all (\<lambda>c. \<not> ends_netloc c) (url_netloc u) \<and>
     (rest = [] \<or> ends_netloc (hd rest))"
proof -
  let ?s = "url_clean url"
  obtain scheme rest where sp: "split_scheme ?s = (scheme, rest)" by fastforce
  have u: "u = \<lparr>url_scheme = scheme, url_netloc = netloc_of rest\<rparr>"
    using assms(1) sp by (simp add: urlparse_def Let_def split: if_split_asm)
  then have n: "startswith rest ''//''" using assms(2) by (auto simp: netloc_of_def split: if_split_asm)
  let ?r = "dropWhile (\<lambda>c. \<not> ends_netloc c) (drop 2 rest)"
  have r: "rest = ''//'' @ netloc_of rest @ ?r"
    proof -
    have "netloc_of rest @ ?r = drop 2 rest" using n by (simp add: netloc_of_def)
    moreover have "''//'' @ drop 2 rest = rest" using startswith_drop [OF n] by (simp add: numeral_2_eq_2)
    ultimately show ?thesis by metis
  qed
  have nl: "list_all (\<lambda>c. \<not> ends_netloc c) (netloc_of rest)"
    by (auto simp: netloc_of_def list_all_iff dest: set_takeWhileD)
  have nr: "?r = [] \<or> ends_netloc (hd ?r)"
    using hd_dropWhile [of "\<lambda>c. \<not> ends_netloc c" "drop 2 rest"] by blast
  consider "scheme = ''''" "rest = ?s"
    | "scheme = py_lower (before (CHR '':'') ?s)" "rest = after (CHR '':'') ?s" "CHR '':'' \<in> set ?s"
      "before (CHR '':'') ?s \<noteq> ''''"
  proof (cases "CHR '':'' \<in> set ?s \<and> before (CHR '':'') ?s \<noteq> [] \<and> is_alpha (hd (before (CHR '':'') ?s)) \<and>
      list_all scheme_char (before (CHR '':'') ?s)")
    case True
    then have "(scheme, rest) = (py_lower (before (CHR '':'') ?s), after (CHR '':'') ?s)"
      using sp unfolding split_scheme_def Let_def by presburger
    with True that(2) show ?thesis by blast
  next
    case False
    then have "(scheme, rest) = ([], ?s)" using sp unfolding split_scheme_def Let_def by presburger
    with that(1) show ?thesis by blast
  qed
  then show ?thesis
  proof cases
    case 1
    have "?s = ''//'' @ netloc_of rest @ ?r" unfolding 1(2) [symmetric] by (rule r)
    with 1(1) u nl nr show ?thesis
      by (intro exI [of _ "[]"] exI [of _ ?r]) (simp add: py_lower_def)
  next
    case 2
    have "?s = before (CHR '':'') ?s @ '':'' @ rest"
      unfolding 2(2) using before_after [OF 2(3)] by simp
    also have "rest = ''//'' @ netloc_of rest @ ?r" by (rule r)
    finally have "?s = before (CHR '':'') ?s @ '':'' @ ''//'' @ netloc_of rest @ ?r" .
    with 2(1,4) u nl nr show ?thesis
      by (intro exI [of _ "before (CHR '':'') ?s"] exI [of _ ?r]) simp
  qed
qed

lemma split_on_last:
  "\<exists>a. s = a @ last (split_on d s) \<and> (a = [] \<or> last a = d)" "d \<notin> set (last (split_on d s))"
proof -
  show "d \<notin> set (last (split_on d s))" by (rule split_on_no_sep [of _ d s]) simp
  have "butlast (split_on d s) @ [last (split_on d s)] = split_on d s" by simp
  then have "s = join_with [d] (butlast (split_on d s) @ [last (split_on d s)])" by simp
  moreover have "join_with [d] (xs @ [x]) = concat (map (\<lambda>y. y @ [d]) xs) @ x" for xs x
    by (induction xs) (simp_all add: join_with_Cons)
  moreover have "concat (map (\<lambda>y. y @ [d]) xs) = [] \<or> last (concat (map (\<lambda>y. y @ [d]) xs)) = d" for xs
    by (induction xs) auto
  ultimately show "\<exists>a. s = a @ last (split_on d s) \<and> (a = [] \<or> last a = d)" by metis
qed

text \<open>
  The host part of an authority: user info, the name, and what may follow it. For a name that
  is not an IP literal nothing follows but a port.
\<close>

lemma hostname_shape:
  assumes "hostname_of netloc = Some h" "brackets_ok netloc" "CHR ''['' \<notin> set netloc"
  shows "\<exists>user name port. netloc = user @ name @ port \<and> (user = [] \<or> last user = CHR ''@'') \<and>
     (port = [] \<or> hd port = CHR '':'') \<and> CHR ''@'' \<notin> set (name @ port) \<and> CHR '':'' \<notin> set name \<and>
     h = lower_host name"
proof -
  let ?i = "hostinfo_of netloc"
  obtain user where user: "netloc = user @ ?i" "user = [] \<or> last user = CHR ''@''"
    using split_on_last(1) [of netloc "CHR ''@''"] unfolding hostinfo_of_def by blast
  have at: "CHR ''@'' \<notin> set ?i" unfolding hostinfo_of_def by (rule split_on_last)
  have "CHR ''['' \<notin> set ?i" using user(1) assms(3) by (metis Un_iff set_append)
  then have h: "h = lower_host (before (CHR '':'') ?i)"
    using assms(1) by (simp add: hostname_of_def Let_def split: if_split_asm)
  let ?p = "dropWhile (\<lambda>c. c \<noteq> CHR '':'') ?i"
  have i: "?i = before (CHR '':'') ?i @ ?p" by (simp add: before_def)
  have p: "?p = [] \<or> hd ?p = CHR '':''" using hd_dropWhile [of "\<lambda>c. c \<noteq> CHR '':''" ?i] by blast
  have "netloc = user @ before (CHR '':'') ?i @ ?p" using user(1) i by metis
  with user(2) p h before_free at i show ?thesis by metis
qed
lemma lower_lower_host [simp]: "py_lower (lower_host n) = py_lower n"
proof -
  have "before (CHR ''%'') n @ dropWhile (\<lambda>c. c \<noteq> CHR ''%'') n = n" by (simp add: before_def)
  then have "py_lower n = py_lower (before (CHR ''%'') n) @ py_lower (dropWhile (\<lambda>c. c \<noteq> CHR ''%'') n)"
    unfolding py_lower_def by (metis map_append)
  moreover have "py_lower (a @ b) = py_lower a @ py_lower b" for a b by (simp add: py_lower_def)
  ultimately show ?thesis by (simp add: lower_host_def)
qed

lemma url_clean_subset: "set (url_clean url) \<subseteq> set url"
  by (auto simp: url_clean_def lstrip_by_def dest: set_dropWhileD)

section \<open>Properties\<close>



text \<open>
  An accepted bearer token was accepted by the JWT library for a configured key set, for the
  configured audience and issuers.
\<close>

lemma try_jwks_ok: "try_jwks jwt token aud iss urls = Ok () \<Longrightarrow> \<exists>u \<in> set urls. jwt u token aud iss = Ok ()"
  by (induction urls) (auto split: sum.splits)

lemma verified_token:
  assumes "verify_inbound_token cfg jwt authorization = Ok ()"
  shows "\<exists>auth token audience. authorization = Some auth \<and> startswith auth ''Bearer '' \<and>
    token = py_strip (drop (length ''Bearer '') auth) \<and> token \<noteq> [] \<and> audience \<noteq> [] \<and>
    audience \<in> {py_strip (teams_jwt_audience cfg), py_strip (teams_app_id cfg)} \<and>
    (\<exists>u \<in> set (split_csv (teams_jwks_urls cfg)).
       jwt u token audience (split_csv (teams_allowed_issuers cfg)) = Ok ())"
proof -
  define aud where "aud = (if py_strip (teams_jwt_audience cfg) \<noteq> [] then py_strip (teams_jwt_audience cfg)
    else py_strip (teams_app_id cfg))"
  note d = assms [unfolded verify_inbound_token_def Let_def, folded aud_def]
  obtain auth where a: "authorization = Some auth" "aud \<noteq> []" "startswith auth ''Bearer ''"
    using d by (cases authorization) (auto split: if_split_asm)
  moreover define token where "token = py_strip (drop (length ''Bearer '') auth)"
  ultimately have "token \<noteq> []"
    "try_jwks jwt token aud (split_csv (teams_allowed_issuers cfg)) (split_csv (teams_jwks_urls cfg)) = Ok ()"
    using d by (auto split: if_split_asm)
  with try_jwks_ok [OF this(2)] a show ?thesis
    by (intro exI [of _ auth] exI [of _ token] exI [of _ aud]) (simp add: token_def aud_def)
qed

end
