(* ===== verification/Provisioner.thy ===== *)
theory Provisioner
  imports MappingStorage FilePaths Urls OpenClawAuth
begin

text \<open>
  Auto-provisioning (\<open>src/services/provisioner.py\<close>): the drivers, the check of what a driver
  returns, seeding the workspace from the template, binding the instance. The orchestrator's
  answer, the template directory and a fresh UUID are parameters. Directories exist implicitly.
\<close>

section \<open>UUID texts\<close>

text \<open>
  \<open>uuid.UUID(s)\<close> drops \<open>urn:\<close>, \<open>uuid:\<close>, outer braces and hyphens, and wants 32 characters that
  \<open>int(hex, 16)\<close> reads: white space around, a sign, a \<open>0x\<close>, single underscores between digits.
  (\<open>int\<close> also reads decimal digits of other scripts; the model does not.)
\<close>

definition uuid_hex :: "string \<Rightarrow> string" where
  "uuid_hex s =
     py_replace (strip_by (\<lambda>c. c \<in> {CHR 0x7B, CHR 0x7D}) (py_replace (py_replace s ''urn:'' []) ''uuid:'' [])) ''-'' []"

fun hex_body :: "bool \<Rightarrow> string \<Rightarrow> bool" where
  "hex_body after_digit [] = after_digit"
| "hex_body after_digit (c # cs) =
     (if is_hex c then hex_body True cs
      else if c = CHR ''_'' \<and> after_digit then hex_body False cs else False)"

definition int_base16_ok :: "string \<Rightarrow> bool" where
  "int_base16_ok s =
     (let t = py_strip s;
          u = (if startswith t ''+'' \<or> startswith t ''-'' then drop 1 t else t)
      in if startswith u ''0x'' \<or> startswith u ''0X''
         then hex_body False (if startswith (drop 2 u) ''_'' then drop 3 u else drop 2 u)
         else hex_body False u)"

definition valid_uuid :: "string \<Rightarrow> bool" where
  "valid_uuid s \<longleftrightarrow> py_len (uuid_hex s) = 32 \<and> int_base16_ok (uuid_hex s)"

section \<open>Vetting what a driver returned\<close>

definition provisioning_allowlist :: "settings \<Rightarrow> string list" where
  "provisioning_allowlist cfg = map py_lower (split_csv (provisioning_allowed_instance_hosts cfg))"

definition validate_provisioned_target ::
    "settings \<Rightarrow> (string \<Rightarrow> bool) \<Rightarrow> json \<Rightarrow> json \<Rightarrow> (string \<times> string) result" where
  "validate_provisioned_target cfg nfkc_ok uuid_j url_j =
     (case jstr uuid_j of
        None \<Rightarrow> Raise PyAttributeError
      | Some uuid \<Rightarrow>
          if \<not> valid_uuid uuid
          then Raise (ProvisioningError (''Provisioning returned invalid instance_uuid: '' @ repr_str uuid))
          else case jstr url_j of
            None \<Rightarrow> Raise PyAttributeError
          | Some url \<Rightarrow>
              bind_result (urlparse nfkc_ok url) (\<lambda>parsed.
              if url_scheme parsed \<notin> {''ws'', ''wss''}
              then Raise (ProvisioningError (''Instance URL scheme not allowed: '' @
                repr_str (url_scheme parsed) @ '' (expected ws/wss)''))
              else case hostname parsed of
                None \<Rightarrow> Raise (ProvisioningError ''Instance URL has no host component'')
              | Some h \<Rightarrow>
                  if provisioning_allowlist cfg \<noteq> [] \<and> py_lower h \<notin> set (provisioning_allowlist cfg)
                  then Raise (ProvisioningError (''Instance URL host '' @ repr_str h @
                    '' is not in the PROVISIONING_ALLOWED_INSTANCE_HOSTS allowlist''))
                  else Ok (uuid, url)))"

section \<open>Drivers\<close>

record driver_answer =
  da_uuid :: json
  da_url :: json
  da_credentials :: "json list"
  da_role :: json
  da_seeded :: bool

text \<open>A template file: its directory relative to the template root, its name, its body as read.\<close>

record template_file =
  tf_dir :: string
  tf_name :: string
  tf_body :: string
  tf_is_text :: bool

record provision_env =
  pv_uuid4 :: string
  pv_post :: "string \<Rightarrow> json \<Rightarrow> (string \<times> string) list \<Rightarrow> json result"
  pv_template :: "template_file list option"
  pv_nfkc :: "string \<Rightarrow> bool"

text \<open>\<open>s[:n]\<close>, by code points.\<close>

fun py_take :: "nat \<Rightarrow> string \<Rightarrow> string" where
  "py_take n [] = []"
| "py_take n (c # cs) =
     (if 128 \<le> code c \<and> code c < 192 then c # py_take n cs
      else case n of 0 \<Rightarrow> [] | Suc m \<Rightarrow> c # py_take m cs)"

definition provision_mock :: "provision_env \<Rightarrow> string \<Rightarrow> driver_answer" where
  "provision_mock env user_id = \<lparr>da_uuid = JStr (pv_uuid4 env),
     da_url = JStr ''ws://localhost:18789/ws'',
     da_credentials = [JStr (''dev-mock-'' @ py_take 8 user_id), JStr ''mock-public-key-b64'',
       JStr ''mock-private-key-b64'', JStr ''mock-device-token'', JStr ''mock-gateway-token''],
     da_role = JNull, da_seeded = False\<rparr>"

definition webhook_answer :: "provision_env \<Rightarrow> json \<Rightarrow> driver_answer result" where
  "webhook_answer env data =
     bind_result (jget data ''instance_uuid'') (\<lambda>uuid.
     bind_result (jget data ''instance_url'') (\<lambda>url.
     bind_result (jget_or data ''credentials'' (JObj [])) (\<lambda>creds.
     if \<not> truthy url then Raise (ProvisioningError (''Webhook payload missing '' @ repr_str ''instance_url''))
     else
       bind_result (jget_or creds ''device_id'' (JStr '''')) (\<lambda>c1.
       bind_result (jget_or creds ''public_key_b64'' (JStr '''')) (\<lambda>c2.
       bind_result (jget_or creds ''private_key_b64'' (JStr '''')) (\<lambda>c3.
       bind_result (jget_or creds ''device_token'' (JStr '''')) (\<lambda>c4.
       bind_result (jget_or creds ''gateway_token'' (JStr '''')) (\<lambda>c5.
       bind_result (jget data ''role'') (\<lambda>r.
       bind_result (jget data ''workspace_seeded'') (\<lambda>seeded.
         Ok \<lparr>da_uuid = jor uuid (JStr (pv_uuid4 env)), da_url = url,
             da_credentials = [c1, c2, c3, c4, c5], da_role = r,
             da_seeded = (seeded = JBool True)\<rparr>))))))))))"

definition provision_webhook ::
    "settings \<Rightarrow> provision_env \<Rightarrow> string \<Rightarrow> string \<Rightarrow> driver_answer result" where
  "provision_webhook cfg env provider user_id =
     (if provisioning_webhook_url cfg = []
      then Raise (ProvisioningError ''PROVISIONING_WEBHOOK_URL is not configured'')
      else
        let headers = (''Content-Type'', ''application/json'') #
              (if provisioning_webhook_token cfg = [] then []
               else [(''Authorization'', ''Bearer '' @ provisioning_webhook_token cfg)]);
            payload = JObj [(''provider'', JStr provider), (''provider_user_id'', JStr user_id),
              (''app_user_id'', JStr (provider @ '':'' @ user_id))]
        in case bind_result (pv_post env (provisioning_webhook_url cfg) payload headers) (webhook_answer env) of
             Inr a \<Rightarrow> Ok a
           | Inl e \<Rightarrow> Raise (ProvisioningError (''Failed to provision instance via webhook: '' @ exn_text e)))"

section \<open>Seeding the workspace\<close>

definition substitute :: "string \<Rightarrow> string \<Rightarrow> string \<Rightarrow> string \<Rightarrow> string" where
  "substitute user_id uuid provider content =
     py_replace (py_replace (py_replace content ''{{USER_ID}}'' user_id) ''{{UUID}}'' uuid) ''{{PROVIDER}}'' provider"

definition workspace_dir :: "settings \<Rightarrow> string \<Rightarrow> string" where
  "workspace_dir cfg uuid = path_join (path_join (workspace_base_path cfg) uuid) ''workspace''"

text \<open>A file that cannot be written ends the copying; what was copied stays.\<close>

fun copy_template :: "(string \<Rightarrow> string) \<Rightarrow> string \<Rightarrow> template_file list \<Rightarrow> disk \<Rightarrow> disk" where
  "copy_template subst dst [] dk = dk"
| "copy_template subst dst (f # fs) dk =
     (let target_dir = (if tf_dir f = ''.'' then dst else path_join dst (tf_dir f));
          dst_file = path_join target_dir (tf_name f)
      in if dst_file \<in> set (unwritable dk) then dk
         else copy_template subst dst fs (dk\<lparr>contents := dict_set (contents dk) dst_file
           (if tf_is_text f then subst (tf_body f) else tf_body f)\<rparr>))"

definition seed_workspace_template ::
    "settings \<Rightarrow> provision_env \<Rightarrow> string \<Rightarrow> string \<Rightarrow> string \<Rightarrow> disk \<Rightarrow> disk" where
  "seed_workspace_template cfg env uuid provider user_id dk =
     (case pv_template env of
        None \<Rightarrow> dk
      | Some fs \<Rightarrow> copy_template (substitute user_id uuid provider) (workspace_dir cfg uuid) fs dk)"

section \<open>Provisioning\<close>

text \<open>
  What the database takes for a credential or a role: a text. Any other JSON value fails in the
  bind, before anything is committed.
\<close>

fun column_text :: "json \<Rightarrow> string result" where
  "column_text (JStr s) = Ok s"
| "column_text JNull = Raise IntegrityError"
| "column_text _ = Raise PyTypeError"

fun credentials_of :: "json list \<Rightarrow> device_credentials result" where
  "credentials_of [c1, c2, c3, c4, c5] =
     bind_result (column_text c1) (\<lambda>i. bind_result (column_text c2) (\<lambda>pub.
     bind_result (column_text c3) (\<lambda>priv. bind_result (column_text c4) (\<lambda>tok.
     bind_result (column_text c5) (\<lambda>gw.
       Ok \<lparr>device_id = i, public_key_b64 = pub, private_key_b64 = priv, device_token = tok,
           gateway_token = gw\<rparr>)))))"
| "credentials_of _ = Raise PyTypeError"

definition run_driver :: "settings \<Rightarrow> provision_env \<Rightarrow> string \<Rightarrow> string \<Rightarrow> driver_answer result" where
  "run_driver cfg env provider user_id =
     (let driver = py_strip (py_lower (provisioning_driver cfg)) in
      if driver = ''mock'' then Ok (provision_mock env user_id)
      else if driver = ''webhook'' then provision_webhook cfg env provider user_id
      else Raise (ProvisioningError (''Unsupported provisioning driver: '' @ driver)))"

definition provision_instance ::
    "settings \<Rightarrow> provision_env \<Rightarrow> string \<Rightarrow> string \<Rightarrow> db \<Rightarrow> mapping_storage \<Rightarrow> disk \<Rightarrow>
     instance_info result \<times> db \<times> mapping_storage \<times> disk" where
  "provision_instance cfg env provider user_id d st dk =
     (case run_driver cfg env provider user_id of
        Inl e \<Rightarrow> (Inl e, d, st, dk)
      | Inr a \<Rightarrow>
          (case validate_provisioned_target cfg (pv_nfkc env) (da_uuid a) (da_url a) of
             Inl e \<Rightarrow> (Inl e, d, st, dk)
           | Inr (uuid, url) \<Rightarrow>
               let dk' = (if da_seeded a then dk
                          else seed_workspace_template cfg env uuid provider user_id dk)
               in case bind_result (credentials_of (da_credentials a)) (\<lambda>creds.
                    bind_result (column_text (jor (da_role a) (JStr ''user''))) (\<lambda>rl. Ok (creds, rl))) of
                    Inl e \<Rightarrow> (Inl e, d, st, dk')
                  | Inr (creds, rl) \<Rightarrow>
                      (case bind_user_instance provider user_id uuid url creds None (Some rl) d st of
                         (r, d', st') \<Rightarrow> (r, d', st', dk'))))"
section \<open>An accepted UUID is a path component\<close>

lemma py_replace_chars: "set s \<subseteq> set old \<union> set (py_replace s old new)"
proof (induction "length s" arbitrary: s rule: less_induct)
  case less
  show ?case
  proof (cases s)
    case (Cons c cs)
    show ?thesis
    proof (cases "old \<noteq> [] \<and> startswith (c # cs) old")
      case True
      let ?r = "drop (length old) (c # cs)"
      have "length ?r < length s" using True Cons by (cases old) auto
      from less.hyps [OF this] have "set ?r \<subseteq> set old \<union> set (py_replace ?r old new)" .
      moreover have "set (c # cs) = set old \<union> set ?r"
        using startswith_drop [of "c # cs" old] True by (metis set_append)
      ultimately show ?thesis using True Cons by (auto simp: py_replace_Cons)
    next
      case False
      with less.hyps [of cs] Cons show ?thesis by (auto simp: py_replace_Cons)
    qed
  qed simp
qed

lemma strip_by_chars: "c \<in> set s \<Longrightarrow> P c \<or> c \<in> set (strip_by P s)"
  by (rule strip_by_split [of s P]) (metis Un_iff set_append)

lemma hex_body_chars: "hex_body b s \<Longrightarrow> c \<in> set s \<Longrightarrow> is_hex c \<or> c = CHR ''_''"
  by (induction b s rule: hex_body.induct) (auto split: if_split_asm)

definition uuid_char :: "char \<Rightarrow> bool" where
  "uuid_char c \<longleftrightarrow> c \<notin> {CHR ''/'', CHR ''.'', CHR 0x5C, CHR 0x00}"

lemma int_base16_chars:
  assumes "int_base16_ok s"
  shows "list_all uuid_char s"
proof -
  define t where "t = py_strip s"
  define u where "u = (if startswith t ''+'' \<or> startswith t ''-'' then drop 1 t else t)"
  have ws: "uuid_char c" if "is_ws c" for c
    using that by (auto simp: uuid_char_def is_ws_def code_def Let_def)
  have hx: "list_all uuid_char v" if "hex_body False v" for v
  proof -
    have "uuid_char c" if "is_hex c \<or> c = CHR ''_''" for c
      using that by (auto simp: uuid_char_def is_hex_def is_digit_def code_def)
    with hex_body_chars [OF that] show ?thesis by (simp add: list_all_iff)
  qed
  have cut: "list_all uuid_char v" if "startswith v p" "list_all uuid_char p" "list_all uuid_char (drop (length p) v)" for v p
    using startswith_drop [OF that(1)] that(2,3) by (metis list_all_append)
  have lits: "list_all uuid_char ''0x''" "list_all uuid_char ''0X''" "list_all uuid_char ''_''"
    "list_all uuid_char ''+''" "list_all uuid_char ''-''" by (atomize (full), code_simp)
  have u: "list_all uuid_char u"
  proof (cases "startswith u ''0x'' \<or> startswith u ''0X''")
    case False
    then have "hex_body False u"
      using assms unfolding int_base16_ok_def Let_def t_def [symmetric] u_def [symmetric] by presburger
    then show ?thesis by (rule hx)
  next
    case True
    then have b: "hex_body False (if startswith (drop 2 u) ''_'' then drop 3 u else drop 2 u)"
      using assms unfolding int_base16_ok_def Let_def t_def [symmetric] u_def [symmetric] by presburger
    have "list_all uuid_char (drop 2 u)"
    proof (cases "startswith (drop 2 u) ''_''")
      case us: True
      have "list_all uuid_char (drop (length ''_'') (drop 2 u))" using b us hx by (simp add: numeral_3_eq_3)
      then show ?thesis using us lits(3) cut by blast
    qed (use b hx in simp)
    moreover have "length ''0x'' = 2" "length ''0X'' = 2" by simp_all
    ultimately show ?thesis using True cut lits(1,2) by metis
  qed
  have "list_all uuid_char t"
  proof (cases "startswith t ''+'' \<or> startswith t ''-''")
    case True
    then have "list_all uuid_char (drop 1 t)" using u by (simp add: u_def)
    moreover have "length ''+'' = 1" "length ''-'' = 1" by simp_all
    ultimately show ?thesis using True cut lits(4,5) by metis
  qed (use u in \<open>simp add: u_def\<close>)
  then have "\<forall>c \<in> set (strip_by is_ws s). uuid_char c" by (simp add: t_def py_strip_def list_all_iff)
  with strip_by_chars [of _ s is_ws] ws show ?thesis unfolding list_all_iff by blast
qed

lemma all_of_replaced:
  "list_all P old \<Longrightarrow> list_all P (py_replace s old new) \<Longrightarrow> list_all P s"
  using py_replace_chars [of s old new] unfolding list_all_iff by blast

lemma valid_uuid_chars:
  assumes "valid_uuid s"
  shows "s \<noteq> []" "list_all uuid_char s"
proof -
  have "uuid_hex [] = []" by code_simp
  then show "s \<noteq> []" using assms by (auto simp: valid_uuid_def py_len_def)
  have lits: "list_all uuid_char ''urn:''" "list_all uuid_char ''uuid:''" "list_all uuid_char ''-''"
    "list_all uuid_char [CHR 0x7B, CHR 0x7D]" by (atomize (full), code_simp)
  let ?r1 = "py_replace s ''urn:'' []"
  let ?r2 = "py_replace ?r1 ''uuid:'' []"
  let ?P = "\<lambda>c. c \<in> {CHR 0x7B, CHR 0x7D}"
  have "list_all uuid_char (uuid_hex s)" using assms int_base16_chars by (simp add: valid_uuid_def)
  then have "list_all uuid_char (strip_by ?P ?r2)"
    unfolding uuid_hex_def by (rule all_of_replaced [OF lits(3)])
  with strip_by_chars [of _ ?r2 ?P] lits(4) have "list_all uuid_char ?r2"
    unfolding list_all_iff by (metis insertE empty_iff list.set_intros)
  then show "list_all uuid_char s" using all_of_replaced lits(1,2) by blast
qed

lemma valid_uuid_plain:
  assumes "valid_uuid s"
  shows "plain s"
proof -
  have "uuid_char slash = False" "uuid_char (CHR ''.'') = False" by (atomize (full), code_simp)
  with valid_uuid_chars [OF assms] show ?thesis unfolding plain_def list_all_iff by fastforce
qed

section \<open>Seeding stays in the workspace\<close>

text \<open>What \<open>os.walk\<close> yields: plain file names in directories below the root.\<close>

definition walked :: "template_file \<Rightarrow> bool" where
  "walked f \<longleftrightarrow> plain (tf_name f) \<and> (tf_dir f = ''.'' \<or> list_all plain (split_on slash (tf_dir f)))"

definition below :: "string \<Rightarrow> string \<Rightarrow> bool" where
  "below dir p \<longleftrightarrow> (\<exists>cs. cs \<noteq> [] \<and> list_all plain cs \<and> p = dir @ ''/'' @ join_with ''/'' cs)"

definition written_below :: "string \<Rightarrow> disk \<Rightarrow> disk \<Rightarrow> bool" where
  "written_below dir dk dk' \<longleftrightarrow> (\<forall>p. dict_get (contents dk') p \<noteq> dict_get (contents dk) p \<longrightarrow> below dir p)"

lemma walked_path:
  assumes "walked f" "dst \<noteq> []" "\<not> endswith dst ''/''"
  shows "below dst (path_join (if tf_dir f = ''.'' then dst else path_join dst (tf_dir f)) (tf_name f))"
proof (cases "tf_dir f = ''.''")
  case True
  then show ?thesis
    using assms path_join_plain [of "tf_name f" dst]
    by (auto simp: walked_def below_def intro!: exI [of _ "[tf_name f]"])
next
  case False
  let ?cs = "split_on slash (tf_dir f)"
  have cs: "list_all plain ?cs" "plain (tf_name f)" using assms(1) False by (auto simp: walked_def)
  have d: "tf_dir f = join_with ''/'' ?cs" using join_split_on [of slash "tf_dir f"] by (simp add: slash_def)
  have ne: "tf_dir f \<noteq> []" using cs(1) by (auto simp: plain_def)
  have nslash: "\<not> startswith (tf_dir f) ''/''" "\<not> endswith (tf_dir f) ''/''"
  proof -
    show "\<not> startswith (tf_dir f) ''/''"
    proof
      assume "startswith (tf_dir f) ''/''"
      then obtain t where "tf_dir f = slash # t" by (auto simp: startswith_iff slash_def)
      with cs(1) show False by (simp add: plain_def)
    qed
    show "\<not> endswith (tf_dir f) ''/''"
    proof
      assume "endswith (tf_dir f) ''/''"
      then obtain t where t: "tf_dir f = t @ [slash]" by (auto simp: endswith_iff slash_def)
      have "\<exists>p ps. split_on slash (t @ [slash]) = p # ps \<and> ps \<noteq> [] \<and> last ps = []"
        by (induction t) auto
      then have "[] \<in> set (split_on slash (t @ [slash]))" by (metis last_in_set list.set_intros(2))
      with cs(1) t show False by (auto simp: list_all_iff plain_def)
    qed
  qed
  have j: "path_join dst (tf_dir f) = dst @ ''/'' @ tf_dir f"
    using nslash assms(2,3) by (simp add: path_join_def)
  have "\<not> endswith (dst @ ''/'' @ tf_dir f) ''/''"
    using nslash(2) ne unfolding endswith_iff
    by (metis append_assoc append_butlast_last_id last_append last_snoc append_is_Nil_conv)
  then have "path_join (path_join dst (tf_dir f)) (tf_name f) = dst @ ''/'' @ tf_dir f @ ''/'' @ tf_name f"
    unfolding j using path_join_plain [OF cs(2), of "dst @ ''/'' @ tf_dir f"] by simp
  also have "tf_dir f @ ''/'' @ tf_name f = join_with ''/'' (?cs @ [tf_name f])"
    using join_append [of ?cs "[tf_name f]" "''/''"] d by simp
  finally show ?thesis using False cs unfolding below_def by (intro exI [of _ "?cs @ [tf_name f]"]) simp
qed

lemma copy_template_below:
  assumes "list_all walked fs" "dst \<noteq> []" "\<not> endswith dst ''/''"
  shows "written_below dst dk (copy_template subst dst fs dk)"
  using assms(1)
proof (induction fs arbitrary: dk)
  case (Cons f fs)
  let ?p = "path_join (if tf_dir f = ''.'' then dst else path_join dst (tf_dir f)) (tf_name f)"
  let ?dk = "dk\<lparr>contents := dict_set (contents dk) ?p (if tf_is_text f then subst (tf_body f) else tf_body f)\<rparr>"
  have "below dst ?p" using walked_path assms(2,3) Cons.prems by simp
  moreover have "written_below dst ?dk (copy_template subst dst fs ?dk)" using Cons.IH Cons.prems by simp
  ultimately have "written_below dst dk (copy_template subst dst fs ?dk)"
    unfolding written_below_def by (metis (no_types, lifting) dict_get_set disk.select_convs(1) disk.surjective disk.update_convs(1))
  then show ?case by (simp add: Let_def written_below_def)
qed (simp add: written_below_def)

lemma workspace_dir_end: "workspace_dir cfg uuid \<noteq> [] \<and> \<not> endswith (workspace_dir cfg uuid) ''/''"
proof -
  have "\<exists>a. workspace_dir cfg uuid = a @ ''workspace''"
    unfolding workspace_dir_def path_join_def [of _ "''workspace''"]
    by (auto simp: startswith_iff intro: exI [of _ "[]"] exI [of _ "path_join (workspace_base_path cfg) uuid @ ''/''"])
  then show ?thesis by (auto simp: endswith_iff)
qed

lemma seed_below:
  assumes "\<And>fs. pv_template env = Some fs \<Longrightarrow> list_all walked fs"
  shows "written_below (workspace_dir cfg uuid) dk (seed_workspace_template cfg env uuid provider user dk)"
  using assms copy_template_below workspace_dir_end
  by (cases "pv_template env") (auto simp: seed_workspace_template_def written_below_def)

text \<open>Provisioning leaves the channels alone.\<close>

lemma provision_frame:
  assumes "provision_instance cfg env provider user d st dk = (r, d', st', dk')" "schema_ok d"
  shows "schema_ok d' \<and> channels d' = channels d"
proof -
  have "d' = d \<or> (\<exists>uuid url creds rl. bind_user_instance provider user uuid url creds None (Some rl) d st = (r, d', st'))"
    using assms(1) by (auto simp: provision_instance_def Let_def split: sum.splits prod.splits)
  then show ?thesis
    using assms(2) bind_tx_spec(1,5) by (auto dest!: bind_user_instance_cases)
qed

section \<open>Properties\<close>

text \<open>The target that passed the check.\<close>

definition vetted :: "settings \<Rightarrow> (string \<Rightarrow> bool) \<Rightarrow> string \<Rightarrow> string \<Rightarrow> bool" where
  "vetted cfg nfkc_ok uuid url \<longleftrightarrow> plain uuid \<and>
     (\<exists>u h. urlparse nfkc_ok url = Ok u \<and> url_scheme u \<in> {''ws'', ''wss''} \<and> hostname u = Some h \<and>
        (provisioning_allowlist cfg \<noteq> [] \<longrightarrow> py_lower h \<in> set (provisioning_allowlist cfg)))"

lemma validated_is_vetted:
  assumes "validate_provisioned_target cfg nfkc_ok uuid_j url_j = Ok (uuid, url)"
  shows "vetted cfg nfkc_ok uuid url"
proof -
  obtain i where i: "jstr uuid_j = Some i" "valid_uuid i"
    using assms by (auto simp: validate_provisioned_target_def split: option.splits if_split_asm)
  obtain l where l: "jstr url_j = Some l" using assms i
    by (auto simp: validate_provisioned_target_def split: option.splits)
  obtain u where u: "urlparse nfkc_ok l = Ok u"
    using assms i l by (cases "urlparse nfkc_ok l") (auto simp: validate_provisioned_target_def)
  obtain h where "hostname u = Some h" "url_scheme u \<in> {''ws'', ''wss''}" "uuid = i" "url = l"
     "provisioning_allowlist cfg \<noteq> [] \<longrightarrow> py_lower h \<in> set (provisioning_allowlist cfg)"
    using assms i l u
    by (cases "hostname u") (auto simp: validate_provisioned_target_def split: if_split_asm)
  with i u valid_uuid_plain show ?thesis unfolding vetted_def by blast
qed


text \<open>
  Property C18. Nothing unvetted is trusted: provisioning that succeeds has stored, for this chat
  identity, an instance whose UUID is a plain path component and whose URL is a ws/wss URL with a
  host of the allowlist (when one is set), and returns exactly that URL and credentials; one that
  fails leaves mappings and caches as they were; and either way files are written only below the
  workspace directory of a vetted UUID.
\<close>

theorem provisioning_trusts_only_vetted_targets:
  assumes run: "provision_instance cfg env provider user d st dk = (r, d', st', dk')"
    and db: "canonical d"
    and tmpl: "\<And>fs. pv_template env = Some fs \<Longrightarrow> list_all walked fs"
  shows "case r of
      Inl e \<Rightarrow> d' = d \<and> st' = st \<and>
        (dk' = dk \<or> (\<exists>uuid url. vetted cfg (pv_nfkc env) uuid url \<and>
           written_below (workspace_dir cfg uuid) dk dk'))
    | Inr info \<Rightarrow> \<exists>uuid p row. vetted cfg (pv_nfkc env) uuid (instance_url info) \<and>
        written_below (workspace_dir cfg uuid) dk dk' \<and> validate_provider provider = Ok p \<and>
        lookup_identity d' (p, user) = Some (uuid, row) \<and> info_of_row row = info"
proof -
  consider (early) e where "r = Inl e" "d' = d" "st' = st" "dk' = dk"
    | (vet) a uuid url where "validate_provisioned_target cfg (pv_nfkc env) (da_uuid a) (da_url a) = Ok (uuid, url)"
        "run_driver cfg env provider user = Ok a"
    using run by (cases "run_driver cfg env provider user")
      (auto simp: provision_instance_def split: sum.splits)
  then show ?thesis
  proof cases
    case early
    then show ?thesis by simp
  next
    case vet
    note v = validated_is_vetted [OF vet(1)]
    define dk1 where "dk1 = (if da_seeded a then dk else seed_workspace_template cfg env uuid provider user dk)"
    have w: "written_below (workspace_dir cfg uuid) dk dk1"
      unfolding dk1_def using seed_below [OF tmpl] by (simp add: written_below_def)
    show ?thesis
    proof (cases "bind_result (credentials_of (da_credentials a)) (\<lambda>creds.
        bind_result (column_text (jor (da_role a) (JStr ''user''))) (\<lambda>rl. Ok (creds, rl)))")
      case (Inl e)
      then have "r = Inl e \<and> d' = d \<and> st' = st \<and> dk' = dk1"
        using run vet by (simp add: provision_instance_def dk1_def)
      with v w show ?thesis by auto
    next
      case (Inr cr)
      obtain creds rl where cr: "cr = (creds, rl)" by fastforce
      have b: "bind_user_instance provider user uuid url creds None (Some rl) d st = (r, d', st')" "dk' = dk1"
        using run vet Inr cr by (auto simp: provision_instance_def dk1_def split: prod.splits)
      from bind_user_instance_cases [OF b(1)] show ?thesis
      proof (elim disjE exE conjE)
        fix e assume "r = Inl e" "d' = d" "st' = st"
        with v w b(2) show ?thesis by auto
      next
        fix p assume p: "validate_provider provider = Ok p"
          "bind_tx p user uuid url creds None (Some rl) d = Ok d'"
          "r = Ok \<lparr>instance_url = url, credentials = creds\<rparr>"
        have "b = user" if "dict_get (identities d) (p, b) = Some (p @ '':'' @ user)" for b
          using db that by (auto simp: canonical_def)
        from bind_tx_lookup [OF _ p(2) this] db obtain row where
          "lookup_identity d' (p, user) = Some (uuid, row)"
          "info_of_row row = \<lparr>instance_url = url, credentials = creds\<rparr>"
          by (auto simp: canonical_def)
        with p(1,3) v w b(2) show ?thesis by auto
      qed
    qed
  qed
qed

definition toy_provision_env :: provision_env where
  "toy_provision_env = \<lparr>pv_uuid4 = ''12345678-1234-1234-1234-123456789abc'',
     pv_post = (\<lambda>_ _ _. Ok (JObj [(''instance_uuid'', JStr ''../../etc''), (''instance_url'', JStr ''ws://h'')])),
     pv_template = Some [\<lparr>tf_dir = ''.'', tf_name = ''AGENTS.md'', tf_body = ''I serve {{USER_ID}}'', tf_is_text = True\<rparr>],
     pv_nfkc = (\<lambda>_. True)\<rparr>"

theorem provisioning_trusts_only_vetted_targets_witness:
  "\<exists>row. lookup_identity (fst (snd (provision_instance (default_settings\<lparr>provisioning_driver := ''mock''\<rparr>)
      toy_provision_env ''slack'' ''U1'' migrated_db new_storage \<lparr>contents = [], unwritable = []\<rparr>))) (''slack'', ''U1'') =
    Some (''12345678-1234-1234-1234-123456789abc'', row) \<and>
   \<not> is_ok (fst (provision_instance (default_settings\<lparr>provisioning_driver := ''webhook'', provisioning_webhook_url := ''http://o''\<rparr>)
      toy_provision_env ''slack'' ''U1'' migrated_db new_storage \<lparr>contents = [], unwritable = []\<rparr>))"
proof -
  let ?run = "provision_instance (default_settings\<lparr>provisioning_driver := ''mock''\<rparr>)
      toy_provision_env ''slack'' ''U1'' migrated_db new_storage \<lparr>contents = [], unwritable = []\<rparr>"
  obtain r d' st' dk' where run: "?run = (r, d', st', dk')" by (metis prod.exhaust)
  have f: "is_ok (fst ?run)" "dict_keys (instances (fst (snd ?run))) = [''12345678-1234-1234-1234-123456789abc'']"
    "validate_provider ''slack'' = Ok ''slack''" by (atomize (full), code_simp)
  obtain info where info: "r = Inr info" using f(1) run by (cases r) auto
  have walked: "list_all walked fs" if "pv_template toy_provision_env = Some fs" for fs
  proof -
    have "list_all walked (the (pv_template toy_provision_env))" by code_simp
    with that show ?thesis by simp
  qed
  from provisioning_trusts_only_vetted_targets [OF run canonical_migrated walked] info f(3)
  obtain uuid row where l: "lookup_identity d' (''slack'', ''U1'') = Some (uuid, row)" by auto
  then obtain u where "assigned_instance d' u = Some (uuid, row)"
    by (auto simp: lookup_identity_def bind_eq_Some_conv)
  then have "dict_get (instances d') uuid \<noteq> None"
    by (cases "select_rows (\<lambda>(_, v). v = u) (assignments d')") (auto simp: assigned_instance_def)
  then have "uuid \<in> set (dict_keys (instances d'))" by (simp add: dict_keys_get)
  with f(2) run l have "lookup_identity (fst (snd ?run)) (''slack'', ''U1'') =
    Some (''12345678-1234-1234-1234-123456789abc'', row)" by simp
  moreover have "\<not> is_ok (fst (provision_instance (default_settings\<lparr>provisioning_driver := ''webhook'', provisioning_webhook_url := ''http://o''\<rparr>)
      toy_provision_env ''slack'' ''U1'' migrated_db new_storage \<lparr>contents = [], unwritable = []\<rparr>))" by code_simp
  ultimately show ?thesis by blast
qed

end
