(* ===== verification/WsManager.thy ===== *)
theory WsManager
  imports OpenClawAuth
begin

text \<open>
  The connection pool (\<open>src/services/ws_manager.py\<close>): one OpenClaw client per user, connected
  with retries, reused by every message of the user, watched by a guardian, closed when idle.
  A client is a number; \<open>p_live\<close> holds the clients whose connection is open. The outcomes of
  connecting and of sending are parameters. The operations are those that run under the
  user's locks; the locks themselves are the subject of the last sections.
\<close>

section \<open>State\<close>

datatype pool_action =
    ConnectTry nat nat
  | Slept rat
  | CloseClient nat
  | SendVia nat string string string

record pool =
  p_clients :: "(string, nat) dict"
  p_info :: "(string, instance_info) dict"
  p_guardians :: "string list"
  p_last_active :: "(string, rat) dict"
  p_live :: "nat list"
  p_next :: nat
  p_down :: bool
  p_trace :: "pool_action list"

definition new_pool :: pool where
  "new_pool = \<lparr>p_clients = [], p_info = [], p_guardians = [], p_last_active = [], p_live = [],
     p_next = 0, p_down = False, p_trace = []\<rparr>"

text \<open>What connecting a client (per attempt) and sending on it give.\<close>

record pool_env =
  pe_connect :: "nat \<Rightarrow> nat \<Rightarrow> unit result"
  pe_send :: "nat \<Rightarrow> (string \<times> string list) result"

definition get_cached_info :: "pool \<Rightarrow> string \<Rightarrow> instance_info option" where
  "get_cached_info p user = dict_get (p_info p) user"

definition active_count :: "pool \<Rightarrow> nat" where
  "active_count p = length (p_clients p)"

definition acted :: "pool_action \<Rightarrow> pool \<Rightarrow> pool" where
  "acted a p = p\<lparr>p_trace := p_trace p @ [a]\<rparr>"

definition close_pooled :: "nat \<Rightarrow> pool \<Rightarrow> pool" where
  "close_pooled c p = acted (CloseClient c) (p\<lparr>p_live := removeAll c (p_live p)\<rparr>)"

section \<open>Connecting\<close>

text \<open>Attempts \<open>attempt\<close>, \<open>attempt + 1\<close>, ...; \<open>n\<close> of them are left.\<close>

fun retry_loop ::
    "settings \<Rightarrow> pool_env \<Rightarrow> nat \<Rightarrow> nat \<Rightarrow> nat \<Rightarrow> string \<Rightarrow> pool \<Rightarrow> unit result \<times> pool" where
  "retry_loop cfg env c attempt 0 last_error p =
     (Raise (OpenClawConnectionError (''Failed to connect after '' @
        str_int (ws_reconnect_max_retries cfg) @ '' attempts: '' @ last_error)), p)"
| "retry_loop cfg env c attempt (Suc n) last_error p =
     (let p1 = acted (ConnectTry c attempt) p in
      case pe_connect env c attempt of
        Inr _ \<Rightarrow> (Ok (), p1\<lparr>p_live := c # p_live p1\<rparr>)
      | Inl (OpenClawConnectionError m) \<Rightarrow>
          retry_loop cfg env c (Suc attempt) n m
            (if int attempt < ws_reconnect_max_retries cfg
             then acted (Slept (ws_reconnect_base_delay_sec cfg * 2 ^ (attempt - 1))) p1 else p1)
      | Inl e \<Rightarrow> (Inl e, p1))"

definition connect_with_retry :: "settings \<Rightarrow> pool_env \<Rightarrow> nat \<Rightarrow> pool \<Rightarrow> unit result \<times> pool" where
  "connect_with_retry cfg env c p =
     retry_loop cfg env c 1 (nat (ws_reconnect_max_retries cfg)) ''None'' p"

definition start_guardian :: "string \<Rightarrow> pool \<Rightarrow> pool" where
  "start_guardian user p = p\<lparr>p_guardians := user # removeAll user (p_guardians p)\<rparr>"

text \<open>A new client for the user: connected, entered in the tables, guarded.\<close>

definition create_client ::
    "settings \<Rightarrow> pool_env \<Rightarrow> string \<Rightarrow> instance_info \<Rightarrow> pool \<Rightarrow> nat result \<times> pool" where
  "create_client cfg env user info p =
     (let c = p_next p in
      case connect_with_retry cfg env c (p\<lparr>p_next := Suc c\<rparr>) of
        (Inl e, p') \<Rightarrow> (Inl e, p')
      | (Inr _, p') \<Rightarrow>
          (Ok c, start_guardian user (p'\<lparr>p_clients := dict_set (p_clients p') user c,
             p_info := dict_set (p_info p') user info\<rparr>)))"

definition get_or_create ::
    "settings \<Rightarrow> pool_env \<Rightarrow> string \<Rightarrow> instance_info \<Rightarrow> pool \<Rightarrow> nat result \<times> pool" where
  "get_or_create cfg env user info p =
     (case dict_get (p_clients p) user of
        Some c \<Rightarrow> if c \<in> set (p_live p) then (Ok c, p)
          else create_client cfg env user info (close_pooled c p)
      | None \<Rightarrow> create_client cfg env user info p)"

section \<open>Sending\<close>

text \<open>
  One logical send: the idempotency key is drawn once; any exception of the client closes it,
  gets a connection again and sends once more, and the second outcome stands.
\<close>

definition send_on :: "pool_env \<Rightarrow> nat \<Rightarrow> string \<Rightarrow> string \<Rightarrow> string \<Rightarrow> pool \<Rightarrow>
    (string \<times> string list) result \<times> pool" where
  "send_on env c message session_key idem p =
     (pe_send env c, acted (SendVia c message session_key idem) p)"

definition pool_send_message ::
    "settings \<Rightarrow> pool_env \<Rightarrow> rat \<Rightarrow> string \<Rightarrow> string \<Rightarrow> instance_info \<Rightarrow> string \<Rightarrow> string \<Rightarrow> pool \<Rightarrow>
     (string \<times> string list) result \<times> pool" where
  "pool_send_message cfg env now idem user info message session_key p =
     (case get_or_create cfg env user info (p\<lparr>p_last_active := dict_set (p_last_active p) user now\<rparr>) of
        (Inl e, p1) \<Rightarrow> (Inl e, p1)
      | (Inr c, p1) \<Rightarrow>
          (case send_on env c message session_key idem p1 of
             (Inr r, p2) \<Rightarrow> (Ok r, p2)
           | (Inl e, p2) \<Rightarrow>
               (case get_or_create cfg env user info (close_pooled c p2) of
                  (Inl e', p3) \<Rightarrow> (Inl e', p3)
                | (Inr c', p3) \<Rightarrow> send_on env c' message session_key idem p3)))"

section \<open>Guardian, closing, cleanup\<close>

text \<open>A reconnect of the guardian; \<open>False\<close> when it stops (no info, or the user is gone).\<close>

definition guardian_reconnect :: "settings \<Rightarrow> pool_env \<Rightarrow> string \<Rightarrow> pool \<Rightarrow> bool \<times> pool" where
  "guardian_reconnect cfg env user p =
     (case dict_get (p_info p) user of
        None \<Rightarrow> (False, p\<lparr>p_guardians := removeAll user (p_guardians p)\<rparr>)
      | Some info \<Rightarrow>
          let p1 = (case dict_get (p_clients p) user of None \<Rightarrow> p | Some c \<Rightarrow> close_pooled c p);
              c' = p_next p1
          in (case connect_with_retry cfg env c' (p1\<lparr>p_next := Suc c'\<rparr>) of
                (Inl e, p2) \<Rightarrow> (True, p2)
              | (Inr _, p2) \<Rightarrow> (True, p2\<lparr>p_clients := dict_set (p_clients p2) user c'\<rparr>)))"

definition close_connection :: "string \<Rightarrow> pool \<Rightarrow> pool" where
  "close_connection user p =
     (let p1 = p\<lparr>p_guardians := removeAll user (p_guardians p)\<rparr>;
          p2 = p1\<lparr>p_clients := dict_pop (p_clients p1) user, p_info := dict_pop (p_info p1) user\<rparr>
      in case dict_get (p_clients p1) user of
           None \<Rightarrow> p2
         | Some c \<Rightarrow> close_pooled c p2)"

definition idle_users :: "settings \<Rightarrow> rat \<Rightarrow> pool \<Rightarrow> string list" where
  "idle_users cfg now p =
     map fst (filter (\<lambda>(u, last_seen). now - last_seen > of_int (ws_idle_timeout_sec cfg) \<and>
        dict_has (p_clients p) u) (p_last_active p))"

definition cleanup_pass :: "settings \<Rightarrow> rat \<Rightarrow> pool \<Rightarrow> pool" where
  "cleanup_pass cfg now p =
     foldl (\<lambda>p u. close_connection u (p\<lparr>p_last_active := dict_pop (p_last_active p) u\<rparr>))
       p (idle_users cfg now p)"

definition close_all :: "pool \<Rightarrow> pool" where
  "close_all p =
     foldl (\<lambda>p u. case dict_get (p_clients p) u of
          None \<Rightarrow> p
        | Some c \<Rightarrow> close_pooled c (p\<lparr>p_clients := dict_pop (p_clients p) u\<rparr>))
       (p\<lparr>p_down := True, p_guardians := []\<rparr>) (dict_keys (p_clients p))"

section \<open>What the operations keep\<close>

text \<open>
  Every open connection belongs to one user's table entry, clients are numbered below
  \<open>p_next\<close>, no client serves two users, and a cached instance info has a client.
\<close>

definition pool_ok :: "pool \<Rightarrow> bool" where
  "pool_ok p \<longleftrightarrow>
     (\<forall>c \<in> set (p_live p). \<exists>u. dict_get (p_clients p) u = Some c) \<and>
     (\<forall>u c. dict_get (p_clients p) u = Some c \<longrightarrow> c < p_next p) \<and>
     (\<forall>u v c. dict_get (p_clients p) u = Some c \<longrightarrow> dict_get (p_clients p) v = Some c \<longrightarrow> u = v) \<and>
     dict_ok (p_clients p) \<and> distinct (p_guardians p)"

lemma acted_fields [simp]:
  "p_clients (acted a p) = p_clients p" "p_info (acted a p) = p_info p" "p_live (acted a p) = p_live p"
  "p_next (acted a p) = p_next p" "p_guardians (acted a p) = p_guardians p" "p_down (acted a p) = p_down p"
  "p_last_active (acted a p) = p_last_active p" "p_trace (acted a p) = p_trace p @ [a]"
  by (simp_all add: acted_def)

lemma close_pooled_fields [simp]:
  "p_clients (close_pooled c p) = p_clients p" "p_info (close_pooled c p) = p_info p"
  "p_next (close_pooled c p) = p_next p" "p_guardians (close_pooled c p) = p_guardians p"
  "p_live (close_pooled c p) = removeAll c (p_live p)" "p_last_active (close_pooled c p) = p_last_active p"
  "p_trace (close_pooled c p) = p_trace p @ [CloseClient c]" "p_down (close_pooled c p) = p_down p"
  by (simp_all add: close_pooled_def)

lemma pool_ok_acted [simp]: "pool_ok (acted a p) = pool_ok p"
  by (simp add: pool_ok_def)

lemma pool_ok_close [simp]: "pool_ok p \<Longrightarrow> pool_ok (close_pooled c p)"
  by (auto simp: pool_ok_def)

text \<open>The actions of a connection attempt series, and what it changes.\<close>

definition backoff :: "settings \<Rightarrow> nat \<Rightarrow> pool_action list" where
  "backoff cfg i = (if int i < ws_reconnect_max_retries cfg
     then [Slept (ws_reconnect_base_delay_sec cfg * 2 ^ (i - 1))] else [])"

definition failed_tries :: "settings \<Rightarrow> nat \<Rightarrow> nat \<Rightarrow> nat \<Rightarrow> pool_action list" where
  "failed_tries cfg c i j = concat (map (\<lambda>k. ConnectTry c k # backoff cfg k) [i..<j])"

lemma failed_tries_Cons:
  "i < j \<Longrightarrow> failed_tries cfg c i j = ConnectTry c i # backoff cfg i @ failed_tries cfg c (Suc i) j"
  by (simp add: failed_tries_def upt_conv_Cons)

lemma failed_tries_refl [simp]: "failed_tries cfg c i i = []"
  by (simp add: failed_tries_def)

definition connection_error :: "unit result \<Rightarrow> bool" where
  "connection_error r = (case r of Inl (OpenClawConnectionError m) \<Rightarrow> True | _ \<Rightarrow> False)"

lemma retry_loop_spec:
  assumes "retry_loop cfg env c i n m p = (r, p')"
  shows "\<exists>j. i \<le> j \<and> j \<le> i + n \<and> (\<forall>k. i \<le> k \<and> k < j \<longrightarrow> connection_error (pe_connect env c k)) \<and>
    (if j = i + n then \<not> is_ok r \<and> p' = p\<lparr>p_trace := p_trace p @ failed_tries cfg c i j\<rparr>
     else \<not> connection_error (pe_connect env c j) \<and> r = pe_connect env c j \<and>
       p' = p\<lparr>p_trace := p_trace p @ failed_tries cfg c i j @ [ConnectTry c j],
         p_live := (if is_ok r then [c] else []) @ p_live p\<rparr>)"
  using assms
proof (induction n arbitrary: i m p)
  case (Suc n)
  show ?case
  proof (cases "connection_error (pe_connect env c i)")
    case True
    then obtain t where t: "pe_connect env c i = Inl (OpenClawConnectionError t)"
      by (auto simp: connection_error_def split: sum.splits exn.splits)
    let ?p1 = "acted (ConnectTry c i) p"
    let ?p2 = "if int i < ws_reconnect_max_retries cfg
      then acted (Slept (ws_reconnect_base_delay_sec cfg * 2 ^ (i - 1))) ?p1 else ?p1"
    have p2: "?p2 = p\<lparr>p_trace := p_trace p @ ConnectTry c i # backoff cfg i\<rparr>"
      by (simp add: acted_def backoff_def)
    have "retry_loop cfg env c (Suc i) n t ?p2 = (r, p')"
      using Suc.prems by (simp add: t Let_def)
    from Suc.IH [OF this] obtain j where j: "Suc i \<le> j" "j \<le> Suc i + n"
      "\<forall>k. Suc i \<le> k \<and> k < j \<longrightarrow> connection_error (pe_connect env c k)"
      "if j = Suc i + n then \<not> is_ok r \<and> p' = ?p2\<lparr>p_trace := p_trace ?p2 @ failed_tries cfg c (Suc i) j\<rparr>
       else \<not> connection_error (pe_connect env c j) \<and> r = pe_connect env c j \<and>
         p' = ?p2\<lparr>p_trace := p_trace ?p2 @ failed_tries cfg c (Suc i) j @ [ConnectTry c j],
           p_live := (if is_ok r then [c] else []) @ p_live ?p2\<rparr>"
      by blast
    have "\<forall>k. i \<le> k \<and> k < j \<longrightarrow> connection_error (pe_connect env c k)"
      using j(3) True by (metis Suc_leI le_neq_implies_less)
    with j show ?thesis
      by (intro exI [of _ j]) (auto simp: p2 failed_tries_Cons split: if_splits)
  next
    case False
    then have "r = pe_connect env c i \<and> p' = p\<lparr>p_trace := p_trace p @ [ConnectTry c i],
        p_live := (if is_ok r then [c] else []) @ p_live p\<rparr>"
    proof (cases "pe_connect env c i")
      case (Inl e)
      then have "\<not> is_ok (pe_connect env c i)" by simp
      with Inl False Suc.prems show ?thesis by (cases e) (auto simp: Let_def connection_error_def acted_def)
    next
      case (Inr u)
      then have "is_ok (pe_connect env c i)" by simp
      with Inr Suc.prems show ?thesis by (auto simp: Let_def acted_def)
    qed
    with False show ?thesis by (intro exI [of _ i]) auto
  qed
next
  case 0
  then show ?case by (intro exI [of _ i]) auto
qed

lemma connect_with_retry_frame:
  assumes "connect_with_retry cfg env c p = (r, p')"
  shows "p_clients p' = p_clients p" "p_info p' = p_info p" "p_next p' = p_next p"
    "p_guardians p' = p_guardians p" "p_live p' = (if is_ok r then [c] else []) @ p_live p"
    "p_last_active p' = p_last_active p" "p_down p' = p_down p"
  using retry_loop_spec [OF assms [unfolded connect_with_retry_def]]
  by (elim exE conjE; (simp split: if_split_asm; fail))+

lemma pool_ok_create:
  assumes "pool_ok p" "create_client cfg env user info p = (r, p')"
    and "\<And>c. dict_get (p_clients p) user = Some c \<Longrightarrow> c \<notin> set (p_live p)"
  shows "pool_ok p' \<and> (\<forall>c. r = Ok c \<longrightarrow> c = p_next p \<and> c \<in> set (p_live p') \<and>
    dict_get (p_clients p') user = Some c)"
proof -
  let ?q = "p\<lparr>p_next := Suc (p_next p)\<rparr>"
  obtain s q where q: "connect_with_retry cfg env (p_next p) ?q = (s, q)" by fastforce
  note f = connect_with_retry_frame [OF q]
  have ok: "\<And>u c. dict_get (p_clients p) u = Some c \<Longrightarrow> c < p_next p"
    "\<And>c. c \<in> set (p_live p) \<Longrightarrow> \<exists>u. dict_get (p_clients p) u = Some c"
    "\<And>u v c. dict_get (p_clients p) u = Some c \<Longrightarrow> dict_get (p_clients p) v = Some c \<Longrightarrow> u = v"
    "dict_ok (p_clients p)" "distinct (p_guardians p)"
    using assms(1) unfolding pool_ok_def by blast+
  show ?thesis
  proof (cases s)
    case (Inl e)
    then have "r = Inl e" "p' = q" using assms(2) q by (auto simp: create_client_def Let_def)
    with f Inl ok show ?thesis by (auto simp: pool_ok_def less_Suc_eq)
  next
    case (Inr u)
    then have r: "r = Ok (p_next p)" and p': "p' = start_guardian user (q\<lparr>p_clients := dict_set (p_clients q) user (p_next p),
        p_info := dict_set (p_info q) user info\<rparr>)"
      using assms(2) q by (auto simp: create_client_def Let_def)
    have live: "\<exists>v. dict_get (dict_set (p_clients p) user (p_next p)) v = Some c"
      if "c = p_next p \<or> c \<in> set (p_live p)" for c
      using that
    proof
      assume c: "c \<in> set (p_live p)"
      then obtain v where "dict_get (p_clients p) v = Some c" using ok(2) by blast
      with c assms(3) show ?thesis by (intro exI [of _ v]) auto
    qed auto
    have fresh: "dict_get (p_clients p) v \<noteq> Some (p_next p)" for v using ok(1) by blast
    show ?thesis
      using live f Inr ok fresh distinct_removeAll [OF ok(5), of user]
      by (auto simp: r p' pool_ok_def start_guardian_def less_Suc_eq split: if_splits)
  qed
qed

lemma pool_ok_get_or_create:
  assumes "pool_ok p" "get_or_create cfg env user info p = (r, p')"
  shows "pool_ok p' \<and> (\<forall>c. r = Ok c \<longrightarrow> c \<in> set (p_live p') \<and> dict_get (p_clients p') user = Some c)"
proof (cases "dict_get (p_clients p) user")
  case None
  then have "create_client cfg env user info p = (r, p')" using assms(2) by (simp add: get_or_create_def)
  from pool_ok_create [OF assms(1) this] None show ?thesis by auto
next
  case (Some c)
  show ?thesis
  proof (cases "c \<in> set (p_live p)")
    case True
    with Some assms show ?thesis by (auto simp: get_or_create_def)
  next
    case False
    then have "create_client cfg env user info (close_pooled c p) = (r, p')"
      using assms(2) Some by (simp add: get_or_create_def)
    from pool_ok_create [OF pool_ok_close [OF assms(1)] this] Some show ?thesis by auto
  qed
qed

lemma pool_ok_last_active [simp]: "pool_ok (p\<lparr>p_last_active := x\<rparr>) = pool_ok p"
  by (simp add: pool_ok_def)

lemma pool_ok_send:
  assumes "pool_ok p" "pool_send_message cfg env now idem user info message session_key p = (r, p')"
  shows "pool_ok p'"
proof -
  let ?p = "p\<lparr>p_last_active := dict_set (p_last_active p) user now\<rparr>"
  obtain r1 p1 where g: "get_or_create cfg env user info ?p = (r1, p1)" by fastforce
  have ok1: "pool_ok p1" using pool_ok_get_or_create [OF _ g] assms(1) by simp
  show ?thesis
  proof (cases r1)
    case (Inr c)
    let ?p2 = "close_pooled c (acted (SendVia c message session_key idem) p1)"
    obtain r3 p3 where g3: "get_or_create cfg env user info ?p2 = (r3, p3)" by fastforce
    have "pool_ok p3" using pool_ok_get_or_create [OF _ g3] ok1 by simp
    with assms(2) g g3 Inr ok1 show ?thesis
      by (cases "pe_send env c"; cases r3) (auto simp: pool_send_message_def send_on_def)
  qed (use assms(2) g ok1 in \<open>auto simp: pool_send_message_def\<close>)
qed

lemma pool_ok_unguard:
  "pool_ok (start_guardian u (q\<lparr>p_clients := a, p_info := b\<rparr>)) \<Longrightarrow> distinct (p_guardians q) \<Longrightarrow>
   pool_ok (q\<lparr>p_clients := a\<rparr>)"
  by (simp add: pool_ok_def start_guardian_def)

lemma pool_ok_guardian:
  assumes "pool_ok p"
  shows "pool_ok (snd (guardian_reconnect cfg env user p))"
proof (cases "dict_get (p_info p) user")
  case None
  with assms show ?thesis by (simp add: guardian_reconnect_def pool_ok_def distinct_removeAll)
next
  case (Some info)
  let ?p1 = "case dict_get (p_clients p) user of None \<Rightarrow> p | Some c \<Rightarrow> close_pooled c p"
  have ok1: "pool_ok ?p1" using assms by (auto split: option.split)
  have gone: "c \<notin> set (p_live ?p1)" if "dict_get (p_clients ?p1) user = Some c" for c
    using that by (auto split: option.splits)
  obtain r p2 where q: "connect_with_retry cfg env (p_next ?p1) (?p1\<lparr>p_next := Suc (p_next ?p1)\<rparr>) = (r, p2)"
    by fastforce
  have d: "distinct (p_guardians p2)"
    using connect_with_retry_frame(4) [OF q] ok1 by (simp add: pool_ok_def)
  show ?thesis
  proof (cases r)
    case (Inl e)
    have "create_client cfg env user info ?p1 = (Inl e, p2)"
      by (simp only: create_client_def Let_def q Inl prod.case sum.case)
    from pool_ok_create [OF ok1 this gone] have "pool_ok p2" by blast
    moreover have "snd (guardian_reconnect cfg env user p) = p2"
      by (simp only: guardian_reconnect_def Some option.case Let_def q Inl prod.case sum.case snd_conv)
    ultimately show ?thesis by simp
  next
    case (Inr u)
    let ?p3 = "p2\<lparr>p_clients := dict_set (p_clients p2) user (p_next ?p1)\<rparr>"
    have "create_client cfg env user info ?p1 = (Ok (p_next ?p1),
        start_guardian user (?p3\<lparr>p_info := dict_set (p_info p2) user info\<rparr>))"
      by (simp only: create_client_def Let_def q Inr prod.case sum.case)
    from pool_ok_create [OF ok1 this gone]
    have "pool_ok (start_guardian user (p2\<lparr>p_clients := dict_set (p_clients p2) user (p_next ?p1),
        p_info := dict_set (p_info p2) user info\<rparr>))" by simp
    then have "pool_ok ?p3" by (rule pool_ok_unguard [OF _ d])
    moreover have "snd (guardian_reconnect cfg env user p) = ?p3"
      by (simp only: guardian_reconnect_def Some option.case Let_def q Inr prod.case sum.case snd_conv)
    ultimately show ?thesis by simp
  qed
qed

lemma pool_ok_close_connection: "pool_ok p \<Longrightarrow> pool_ok (close_connection user p)"
proof -
  assume a: "pool_ok p"
  then have d: "distinct (removeAll user (p_guardians p))" by (simp add: pool_ok_def distinct_removeAll)
  have e: "\<exists>u. u \<noteq> user \<and> dict_get (p_clients p) u = Some c"
    if "c \<in> set (p_live p)" "dict_get (p_clients p) user \<noteq> Some c" for c
    using a that unfolding pool_ok_def by metis
  note ok = a [unfolded pool_ok_def]
  show ?thesis
  proof (cases "dict_get (p_clients p) user")
    case None
    with ok d e show ?thesis by (simp add: close_connection_def pool_ok_def cong: conj_cong)
  next
    case (Some c)
    have "\<exists>u. u \<noteq> user \<and> dict_get (p_clients p) u = Some x" if "x \<in> set (p_live p)" "x \<noteq> c" for x
      using e [OF that(1)] Some that(2) by auto
    with Some ok d show ?thesis by (auto simp: close_connection_def pool_ok_def cong: conj_cong)
  qed
qed

lemma pool_ok_cleanup: "pool_ok p \<Longrightarrow> pool_ok (cleanup_pass cfg now p)"
proof -
  have "pool_ok p \<Longrightarrow> pool_ok (foldl (\<lambda>p u. close_connection u (p\<lparr>p_last_active := dict_pop (p_last_active p) u\<rparr>)) p us)"
    for p us by (induction us arbitrary: p) (simp_all add: pool_ok_close_connection)
  then show "pool_ok p \<Longrightarrow> pool_ok (cleanup_pass cfg now p)" by (simp add: cleanup_pass_def)
qed

lemma pool_ok_close_all: "pool_ok p \<Longrightarrow> pool_ok (close_all p)"
proof -
  let ?f = "\<lambda>p u. case dict_get (p_clients p) u of None \<Rightarrow> p
     | Some c \<Rightarrow> close_pooled c (p\<lparr>p_clients := dict_pop (p_clients p) u\<rparr>)"
  have step: "pool_ok (?f p u)" if "pool_ok p" for p u
  proof (cases "dict_get (p_clients p) u")
    case (Some c)
    have "\<exists>v. v \<noteq> u \<and> dict_get (p_clients p) v = Some x" if "x \<in> set (p_live p)" "x \<noteq> c" for x
      using \<open>pool_ok p\<close> that Some unfolding pool_ok_def by (metis option.inject)
    with that Some show ?thesis by (auto simp: pool_ok_def)
  qed (use that in simp)
  have "pool_ok p \<Longrightarrow> pool_ok (foldl ?f p us)" for p us
    by (induction us arbitrary: p) (simp_all only: foldl.simps step)
  moreover have "pool_ok (p\<lparr>p_down := True, p_guardians := []\<rparr>)" if "pool_ok p" using that by (simp add: pool_ok_def)
  ultimately show "pool_ok p \<Longrightarrow> pool_ok (close_all p)" by (simp only: close_all_def)
qed

section \<open>The pool as an event machine\<close>

text \<open>\<open>Dropped\<close> is a connection that breaks: its listener ends and the client is not connected.\<close>

datatype pool_event =
    PoolSend rat string string instance_info string string
  | GuardianWakes string
  | DroppedConn nat
  | CloseUser string
  | CleanupRuns rat
  | CloseAll

fun pool_step :: "settings \<Rightarrow> pool_env \<Rightarrow> pool \<Rightarrow> pool_event \<Rightarrow> pool" where
  "pool_step cfg env p (PoolSend now idem user info message sk) =
     snd (pool_send_message cfg env now idem user info message sk p)"
| "pool_step cfg env p (GuardianWakes user) = snd (guardian_reconnect cfg env user p)"
| "pool_step cfg env p (DroppedConn c) = p\<lparr>p_live := removeAll c (p_live p)\<rparr>"
| "pool_step cfg env p (CloseUser user) = close_connection user p"
| "pool_step cfg env p (CleanupRuns now) = cleanup_pass cfg now p"
| "pool_step cfg env p CloseAll = close_all p"

lemma pool_ok_step: "pool_ok p \<Longrightarrow> pool_ok (pool_step cfg env p e)"
proof (cases e)
  case (PoolSend now idem user info message sk)
  assume ok: "pool_ok p"
  show ?thesis unfolding PoolSend pool_step.simps by (rule pool_ok_send [OF ok prod.collapse [symmetric]])
next
  case (DroppedConn c)
  then show "pool_ok p \<Longrightarrow> ?thesis" by (auto simp: pool_ok_def)
qed (simp_all add: pool_ok_guardian pool_ok_close_connection pool_ok_cleanup pool_ok_close_all)

interpretation pooling: event_machine "pool_step cfg env" pool_ok for cfg env
  by unfold_locales (rule pool_ok_step)

lemma pool_ok_new: "pool_ok new_pool"
  by (simp add: pool_ok_def new_pool_def)

lemma pool_run_ok: "pool_ok (foldl (pool_step cfg env) new_pool es)"
  by (rule pooling.run_inv [OF pool_ok_new])

text \<open>After \<open>close_all\<close> nothing is open.\<close>

lemma close_all_live:
  assumes "pool_ok p"
  shows "p_live (close_all p) = []"
proof -
  let ?f = "\<lambda>p u. case dict_get (p_clients p) u of None \<Rightarrow> p
     | Some c \<Rightarrow> close_pooled c (p\<lparr>p_clients := dict_pop (p_clients p) u\<rparr>)"
  have keep: "dict_get (p_clients (foldl ?f q us)) u = (if u \<in> set us then None else dict_get (p_clients q) u)" for q us u
    by (induction us arbitrary: q) (auto split: option.split)
  have "dict_get (p_clients (close_all p)) u = None" for u
    using dict_keys_get [of u "p_clients p"] by (simp only: close_all_def keep) simp
  moreover have "pool_ok (close_all p)" by (rule pool_ok_close_all [OF assms])
  ultimately have "c \<notin> set (p_live (close_all p))" for c unfolding pool_ok_def by (metis option.distinct(1))
  then show ?thesis by (metis list.set_intros(1) neq_Nil_conv)
qed

text \<open>The frames one logical send writes.\<close>

definition sends_of :: "pool_action list \<Rightarrow> (nat \<times> string) list" where
  "sends_of acts = concat (map (\<lambda>a. case a of SendVia c m s k \<Rightarrow> [(c, k)] | _ \<Rightarrow> []) acts)"

lemma sends_of_simps [simp]:
  "sends_of [] = []" "sends_of (SendVia c m s k # acts) = (c, k) # sends_of acts"
  "sends_of (ConnectTry c i # acts) = sends_of acts" "sends_of (Slept d # acts) = sends_of acts"
  "sends_of (CloseClient c # acts) = sends_of acts" "sends_of (a @ b) = sends_of a @ sends_of b"
  by (simp_all add: sends_of_def)

lemma sends_of_tries [simp]: "sends_of (failed_tries cfg c i j) = []"
  by (auto simp: failed_tries_def sends_of_def backoff_def)

lemma get_or_create_trace:
  assumes "get_or_create cfg env user info p = (r, p')"
  shows "sends_of (p_trace p') = sends_of (p_trace p) \<and> (\<exists>acts. p_trace p' = p_trace p @ acts) \<and>
    (\<forall>c. r = Ok c \<longrightarrow> (dict_get (p_clients p) user = Some c \<and> c \<in> set (p_live p)) \<or> c = p_next p)"
proof -
  have create: "sends_of (p_trace q') = sends_of (p_trace q) \<and> (\<exists>acts. p_trace q' = p_trace q @ acts) \<and>
      (\<forall>c. r = Ok c \<longrightarrow> c = p_next q)"
    if "create_client cfg env user info q = (r, q')" for q q'
  proof -
    obtain s q1 where q1: "connect_with_retry cfg env (p_next q) (q\<lparr>p_next := Suc (p_next q)\<rparr>) = (s, q1)"
      by fastforce
    have "sends_of (p_trace q1) = sends_of (p_trace q) \<and> (\<exists>acts. p_trace q1 = p_trace q @ acts)"
      using retry_loop_spec [OF q1 [unfolded connect_with_retry_def]] by (auto split: if_split_asm)
    with that q1 show ?thesis
      by (cases s) (auto simp: create_client_def Let_def start_guardian_def)
  qed
  show ?thesis
  proof (cases "dict_get (p_clients p) user")
    case None
    with assms create [of p p'] show ?thesis by (simp add: get_or_create_def)
  next
    case (Some c)
    with assms create [of "close_pooled c p" p'] show ?thesis
      by (cases "c \<in> set (p_live p)") (auto simp: get_or_create_def)
  qed
qed

lemma close_other:
  "u \<noteq> v \<Longrightarrow> dict_get (p_clients (close_connection v p)) u = dict_get (p_clients p) u \<and>
   (\<forall>c. dict_get (p_clients p) u = Some c \<longrightarrow> pool_ok p \<longrightarrow> c \<in> set (p_live p) \<longrightarrow>
      c \<in> set (p_live (close_connection v p)))"
  by (cases "dict_get (p_clients p) v") (auto simp: close_connection_def Let_def pool_ok_def)

lemma close_list_other:
  assumes "u \<notin> set vs" "pool_ok p"
  shows "dict_get (p_clients (foldl (\<lambda>p v. close_connection v (p\<lparr>p_last_active := dict_pop (p_last_active p) v\<rparr>)) p vs)) u =
      dict_get (p_clients p) u \<and>
    (\<forall>c. dict_get (p_clients p) u = Some c \<longrightarrow> c \<in> set (p_live p) \<longrightarrow>
      c \<in> set (p_live (foldl (\<lambda>p v. close_connection v (p\<lparr>p_last_active := dict_pop (p_last_active p) v\<rparr>)) p vs)))"
  using assms
proof (induction vs arbitrary: p)
  case (Cons v vs)
  let ?q = "p\<lparr>p_last_active := dict_pop (p_last_active p) v\<rparr>"
  have ok: "pool_ok ?q" "pool_ok (close_connection v ?q)"
    using Cons.prems(2) pool_ok_close_connection by simp_all
  have uv: "u \<noteq> v" "u \<notin> set vs" using Cons.prems(1) by auto
  from Cons.IH [OF uv(2) ok(2)] close_other [OF uv(1), of ?q] ok(1) show ?case by simp
qed simp

section \<open>Properties\<close>

text \<open>
  Property C29. No socket is leaked and no connection is shared: in every state the pool reaches
  through sends, guardian reconnects, drops, closes and cleanups (connects failing as they may),
  each open client is the table entry of exactly one user, and closing all leaves none open.
\<close>

theorem pool_owns_every_connection:
  assumes "p = foldl (pool_step cfg env) new_pool es" "c \<in> set (p_live p)"
  shows "(\<exists>!u. dict_get (p_clients p) u = Some c) \<and> p_live (close_all p) = []"
proof -
  have ok: "pool_ok p" unfolding assms(1) by (rule pool_run_ok)
  then have "\<exists>!u. dict_get (p_clients p) u = Some c"
    using assms(2) unfolding pool_ok_def by metis
  with close_all_live [OF ok] show ?thesis by blast
qed

definition toy_pool_env :: pool_env where
  "toy_pool_env = \<lparr>pe_connect = (\<lambda>c i. if c = 0 \<and> i = 1 then Raise (OpenClawConnectionError ''refused'') else Ok ()),
     pe_send = (\<lambda>c. if c = 0 then Raise (OpenClawConnectionError ''WebSocket disconnected mid-request'')
        else Ok (''Hello'', []))\<rparr>"

definition toy_info :: instance_info where
  "toy_info = \<lparr>instance_url = ''ws://h:18789/ws'', credentials = toy_creds\<rparr>"

theorem pool_owns_every_connection_witness:
  "p_live (close_all (foldl (pool_step default_settings toy_pool_env) new_pool
     [PoolSend 5 ''k1'' ''slack:U1'' toy_info ''hi'' ''s'', PoolSend 6 ''k2'' ''slack:U2'' toy_info ''hi'' ''s''])) = []"
proof -
  let ?es = "[PoolSend 5 ''k1'' ''slack:U1'' toy_info ''hi'' ''s'', PoolSend 6 ''k2'' ''slack:U2'' toy_info ''hi'' ''s'']"
  have "p_live (foldl (pool_step default_settings toy_pool_env) new_pool ?es) = [2, 1]" by code_simp
  then have "1 \<in> set (p_live (foldl (pool_step default_settings toy_pool_env) new_pool ?es))" by simp
  from pool_owns_every_connection [OF refl this] show ?thesis by blast
qed



text \<open>
  Bounded exponential backoff: connecting makes at most the configured
  number of attempts; every attempt but the last that is followed by another one failed with a connection
  error and is followed by a pause of base delay times two to the power of its number less one;
  the first attempt with another outcome decides, and only a successful one opens the client.
\<close>

theorem connect_backs_off:
  assumes "connect_with_retry cfg env c p = (r, p')"
  shows "\<exists>j. 1 \<le> j \<and> j \<le> Suc (nat (ws_reconnect_max_retries cfg)) \<and>
    (\<forall>k. 1 \<le> k \<and> k < j \<longrightarrow> connection_error (pe_connect env c k)) \<and>
    (if j = Suc (nat (ws_reconnect_max_retries cfg))
     then \<not> is_ok r \<and> p_live p' = p_live p \<and> p_trace p' = p_trace p @ failed_tries cfg c 1 j
     else \<not> connection_error (pe_connect env c j) \<and> r = pe_connect env c j \<and>
       p_trace p' = p_trace p @ failed_tries cfg c 1 j @ [ConnectTry c j] \<and>
       p_live p' = (if is_ok r then [c] else []) @ p_live p)"
  using retry_loop_spec [OF assms [unfolded connect_with_retry_def]]
  by (elim exE) (rule_tac x = j in exI, auto split: if_split_asm)

theorem connect_backs_off_witness:
  "p_trace (snd (connect_with_retry default_settings toy_pool_env 0 new_pool)) =
     [ConnectTry 0 1, Slept 1, ConnectTry 0 2] \<and>
   (\<exists>j. 1 \<le> j \<and> p_trace (snd (connect_with_retry default_settings toy_pool_env 0 new_pool)) =
      failed_tries default_settings 0 1 j @ [ConnectTry 0 j])"
proof -
  let ?c = "connect_with_retry default_settings toy_pool_env 0 new_pool"
  have t: "p_trace (snd ?c) = [ConnectTry 0 1, Slept 1, ConnectTry 0 2]" by code_simp
  have ok: "is_ok (fst ?c)" by code_simp
  have n: "p_trace new_pool = []" by (simp add: new_pool_def)
  from connect_backs_off [OF prod.collapse [symmetric], of default_settings toy_pool_env 0 new_pool] ok
  have "\<exists>j. 1 \<le> j \<and> p_trace (snd ?c) = failed_tries default_settings 0 1 j @ [ConnectTry 0 j]"
    by (auto simp: n split: if_split_asm)
  with t show ?thesis by blast
qed

text \<open>
  Only idle connections are cleaned up: a cleanup pass keeps the entry, the client
  and the open connection of every user who sent a message within the idle timeout. The pass is
  taken as one step: the idle users are chosen once, and closing awaits between them.
\<close>

theorem cleanup_keeps_active_users:
  assumes "pool_ok p" "dict_ok (p_last_active p)" "dict_get (p_last_active p) u = Some t"
    and "now - t \<le> of_int (ws_idle_timeout_sec cfg)"
  shows "dict_get (p_clients (cleanup_pass cfg now p)) u = dict_get (p_clients p) u \<and>
    (\<forall>c. dict_get (p_clients p) u = Some c \<longrightarrow> c \<in> set (p_live p) \<longrightarrow> c \<in> set (p_live (cleanup_pass cfg now p)))"
proof -
  have "u \<notin> set (idle_users cfg now p)"
  proof
    assume "u \<in> set (idle_users cfg now p)"
    then obtain s where "(u, s) \<in> set (p_last_active p)" "now - s > of_int (ws_idle_timeout_sec cfg)"
      by (auto simp: idle_users_def)
    with dict_get_of_mem [OF assms(2)] assms(3,4) show False by fastforce
  qed
  from close_list_other [OF this assms(1)] show ?thesis by (simp add: cleanup_pass_def)
qed

theorem cleanup_keeps_active_users_witness:
  "dict_get (p_clients (cleanup_pass default_settings 100
     (pool_step default_settings toy_pool_env new_pool (PoolSend 50 ''k1'' ''slack:U1'' toy_info ''hi'' ''s'')))) ''slack:U1'' =
   Some 1"
proof -
  let ?p = "pool_step default_settings toy_pool_env new_pool (PoolSend 50 ''k1'' ''slack:U1'' toy_info ''hi'' ''s'')"
  have ok: "pool_ok ?p" by (rule pool_ok_step [OF pool_ok_new])
  have f: "p_last_active ?p = [(''slack:U1'', 50)]" "dict_get (p_clients ?p) ''slack:U1'' = Some 1" by (atomize (full), code_simp)
  have d: "dict_ok (p_last_active ?p)" "dict_get (p_last_active ?p) ''slack:U1'' = Some 50"
    unfolding f by (simp_all add: dict_ok_def dict_get_def)
  have i: "(100::rat) - 50 \<le> of_int (ws_idle_timeout_sec default_settings)" by code_simp
  from cleanup_keeps_active_users [OF ok d i] f(2) show ?thesis by simp
qed

section \<open>The per-user locks\<close>

text \<open>
  \<open>_get_lock\<close> hands out the lock object of a user, creating it on demand. A task asks for the
  lock, enters when it is free, and leaves; \<open>close_connection\<close> removes the user's lock from the
  table before it leaves. Locks are numbered objects; \<open>held\<close> maps a lock to its holder.
\<close>

datatype lock_pc = Outside | Waits string nat | Inside string nat

record lock_state =
  lock_table :: "(string, nat) dict"
  lock_next :: nat
  held :: "(nat, nat) dict"
  pcs :: "nat \<Rightarrow> lock_pc"

definition get_lock :: "string \<Rightarrow> lock_state \<Rightarrow> nat \<times> lock_state" where
  "get_lock user s =
     (case dict_get (lock_table s) user of
        Some l \<Rightarrow> (l, s)
      | None \<Rightarrow> (lock_next s, s\<lparr>lock_table := dict_set (lock_table s) user (lock_next s),
          lock_next := Suc (lock_next s)\<rparr>))"

definition init_locks :: lock_state where
  "init_locks = \<lparr>lock_table = [], lock_next = 0, held = [], pcs = (\<lambda>_. Outside)\<rparr>"

inductive lock_step :: "bool \<Rightarrow> lock_state \<Rightarrow> lock_state \<Rightarrow> bool" for closing where
  ask: "pcs s t = Outside \<Longrightarrow> get_lock u s = (l, s') \<Longrightarrow>
     lock_step closing s (s'\<lparr>pcs := (pcs s')(t := Waits u l)\<rparr>)"
| enter: "pcs s t = Waits u l \<Longrightarrow> dict_get (held s) l = None \<Longrightarrow>
     lock_step closing s (s\<lparr>held := dict_set (held s) l t, pcs := (pcs s)(t := Inside u l)\<rparr>)"
| leave: "pcs s t = Inside u l \<Longrightarrow>
     lock_step closing s (s\<lparr>held := dict_pop (held s) l, pcs := (pcs s)(t := Outside)\<rparr>)"
| leave_closing: "closing \<Longrightarrow> pcs s t = Inside u l \<Longrightarrow>
     lock_step closing s (s\<lparr>lock_table := dict_pop (lock_table s) u, held := dict_pop (held s) l,
       pcs := (pcs s)(t := Outside)\<rparr>)"

inductive lock_reachable :: "bool \<Rightarrow> lock_state \<Rightarrow> bool" for closing where
  begins: "lock_reachable closing init_locks"
| steps: "lock_reachable closing s \<Longrightarrow> lock_step closing s s' \<Longrightarrow> lock_reachable closing s'"

text \<open>
  Without \<open>close_connection\<close>: every task works with the lock the table has for its user, and a
  task is inside exactly when it holds that lock.
\<close>

definition locks_ok :: "lock_state \<Rightarrow> bool" where
  "locks_ok s \<longleftrightarrow>
     (\<forall>t u l. pcs s t = Waits u l \<or> pcs s t = Inside u l \<longrightarrow> dict_get (lock_table s) u = Some l) \<and>
     (\<forall>t u l. pcs s t = Inside u l \<longrightarrow> dict_get (held s) l = Some t) \<and>
     (\<forall>u v l. dict_get (lock_table s) u = Some l \<longrightarrow> dict_get (lock_table s) v = Some l \<longrightarrow> u = v) \<and>
     (\<forall>u l. dict_get (lock_table s) u = Some l \<longrightarrow> l < lock_next s)"

lemma locks_ok_step:
  assumes "lock_step False s s'" "locks_ok s"
  shows "locks_ok s'"
proof -
  note ok = assms(2) [unfolded locks_ok_def]
  from assms(1) show ?thesis
  proof cases
    case (ask t u l s1)
    have g: "dict_get (lock_table s1) u = Some l" "pcs s1 = pcs s" "held s1 = held s"
      "\<forall>v k. dict_get (lock_table s) v = Some k \<longrightarrow> dict_get (lock_table s1) v = Some k"
      using ask(3) by (auto simp: get_lock_def split: option.splits)
    have "dict_get (lock_table s) v \<noteq> Some (lock_next s)" for v using ok by blast
    then have "\<forall>v w k. dict_get (lock_table s1) v = Some k \<longrightarrow> dict_get (lock_table s1) w = Some k \<longrightarrow> v = w"
      "\<forall>v k. dict_get (lock_table s1) v = Some k \<longrightarrow> k < lock_next s1"
      using ask(3) ok by (auto simp: get_lock_def less_Suc_eq split: option.splits if_splits)
    with g ok show ?thesis unfolding ask(1) locks_ok_def by auto
  next
    case (enter t u l)
    have "k \<noteq> l" if "pcs s v = Inside w k" for v w k
      using that ok enter(3) by (metis option.distinct(1))
    with ok enter(2) show ?thesis unfolding enter(1) locks_ok_def by auto
  next
    case (leave t u l)
    have "k \<noteq> l" if "pcs s v = Inside w k" "v \<noteq> t" for v w k
      using that ok leave(2) by (metis option.inject)
    with ok show ?thesis unfolding leave(1) locks_ok_def by auto
  qed simp
qed

lemma locks_ok_reachable: "lock_reachable False s \<Longrightarrow> locks_ok s"
proof (induction rule: lock_reachable.induct)
  case begins
  show ?case by (simp add: locks_ok_def init_locks_def)
qed (rule locks_ok_step)

text \<open>
  The per-user lock excludes, except around \<open>close_connection\<close>: without it, two
  different tasks are never inside the section of the same user; with it they can be, since it
  removes the lock other tasks are still waiting for and the next task gets a new one.
\<close>

theorem user_lock_excludes_unless_closing:
  "(\<forall>s t t' u l l'. lock_reachable False s \<longrightarrow> pcs s t = Inside u l \<longrightarrow> pcs s t' = Inside u l' \<longrightarrow> t = t') \<and>
   (\<exists>s t t' l l'. lock_reachable True s \<and> t \<noteq> t' \<and>
      pcs s t = Inside ''slack:U1'' l \<and> pcs s t' = Inside ''slack:U1'' l')"
proof
  show "\<forall>s t t' u l l'. lock_reachable False s \<longrightarrow> pcs s t = Inside u l \<longrightarrow> pcs s t' = Inside u l' \<longrightarrow> t = t'"
  proof (intro allI impI)
    fix s t t' u l l'
    assume "lock_reachable False s" "pcs s t = Inside u l" "pcs s t' = Inside u l'"
    then show "t = t'" using locks_ok_reachable unfolding locks_ok_def by (metis option.inject)
  qed
next
  let ?u = "''slack:U1''"
  let ?s = "\<lambda>tb nx hd f. \<lparr>lock_table = tb, lock_next = nx, held = hd, pcs = f\<rparr>"
  note next_state = lock_reachable.steps [of True]
  let ?f = "\<lambda>_ :: nat. Outside"
  have 1: "lock_reachable True (?s [(?u, 0)] 1 [] (?f(1 := Waits ?u 0)))"
    using next_state [OF lock_reachable.begins lock_step.ask [of init_locks 1 ?u 0]]
    by (simp add: init_locks_def get_lock_def dict_set_def)
  have 2: "lock_reachable True (?s [(?u, 0)] 1 [(0, 1)] (?f(1 := Inside ?u 0)))"
    using next_state [OF 1 lock_step.enter [where t = 1 and u = ?u and l = 0]] by (simp add: dict_set_def)
  have 3: "lock_reachable True (?s [(?u, 0)] 1 [(0, 1)] (?f(1 := Inside ?u 0, 2 := Waits ?u 0)))"
    using next_state [OF 2 lock_step.ask [where t = 2 and u = ?u and l = 0]]
    by (simp add: get_lock_def dict_get_def)
  have 4: "lock_reachable True (?s [] 1 [] (?f(2 := Waits ?u 0)))"
    using next_state [OF 3 lock_step.leave_closing [where t = 1 and u = ?u and l = 0]]
    by (simp add: dict_pop_def fun_upd_twist fun_upd_idem)
  have 5: "lock_reachable True (?s [] 1 [(0, 2)] (?f(2 := Inside ?u 0)))"
    using next_state [OF 4 lock_step.enter [where t = 2 and u = ?u and l = 0]] by (simp add: dict_set_def)
  have 6: "lock_reachable True (?s [(?u, 1)] 2 [(0, 2)] (?f(2 := Inside ?u 0, 3 := Waits ?u 1)))"
    using next_state [OF 5 lock_step.ask [where t = 3 and u = ?u and l = 1]]
    by (simp add: get_lock_def dict_set_def numeral_2_eq_2)
  have 7: "lock_reachable True (?s [(?u, 1)] 2 [(0, 2), (1, 3)] (?f(2 := Inside ?u 0, 3 := Inside ?u 1)))"
    using next_state [OF 6 lock_step.enter [where t = 3 and u = ?u and l = 1]]
    by (simp add: dict_set_def dict_get_def)
  then show "\<exists>s t t' l l'. lock_reachable True s \<and> t \<noteq> t' \<and> pcs s t = Inside ?u l \<and> pcs s t' = Inside ?u l'"
    by (intro exI [of _ "?s [(?u, 1)] 2 [(0, 2), (1, 3)] (?f(2 := Inside ?u 0, 3 := Inside ?u 1))"]
        exI [of _ 2] exI [of _ 3] exI [of _ 0] exI [of _ 1] conjI) simp_all
qed

theorem user_lock_excludes_unless_closing_witness:
  "\<exists>s. lock_reachable False s \<and> pcs s 2 = Waits ''slack:U1'' 0 \<and> {t. \<exists>l. pcs s t = Inside ''slack:U1'' l} = {1}"
proof -
  let ?u = "''slack:U1''"
  let ?s = "\<lambda>hd f. \<lparr>lock_table = [(?u, 0)], lock_next = 1, held = hd, pcs = f\<rparr>"
  let ?f = "\<lambda>_ :: nat. Outside"
  note next_state = lock_reachable.steps [of False]
  have 1: "lock_reachable False (?s [] (?f(1 := Waits ?u 0)))"
    using next_state [OF lock_reachable.begins lock_step.ask [of init_locks 1 ?u 0]]
    by (simp add: init_locks_def get_lock_def dict_set_def)
  have 2: "lock_reachable False (?s [(0, 1)] (?f(1 := Inside ?u 0)))"
    using next_state [OF 1 lock_step.enter [where t = 1 and u = ?u and l = 0]] by (simp add: dict_set_def)
  have 3: "lock_reachable False (?s [(0, 1)] (?f(1 := Inside ?u 0, 2 := Waits ?u 0)))"
    using next_state [OF 2 lock_step.ask [where t = 2 and u = ?u and l = 0]]
    by (simp add: get_lock_def dict_get_def)
  then obtain s where s: "lock_reachable False s" "pcs s = ?f(1 := Inside ?u 0, 2 := Waits ?u 0)" by (metis lock_state.select_convs(4))
  then have in1: "pcs s 1 = Inside ?u 0" by simp
  have "t = 1" if "pcs s t = Inside ?u l" for t l
    by (rule conjunct1 [OF user_lock_excludes_unless_closing, rule_format, OF s(1) that in1])
  with in1 have "{t. \<exists>l. pcs s t = Inside ?u l} = {1}" by blast
  moreover have "pcs s 2 = Waits ?u 0" using s(2) by simp
  ultimately show ?thesis using s(1) by blast
qed

end
