(* ===== verification/Router.thy ===== *)
theory Router
  imports Effects Dify ChatAdapter Provisioner WsManager
begin

text \<open>
  The router (\<open>src/router.py\<close>): an incoming chat event goes to the user's OpenClaw instance and the
  answer back to the chat; proactive texts and API tasks go out to the user's last channel. A
  handler is an effect on the router's state, which holds the components it calls: the
  registry, the database with its caches, the connection pool, the disk. What the outside
  answers (the platforms, OpenClaw, Mattermost's file API, the orchestrator, Dify, clocks, random
  choices) is the environment. A handler runs without interference of others; the streamed
  updates, which are tasks of their own, are steps of the throttle. Metrics and logs are left out.
\<close>

section \<open>State and environment\<close>

record router =
  rt_registry :: registry
  rt_mattermost :: "adapter option"
  rt_db :: db
  rt_mapping :: mapping_storage
  rt_pool :: pool
  rt_user_channels :: "(string, string) dict"
  rt_disk :: disk
  rt_conversations :: history
  rt_streamers :: "streamer list"
  rt_typing :: "(adapter \<times> string \<times> string) list"
  rt_ticks :: nat
  rt_calls :: "chat_call list"

text \<open>
  The outcome of the \<open>n\<close>-th call on an adapter, of the readings of the clock and the random source,
  and of everything else the handlers ask the outside for. \<open>re_stream\<close> gives the chunks that arrive
  while a message is processed.
\<close>

record router_env =
  re_call :: "nat \<Rightarrow> chat_call \<Rightarrow> string result"
  re_clock :: "nat \<Rightarrow> rat"
  re_uuid4 :: "nat \<Rightarrow> string"
  re_phrase :: "nat \<Rightarrow> nat"
  re_db_up :: bool
  re_files :: files_api
  re_realpath :: "string \<Rightarrow> string"
  re_pool :: pool_env
  re_stream :: "stream_event list"
  re_provision :: provision_env
  re_dify :: dify_env

type_synonym 'a rt = "(router, 'a) eff"

definition new_router :: "registry \<Rightarrow> db \<Rightarrow> router" where
  "new_router reg d = \<lparr>rt_registry = reg, rt_mattermost = registry_get reg ''mattermost'', rt_db = d,
     rt_mapping = new_storage, rt_pool = new_pool, rt_user_channels = [],
     rt_disk = \<lparr>contents = [], unwritable = []\<rparr>, rt_conversations = [], rt_streamers = [],
     rt_typing = [], rt_ticks = 0, rt_calls = []\<rparr>"

text \<open>The file manager exists when the Mattermost adapter (whose HTTP client it uses) does.\<close>

definition has_file_manager :: "router \<Rightarrow> bool" where
  "has_file_manager s \<longleftrightarrow> rt_mattermost s \<noteq> None"

definition has_dify :: "settings \<Rightarrow> bool" where
  "has_dify cfg \<longleftrightarrow> dify_api_key cfg \<noteq> []"

definition get_adapter :: "router \<Rightarrow> string \<Rightarrow> adapter option" where
  "get_adapter s provider =
     (case registry_get (rt_registry s) provider of
        Some a \<Rightarrow> Some a
      | None \<Rightarrow> if provider = DEFAULT_PROVIDER \<or> provider = [] then rt_mattermost s else None)"

definition identity_key :: "string \<Rightarrow> string \<Rightarrow> string" where
  "identity_key provider provider_user_id = provider @ '':'' @ provider_user_id"

definition normalize_identity_key :: "string \<Rightarrow> string \<Rightarrow> string" where
  "normalize_identity_key provider user_id =
     (if startswith user_id (provider @ '':'') then user_id else identity_key provider user_id)"

definition provider_user_id :: "string \<Rightarrow> string \<Rightarrow> string" where
  "provider_user_id key provider =
     (if startswith key (provider @ '':'') then drop (length (provider @ '':'')) key else key)"

section \<open>Calls\<close>

definition call_adapter :: "router_env \<Rightarrow> chat_call \<Rightarrow> string rt" where
  "call_adapter env c s = (re_call env (length (rt_calls s)) c, s\<lparr>rt_calls := rt_calls s @ [c]\<rparr>)"

definition send_reply :: "router_env \<Rightarrow> adapter \<Rightarrow> string \<Rightarrow> string \<Rightarrow> string \<Rightarrow> string rt" where
  "send_reply env a channel_id message root_id = call_adapter env (SendReply a channel_id message root_id)"

definition update_reply :: "router_env \<Rightarrow> adapter \<Rightarrow> string \<Rightarrow> string \<Rightarrow> string \<Rightarrow> unit rt" where
  "update_reply env a post_id message channel_id =
     eseq (call_adapter env (UpdateReply a post_id message channel_id)) (eret ())"

text \<open>The keyword of the list must be one the adapter's method takes.\<close>

definition send_post_with_files ::
    "router_env \<Rightarrow> adapter \<Rightarrow> string \<Rightarrow> string \<Rightarrow> string list \<Rightarrow> string \<Rightarrow> string rt" where
  "send_post_with_files env a channel_id message files root_id =
     (if files_parameter a \<noteq> ''file_ids_or_paths'' then eraise PyTypeError
      else call_adapter env (SendPostWithFiles a channel_id message files root_id))"

definition tick :: "(nat \<Rightarrow> 'a) \<Rightarrow> 'a rt" where
  "tick f s = (Ok (f (rt_ticks s)), s\<lparr>rt_ticks := Suc (rt_ticks s)\<rparr>)"

text \<open>A statement on the database, when it can be reached.\<close>

definition db_call :: "router_env \<Rightarrow> 'a rt \<Rightarrow> 'a rt" where
  "db_call env m = (if re_db_up env then m else eraise (PyException ''database unavailable''))"

definition remember_channel_rt :: "router_env \<Rightarrow> string \<Rightarrow> string \<Rightarrow> string \<Rightarrow> string \<Rightarrow> unit rt" where
  "remember_channel_rt env key provider puid channel_id =
     eseq (emod (\<lambda>s. s\<lparr>rt_user_channels := dict_set (rt_user_channels s) key channel_id\<rparr>))
       (etry (db_call env (\<lambda>s. case remember_channel provider puid channel_id (rt_db s) of
                (r, d) \<Rightarrow> (r, s\<lparr>rt_db := d\<rparr>)))
          (\<lambda>_. eret ()))"

section \<open>Texts\<close>

definition thinking_phrases :: "string list" where
  "thinking_phrases =
    [[CHR 0xF0, CHR 0x9F, CHR 0x92, CHR 0xAD] @ '' Thinking...'',
     [CHR 0xE2, CHR 0x9C, CHR 0x8D, CHR 0xEF, CHR 0xB8, CHR 0x8F] @ '' Writing an answer...'',
     [CHR 0xF0, CHR 0x9F, CHR 0xA7, CHR 0xA0] @ '' Processing...'',
     [CHR 0xF0, CHR 0x9F, CHR 0x94, CHR 0x8D] @ '' Reviewing the request...'',
     [CHR 0xE2, CHR 0x9A, CHR 0x99, CHR 0xEF, CHR 0xB8, CHR 0x8F] @ '' Working...'',
     [CHR 0xE2, CHR 0x8F, CHR 0xB3] @ '' One moment...'',
     [CHR 0xF0, CHR 0x9F, CHR 0xA4, CHR 0x93] @ '' Remembering...'',
     [CHR 0xF0, CHR 0x9F, CHR 0x93, CHR 0x9A] @ '' Looking for information...'',
     [CHR 0xE2, CHR 0x9C, CHR 0xA8] @ '' Creating a response...'',
     [CHR 0xF0, CHR 0x9F, CHR 0x93, CHR 0x9D] @ '' Formulating a reply...'',
     [CHR 0xF0, CHR 0x9F, CHR 0xA4, CHR 0x96] @ '' Gears are turning...'',
     [CHR 0xF0, CHR 0x9F, CHR 0x92, CHR 0xA1] @ '' Gathering ideas...'',
     [CHR 0xF0, CHR 0x9F, CHR 0xA7, CHR 0xA9] @ '' Putting the pieces together...'',
     [CHR 0xF0, CHR 0x9F, CHR 0x9A, CHR 0x80] @ '' Preparing the answer...'',
     [CHR 0xF0, CHR 0x9F, CHR 0xA7, CHR 0x90] @ '' Analyzing...'']"

definition dify_phrases :: "string list" where
  "dify_phrases =
    [[CHR 0xF0, CHR 0x9F, CHR 0x92, CHR 0xAD] @ '' Thinking...'',
     [CHR 0xE2, CHR 0x9C, CHR 0x8D, CHR 0xEF, CHR 0xB8, CHR 0x8F] @ '' Writing an answer...'',
     [CHR 0xF0, CHR 0x9F, CHR 0xA7, CHR 0xA0] @ '' Processing...'',
     [CHR 0xF0, CHR 0x9F, CHR 0x94, CHR 0x8D] @ '' Reviewing the request...'',
     [CHR 0xE2, CHR 0x9A, CHR 0x99, CHR 0xEF, CHR 0xB8, CHR 0x8F] @ '' Working...'',
     [CHR 0xE2, CHR 0x8F, CHR 0xB3] @ '' One moment...'',
     [CHR 0xF0, CHR 0x9F, CHR 0x93, CHR 0x9A] @ '' Looking for information...'',
     [CHR 0xF0, CHR 0x9F, CHR 0x9A, CHR 0x80] @ '' Preparing the answer...'']"

definition INIT_TEXT :: string where
  "INIT_TEXT = [CHR 0xE2, CHR 0x8F, CHR 0xB3] @ '' Initializing your personal OpenClaw workspace...''"

definition READY_TEXT :: string where
  "READY_TEXT = [CHR 0xE2, CHR 0x9C, CHR 0x85] @ '' Workspace ready! Processing your message...''"

definition PROVISION_FAILED_TEXT :: string where
  "PROVISION_FAILED_TEXT = [CHR 0xE2, CHR 0x9D, CHR 0x8C] @ '' Failed to initialize your workspace: ''"

definition NO_INSTANCE_TEXT :: string where
  "NO_INSTANCE_TEXT = [CHR 0xE2, CHR 0x9A, CHR 0xA0, CHR 0xEF, CHR 0xB8, CHR 0x8F] @ '' No OpenClaw instance is assigned to your account. '' @
     ''Please contact the administrator.''"

definition ERROR_TEXT :: string where
  "ERROR_TEXT = [CHR 0xE2, CHR 0x9D, CHR 0x8C] @ '' An error occurred while processing the request. '' @ ''Please try again later.''"

definition NO_ANSWER_TEXT :: string where
  "NO_ANSWER_TEXT = [CHR 0xE2, CHR 0x9D, CHR 0x8C] @ '' Unable to get a response. Please try again later.''"

definition TASK_ERROR_TEXT :: string where
  "TASK_ERROR_TEXT = [CHR 0xE2, CHR 0x9D, CHR 0x8C] @ '' An error occurred while executing the background task.''"

text \<open>\<open>random.choice\<close>.\<close>

definition random_choice :: "'a list \<Rightarrow> nat \<Rightarrow> 'a" where
  "random_choice xs n = xs ! (n mod length xs)"

section \<open>Placeholder, typing, streaming\<close>

definition try_placeholder :: "router_env \<Rightarrow> adapter \<Rightarrow> channel_event \<Rightarrow> string list \<Rightarrow> string rt" where
  "try_placeholder env a ev phrases =
     ebind (tick (re_phrase env)) (\<lambda>n.
     etry (send_reply env a (ev_channel_id ev) (random_choice phrases n) (ev_root_id ev)) (\<lambda>_. eret []))"

definition typing_task :: "adapter \<Rightarrow> channel_event \<Rightarrow> adapter \<times> string \<times> string" where
  "typing_task a ev = (a, ev_channel_id ev, ev_root_id ev)"

definition start_typing :: "adapter \<Rightarrow> channel_event \<Rightarrow> unit rt" where
  "start_typing a ev = emod (\<lambda>s. s\<lparr>rt_typing := typing_task a ev # rt_typing s\<rparr>)"

definition cancel_typing :: "adapter \<Rightarrow> channel_event \<Rightarrow> router \<Rightarrow> router" where
  "cancel_typing a ev s = s\<lparr>rt_typing := remove1 (typing_task a ev) (rt_typing s)\<rparr>"

definition streamer_for :: "adapter \<Rightarrow> string \<Rightarrow> channel_event \<Rightarrow> streamer option" where
  "streamer_for a placeholder_id ev =
     (if placeholder_id \<noteq> [] then Some (new_streamer a placeholder_id (ev_channel_id ev)) else None)"

text \<open>The typing task runs while the statement does, however that ends.\<close>

definition with_typing :: "adapter \<Rightarrow> channel_event \<Rightarrow> 'a rt \<Rightarrow> 'a rt" where
  "with_typing a ev m = eseq (start_typing a ev) (efinally m (cancel_typing a ev))"

text \<open>The chunks that arrive during a send drive the throttle; its state is kept for later ones.\<close>

definition run_stream :: "streamer \<Rightarrow> stream_event list \<Rightarrow> router \<Rightarrow> router" where
  "run_stream su es s =
     (case stream_run su es of (su', outs) \<Rightarrow>
        s\<lparr>rt_streamers := rt_streamers s @ [su'], rt_calls := rt_calls s @ stream_calls su outs\<rparr>)"

text \<open>A later event of the \<open>i\<close>-th throttle.\<close>

definition late_stream_event :: "nat \<Rightarrow> stream_event \<Rightarrow> router \<Rightarrow> router" where
  "late_stream_event i e s =
     (if i < length (rt_streamers s) then
        (case stream_step (rt_streamers s ! i) e of (su', out) \<Rightarrow>
           s\<lparr>rt_streamers := (rt_streamers s)[i := su'],
             rt_calls := rt_calls s @ (case out of None \<Rightarrow> [] | Some (now, t) \<Rightarrow> [stream_call su' t])\<rparr>)
      else s)"

definition ws_send ::
    "settings \<Rightarrow> router_env \<Rightarrow> string \<Rightarrow> instance_info \<Rightarrow> string \<Rightarrow> string \<Rightarrow> streamer option \<Rightarrow>
     (string \<times> string list) rt" where
  "ws_send cfg env user info message session_key streamer_opt s =
     (case pool_send_message cfg (re_pool env) (re_clock env (rt_ticks s)) (re_uuid4 env (rt_ticks s))
        user info message session_key (rt_pool s) of
        (r, p) \<Rightarrow>
          let s1 = s\<lparr>rt_pool := p, rt_ticks := Suc (rt_ticks s)\<rparr>
          in (r, case streamer_opt of None \<Rightarrow> s1 | Some su \<Rightarrow> run_stream su (re_stream env) s1))"

section \<open>Dify fallback\<close>

text \<open>Dify's chunks are awaited one by one, so an update ends before the next chunk is read.\<close>

definition dify_on_stream :: "router_env \<Rightarrow> string \<Rightarrow> (streamer \<times> router, unit) eff" where
  "dify_on_stream env text = (\<lambda>(su, s).
     case stream_run su [Chunk (re_clock env (rt_ticks s)) text, UpdateDone] of (su', outs) \<Rightarrow>
       (Ok (), (su', s\<lparr>rt_ticks := Suc (rt_ticks s), rt_calls := rt_calls s @ stream_calls su outs\<rparr>)))"

definition dify_turn :: "router_env \<Rightarrow> channel_event \<Rightarrow> streamer option \<Rightarrow> string rt" where
  "dify_turn env ev streamer_opt s =
     (let (r, s1) = (case streamer_opt of
          None \<Rightarrow> dify_chat (re_dify env) (rt_conversations s) (ev_user_id ev) (ev_text ev) None s
        | Some su \<Rightarrow>
            (case dify_chat (re_dify env) (rt_conversations s) (ev_user_id ev) (ev_text ev)
                (Some (dify_on_stream env)) (su, s) of (r, (_, s1)) \<Rightarrow> (r, s1)))
      in case r of
           Inr (answer, hist) \<Rightarrow> (Ok answer, s1\<lparr>rt_conversations := hist\<rparr>)
         | Inl e \<Rightarrow> (Inl e, s1))"

definition dify_deliver :: "router_env \<Rightarrow> adapter \<Rightarrow> channel_event \<Rightarrow> string \<Rightarrow> string \<Rightarrow> unit rt" where
  "dify_deliver env a ev placeholder_id text =
     (if placeholder_id \<noteq> [] then update_reply env a placeholder_id text (ev_channel_id ev)
      else eseq (send_reply env a (ev_channel_id ev) text (ev_root_id ev)) (eret ()))"

definition handle_dify_fallback :: "settings \<Rightarrow> router_env \<Rightarrow> channel_event \<Rightarrow> unit rt" where
  "handle_dify_fallback cfg env ev =
     ebind (eget (\<lambda>s. get_adapter s (ev_provider ev))) (\<lambda>adapter_opt.
     case adapter_opt of
       None \<Rightarrow> eret ()
     | Some a \<Rightarrow>
         ebind (try_placeholder env a ev dify_phrases) (\<lambda>placeholder_id.
         with_typing a ev
           (etry
              (ebind (dify_turn env ev (streamer_for a placeholder_id ev)) (\<lambda>response.
               if response \<noteq> [] then dify_deliver env a ev placeholder_id response
               else dify_deliver env a ev placeholder_id NO_ANSWER_TEXT))
              (\<lambda>_. etry (dify_deliver env a ev placeholder_id ERROR_TEXT) (\<lambda>_. eret ())))))"

section \<open>Finding the user's instance\<close>

definition lookup_info :: "settings \<Rightarrow> router_env \<Rightarrow> channel_event \<Rightarrow> instance_info rt" where
  "lookup_info cfg env ev =
     ebind (tick (re_clock env)) (\<lambda>now.
     db_call env (\<lambda>s. case get_instance_by_identity cfg now (rt_db s) (ev_provider ev) (ev_user_id ev) (rt_mapping s) of
       (r, m) \<Rightarrow> (r, s\<lparr>rt_mapping := m\<rparr>)))"

definition provision_rt :: "settings \<Rightarrow> router_env \<Rightarrow> channel_event \<Rightarrow> instance_info rt" where
  "provision_rt cfg env ev s =
     (case provision_instance cfg (re_provision env) (ev_provider ev) (ev_user_id ev)
        (rt_db s) (rt_mapping s) (rt_disk s) of
        (r, d, m, dk) \<Rightarrow> (r, s\<lparr>rt_db := d, rt_mapping := m, rt_disk := dk\<rparr>))"

text \<open>The final text replaces the placeholder; Mattermost needs no channel for it.\<close>

definition update_placeholder :: "router_env \<Rightarrow> adapter \<Rightarrow> channel_event \<Rightarrow> string \<Rightarrow> string \<Rightarrow> unit rt" where
  "update_placeholder env a ev placeholder_id text =
     update_reply env a placeholder_id text
       (if ev_provider ev = ''mattermost'' then [] else ev_channel_id ev)"

text \<open>A user without an instance: the info when provisioning gave one, \<open>None\<close> when the user was answered.\<close>

definition handle_unmapped :: "settings \<Rightarrow> router_env \<Rightarrow> adapter \<Rightarrow> channel_event \<Rightarrow> instance_info option rt" where
  "handle_unmapped cfg env a ev =
     (if enable_auto_provisioning cfg then
        etry
          (ebind (send_reply env a (ev_channel_id ev) INIT_TEXT (ev_root_id ev)) (\<lambda>placeholder_id.
           ebind (provision_rt cfg env ev) (\<lambda>info.
           eseq (ewhen (placeholder_id \<noteq> []) (update_placeholder env a ev placeholder_id READY_TEXT))
             (eret (Some info)))))
          (\<lambda>e. eseq (if has_dify cfg then handle_dify_fallback cfg env ev
                 else eseq (send_reply env a (ev_channel_id ev) (PROVISION_FAILED_TEXT @ exn_text e)
                   (ev_root_id ev)) (eret ()))
               (eret None))
      else if has_dify cfg then eseq (handle_dify_fallback cfg env ev) (eret None)
      else eseq (send_reply env a (ev_channel_id ev) NO_INSTANCE_TEXT (ev_root_id ev)) (eret None))"

fun not_mapped :: "exn \<Rightarrow> bool" where
  "not_mapped (InstanceNotFoundError m) = True"
| "not_mapped _ = False"

definition resolve_info :: "settings \<Rightarrow> router_env \<Rightarrow> adapter \<Rightarrow> channel_event \<Rightarrow> instance_info option rt" where
  "resolve_info cfg env a ev =
     ebind (eget (\<lambda>s. get_cached_info (rt_pool s) (identity_key (ev_provider ev) (ev_user_id ev)))) (\<lambda>cached.
     case cached of
       Some info \<Rightarrow> eret (Some info)
     | None \<Rightarrow>
         ecatch not_mapped (ebind (lookup_info cfg env ev) (\<lambda>info. eret (Some info)))
           (\<lambda>_. handle_unmapped cfg env a ev))"

section \<open>Attachments\<close>

fun attachment_failure :: "exn \<Rightarrow> bool" where
  "attachment_failure (OSErr m) = True"
| "attachment_failure (HTTPError m) = True"
| "attachment_failure _ = False"

definition download_rt :: "settings \<Rightarrow> router_env \<Rightarrow> string list \<Rightarrow> string \<Rightarrow> downloaded_file list rt" where
  "download_rt cfg env file_ids uuid s =
     (case download_attachments cfg (re_files env) (re_uuid4 env) file_ids uuid (rt_disk s) of
        (r, dk) \<Rightarrow> (r, s\<lparr>rt_disk := dk\<rparr>))"

definition with_context :: "string \<Rightarrow> downloaded_file list \<Rightarrow> string" where
  "with_context text downloaded =
     (let ctx = build_attachment_context downloaded in
      if ctx = [] then text
      else if py_strip text = [] then ''User attached file(s) without text.'' @ ctx
      else text @ ctx)"

definition message_with_attachments ::
    "settings \<Rightarrow> router_env \<Rightarrow> channel_event \<Rightarrow> instance_info \<Rightarrow> string rt" where
  "message_with_attachments cfg env ev info =
     ebind (eget has_file_manager) (\<lambda>fm.
     if ev_file_ids ev = [] \<or> \<not> fm then eret (ev_text ev)
     else case extract_uuid_from_instance_url (instance_url info) of
       None \<Rightarrow> eret (ev_text ev)
     | Some uuid \<Rightarrow>
         ecatch attachment_failure
           (ebind (download_rt cfg env (ev_file_ids ev) uuid) (\<lambda>files. eret (with_context (ev_text ev) files)))
           (\<lambda>_. eret (ev_text ev)))"

text \<open>One media path of an answer: what is passed to the adapter for it, if anything.\<close>

definition outgoing_file ::
    "settings \<Rightarrow> router_env \<Rightarrow> channel_event \<Rightarrow> string \<Rightarrow> string \<Rightarrow> string list rt" where
  "outgoing_file cfg env ev uuid container_path =
     (let host_path = container_path_to_host cfg (re_realpath env) container_path uuid in
      if host_path = [] then eret []
      else
        ebind (eget has_file_manager) (\<lambda>fm.
        if ev_provider ev = ''mattermost'' \<and> fm then
          ebind (\<lambda>s. (upload_to_mattermost cfg (re_files env) host_path (ev_channel_id ev) (rt_disk s), s)) (\<lambda>fid.
          case fid of None \<Rightarrow> eret [] | Some f \<Rightarrow> eret (if f = [] then [] else [f]))
        else eret [host_path]))"

definition outgoing_files ::
    "settings \<Rightarrow> router_env \<Rightarrow> channel_event \<Rightarrow> instance_info \<Rightarrow> string list \<Rightarrow> string list rt" where
  "outgoing_files cfg env ev info media =
     (case extract_uuid_from_instance_url (instance_url info) of
        None \<Rightarrow> eret []
      | Some uuid \<Rightarrow> ebind (emap (outgoing_file cfg env ev uuid) media) (\<lambda>xs. eret (concat xs)))"

section \<open>Answering an event\<close>

definition deliver ::
    "router_env \<Rightarrow> adapter \<Rightarrow> channel_event \<Rightarrow> string \<Rightarrow> string \<Rightarrow> string list \<Rightarrow> unit rt" where
  "deliver env a ev placeholder_id response files =
     (if files \<noteq> [] then
        if placeholder_id \<noteq> [] then
          eseq (update_placeholder env a ev placeholder_id response)
            (eseq (send_post_with_files env a (ev_channel_id ev) [] files (ev_root_id ev)) (eret ()))
        else eseq (send_post_with_files env a (ev_channel_id ev) response files (ev_root_id ev)) (eret ())
      else if placeholder_id \<noteq> [] then update_placeholder env a ev placeholder_id response
      else eseq (send_reply env a (ev_channel_id ev) response (ev_root_id ev)) (eret ()))"

definition session_key_of :: "string \<Rightarrow> string \<Rightarrow> string" where
  "session_key_of provider channel_id = provider @ '':chan:'' @ channel_id"

definition ask_openclaw ::
    "settings \<Rightarrow> router_env \<Rightarrow> adapter \<Rightarrow> channel_event \<Rightarrow> instance_info \<Rightarrow> string \<Rightarrow> string \<Rightarrow> unit rt" where
  "ask_openclaw cfg env a ev info message_text placeholder_id =
     ebind (ws_send cfg env (identity_key (ev_provider ev) (ev_user_id ev)) info message_text
       (session_key_of (ev_provider ev) (ev_channel_id ev)) (streamer_for a placeholder_id ev))
     (\<lambda>(response, media).
       if response \<noteq> [] then
         ebind (outgoing_files cfg env ev info media) (\<lambda>files.
         deliver env a ev placeholder_id response files)
       else eret ())"

definition answer_event :: "settings \<Rightarrow> router_env \<Rightarrow> adapter \<Rightarrow> channel_event \<Rightarrow> instance_info \<Rightarrow> unit rt" where
  "answer_event cfg env a ev info =
     ebind (message_with_attachments cfg env ev info) (\<lambda>message_text.
     ebind (try_placeholder env a ev thinking_phrases) (\<lambda>placeholder_id.
     with_typing a ev
       (etry (ask_openclaw cfg env a ev info message_text placeholder_id)
          (\<lambda>_. eseq (send_reply env a (ev_channel_id ev) ERROR_TEXT (ev_root_id ev)) (eret ())))))"

definition handle_event :: "settings \<Rightarrow> router_env \<Rightarrow> channel_event \<Rightarrow> unit rt" where
  "handle_event cfg env ev =
     ebind (eget (\<lambda>s. get_adapter s (ev_provider ev))) (\<lambda>adapter_opt.
     case adapter_opt of
       None \<Rightarrow> eret ()
     | Some a \<Rightarrow>
         eseq (remember_channel_rt env (identity_key (ev_provider ev) (ev_user_id ev)) (ev_provider ev)
             (ev_user_id ev) (ev_channel_id ev))
         (ebind (resolve_info cfg env a ev) (\<lambda>info_opt.
          case info_opt of None \<Rightarrow> eret () | Some info \<Rightarrow> answer_event cfg env a ev info)))"

section \<open>Outgoing messages\<close>

text \<open>
  \<open>get_or_create_channel\<close>: when the local cache has no channel, the database is asked (a failure is
  logged) and its channel returned. In every other case, a cached channel included, the adapter
  opens a direct channel, which becomes the remembered one.
\<close>

definition lookup_channel :: "router_env \<Rightarrow> string \<Rightarrow> string \<Rightarrow> string option rt" where
  "lookup_channel env provider puid =
     etry (db_call env (\<lambda>s. (get_channel provider puid (rt_db s), s))) (\<lambda>_. eret None)"

definition open_dm :: "router_env \<Rightarrow> string \<Rightarrow> string \<Rightarrow> string \<Rightarrow> string rt" where
  "open_dm env key puid provider =
     ebind (eget (\<lambda>s. get_adapter s provider)) (\<lambda>adapter_opt.
     case adapter_opt of
       None \<Rightarrow> eret []
     | Some a \<Rightarrow>
         ebind (call_adapter env (GetOrCreateDm a puid)) (\<lambda>channel_id.
         eseq (ewhen (channel_id \<noteq> []) (remember_channel_rt env key provider puid channel_id))
           (eret channel_id)))"

fun known :: "string option \<Rightarrow> bool" where
  "known (Some c) = (c \<noteq> [])"
| "known None = False"

definition get_or_create_channel :: "router_env \<Rightarrow> string \<Rightarrow> string \<Rightarrow> string \<Rightarrow> string rt" where
  "get_or_create_channel env key puid provider =
     ebind (eget (\<lambda>s. dict_get (rt_user_channels s) key)) (\<lambda>cached.
     if \<not> known cached then
       ebind (lookup_channel env provider puid) (\<lambda>stored.
       if known stored then
         eseq (emod (\<lambda>s. s\<lparr>rt_user_channels := dict_set (rt_user_channels s) key (the stored)\<rparr>))
           (eret (the stored))
       else open_dm env key puid provider)
     else open_dm env key puid provider)"

definition reply_if :: "router_env \<Rightarrow> adapter option \<Rightarrow> string \<Rightarrow> string \<Rightarrow> unit rt" where
  "reply_if env adapter_opt channel_id text =
     (case adapter_opt of
        Some a \<Rightarrow> if channel_id \<noteq> [] then eseq (send_reply env a channel_id text []) (eret ()) else eret ()
      | None \<Rightarrow> eret ())"

definition trigger_message ::
    "settings \<Rightarrow> router_env \<Rightarrow> string \<Rightarrow> instance_info \<Rightarrow> string \<Rightarrow> string option \<Rightarrow> string \<Rightarrow> unit rt" where
  "trigger_message cfg env user_id info text session_key0 provider =
     (let key = identity_key provider user_id in
      ebind (get_or_create_channel env key user_id provider) (\<lambda>channel_id.
      ebind (eget (\<lambda>s. get_adapter s provider)) (\<lambda>adapter_opt.
      let session_key = (if known session_key0 then the session_key0
            else if channel_id \<noteq> [] then session_key_of provider channel_id else ''agent:main:main'')
      in etry
           (ebind (ws_send cfg env key info text session_key None) (\<lambda>(response, media).
            if response \<noteq> [] then reply_if env adapter_opt channel_id response else eret ()))
           (\<lambda>_. reply_if env adapter_opt channel_id TASK_ERROR_TEXT))))"

definition handle_proactive :: "router_env \<Rightarrow> string \<Rightarrow> string \<Rightarrow> string \<Rightarrow> unit rt" where
  "handle_proactive env user_id text provider =
     (let key = normalize_identity_key provider user_id;
          puid = provider_user_id key provider in
      ebind (eget (\<lambda>s. get_adapter s provider)) (\<lambda>adapter_opt.
      case adapter_opt of
        None \<Rightarrow> eret ()
      | Some a \<Rightarrow>
          ebind (get_or_create_channel env key puid provider) (\<lambda>channel_id.
          if channel_id = [] then eret ()
          else if text = [] then eret ()
          else etry (eseq (send_reply env a channel_id text []) (eret ())) (\<lambda>_. eret ()))))"

text \<open>
  The callback \<open>src/main.py\<close> installs for texts OpenClaw sends unasked: it passes the pool's key of
  the user and leaves the provider at its default.
\<close>

definition on_proactive :: "router_env \<Rightarrow> string \<Rightarrow> string \<Rightarrow> unit rt" where
  "on_proactive env user_key text = handle_proactive env user_key text DEFAULT_PROVIDER"

end
