(* ===== verification/RouterLaws.thy ===== *)
theory RouterLaws
  imports Router
begin

text \<open>
  What the router's handlers do and do not touch. \<open>router_frame\<close> is the contract of a relation that
  internal steps and permitted platform calls respect; its interpretation says which calls an
  event can cause. Then the shape of an answer, the treatment of users without an instance, and the
  outgoing paths.
\<close>

section \<open>Frames of the router\<close>

text \<open>Steps that change nothing the outside or another handler relies on.\<close>

definition internal_step :: "router \<Rightarrow> router \<Rightarrow> bool" where
  "internal_step s t \<longleftrightarrow> rt_registry t = rt_registry s \<and> rt_mattermost t = rt_mattermost s \<and>
     rt_typing t = rt_typing s \<and> rt_calls t = rt_calls s \<and> rt_user_channels t = rt_user_channels s \<and>
     (schema_ok (rt_db s) \<longrightarrow> schema_ok (rt_db t) \<and> channels (rt_db t) = channels (rt_db s))"

definition has_adapter :: "channel_event \<Rightarrow> adapter \<Rightarrow> router \<Rightarrow> bool" where
  "has_adapter ev a s \<longleftrightarrow> get_adapter s (ev_provider ev) = Some a"

lemma has_adapter_cong:
  "rt_registry t = rt_registry s \<Longrightarrow> rt_mattermost t = rt_mattermost s \<Longrightarrow> has_adapter ev a t = has_adapter ev a s"
  by (simp add: has_adapter_def get_adapter_def cong: if_cong option.case_cong)

locale router_frame = frame R "has_adapter ev a"
  for R :: "router \<Rightarrow> router \<Rightarrow> bool" and ev :: channel_event and a :: adapter +
  fixes allowed :: "chat_call \<Rightarrow> bool"
  assumes internal: "internal_step s t \<Longrightarrow> R s t"
    and appended: "list_all allowed cs \<Longrightarrow> R s (s\<lparr>rt_calls := rt_calls s @ cs\<rparr>)"
    and bracket: "R (s\<lparr>rt_typing := x # rt_typing s\<rparr>) t \<Longrightarrow> R s (t\<lparr>rt_typing := remove1 x (rt_typing t)\<rparr>)"
    and replies: "allowed (SendReply a (ev_channel_id ev) m (ev_root_id ev))"
    and updates: "allowed (UpdateReply a p m (ev_channel_id ev))"
    and plain_updates: "ev_provider ev = ''mattermost'' \<Longrightarrow> allowed (UpdateReply a p m [])"

text \<open>The throttle of a Dify answer lives beside the router's state during the turn.\<close>

definition same_target :: "streamer \<Rightarrow> streamer \<Rightarrow> bool" where
  "same_target su su' \<longleftrightarrow> su_adapter su' = su_adapter su \<and> su_channel_id su' = su_channel_id su"

definition targets :: "adapter \<Rightarrow> channel_event \<Rightarrow> streamer \<Rightarrow> bool" where
  "targets a ev su \<longleftrightarrow> su_adapter su = a \<and> su_channel_id su = ev_channel_id ev"

lemma same_target_run: "stream_run su es = (su', outs) \<Longrightarrow> same_target su su'"
  using stream_run_frame by (simp add: same_target_def)

sublocale router_frame \<subseteq> streamed: frame
  "\<lambda>(su, s) (su', s'). same_target su su' \<and> R s s'" "\<lambda>(su, s). targets a ev su \<and> has_adapter ev a s"
proof unfold_locales
  fix p q :: "streamer \<times> router"
  assume "(\<lambda>(su, s) (su', s'). same_target su su' \<and> R s s') p q"
    "(\<lambda>(su, s). targets a ev su \<and> has_adapter ev a s) p"
  then show "(\<lambda>(su, s). targets a ev su \<and> has_adapter ev a s) q"
    using stable by (cases p; cases q) (auto simp: same_target_def targets_def)
qed (auto simp: same_target_def intro: refl trans)

context router_frame
begin

lemma keeps_internal: "(\<And>s r s'. m s = (r, s') \<Longrightarrow> internal_step s s') \<Longrightarrow> keeps m"
  by (rule keepsI) (auto intro: internal)

lemma keeps_call: "allowed c \<Longrightarrow> keeps (call_adapter env c)"
  by (rule keepsI) (auto simp: call_adapter_def intro!: appended)

lemma keeps_send_reply [intro]: "keeps (send_reply env a (ev_channel_id ev) m (ev_root_id ev))"
  unfolding send_reply_def by (intro keeps_call replies)

lemma keeps_update_reply [intro]: "keeps (update_reply env a p m (ev_channel_id ev))"
  unfolding update_reply_def by (intro keeps_rules keeps_call updates)

lemma keeps_update_placeholder [intro]: "keeps (update_placeholder env a ev p m)"
  unfolding update_placeholder_def update_reply_def
  by (cases "ev_provider ev = ''mattermost''") (auto intro!: keeps_rules keeps_call updates plain_updates)

lemma keeps_tick [intro]: "keeps (tick f)"
  by (rule keeps_internal) (auto simp: tick_def internal_step_def)

lemma keeps_db_call: "keeps m \<Longrightarrow> keeps (db_call env m)"
  unfolding db_call_def by (intro keeps_rules)

lemma keeps_with_typing:
  assumes "keeps m"
  shows "keeps (with_typing a ev m)"
proof (rule keepsI)
  fix s r s' assume i: "has_adapter ev a s" and r: "with_typing a ev m s = (r, s')"
  let ?s = "s\<lparr>rt_typing := typing_task a ev # rt_typing s\<rparr>"
  obtain s1 where s1: "m ?s = (r, s1)" "s' = cancel_typing a ev s1"
    using r by (auto simp: with_typing_def eseq_def start_typing_def ebind_def emod_def efinally_def split: prod.splits)
  have "has_adapter ev a ?s" using i has_adapter_cong [of ?s s] by simp
  from keepsD [OF assms s1(1) this] show "R s s'"
    unfolding s1(2) cancel_typing_def by (rule bracket)
qed

lemma keeps_try_placeholder [intro]: "keeps (try_placeholder env a ev phrases)"
  unfolding try_placeholder_def by (intro keeps_rules keeps_tick keeps_send_reply)

lemma stream_calls_allowed: "targets a ev su \<Longrightarrow> list_all allowed (stream_calls su outs)"
  using updates by (auto simp: stream_calls_def stream_call_def targets_def list_all_iff)

lemma streamer_for_targets: "streamer_for a p ev = Some su \<Longrightarrow> targets a ev su"
  by (auto simp: streamer_for_def targets_def new_streamer_def split: if_split_asm)

lemma keeps_ws_send [intro]: "keeps (ws_send cfg env user info message sk (streamer_for a p ev))"
proof (rule keepsI)
  fix s r s' assume w: "ws_send cfg env user info message sk (streamer_for a p ev) s = (r, s')"
  obtain pl where pl: "pool_send_message cfg (re_pool env) (re_clock env (rt_ticks s)) (re_uuid4 env (rt_ticks s))
        user info message sk (rt_pool s) = (r, pl)"
    using w by (auto simp: ws_send_def Let_def split: prod.splits)
  let ?s1 = "s\<lparr>rt_pool := pl, rt_ticks := Suc (rt_ticks s)\<rparr>"
  have 1: "R s ?s1" by (rule internal) (simp add: internal_step_def)
  show "R s s'"
  proof (cases "streamer_for a p ev")
    case None
    with w pl 1 show ?thesis by (simp add: ws_send_def)
  next
    case (Some su)
    obtain su' outs where o: "stream_run su (re_stream env) = (su', outs)" by fastforce
    let ?s2 = "?s1\<lparr>rt_calls := rt_calls ?s1 @ stream_calls su outs\<rparr>"
    have "R ?s1 ?s2" by (intro appended stream_calls_allowed streamer_for_targets [OF Some])
    moreover have "R ?s2 (?s2\<lparr>rt_streamers := rt_streamers s @ [su']\<rparr>)"
      by (rule internal) (simp add: internal_step_def)
    moreover have "s' = ?s2\<lparr>rt_streamers := rt_streamers s @ [su']\<rparr>"
      using w pl Some o by (auto simp: ws_send_def run_stream_def)
    ultimately show ?thesis using 1 trans by blast
  qed
qed

lemma keeps_dify_on_stream: "streamed.keeps (dify_on_stream env t)"
proof (rule streamed.keepsI, clarify)
  fix su s r su' s'
  assume i: "targets a ev su" "has_adapter ev a s" and d: "dify_on_stream env t (su, s) = (r, su', s')"
  obtain outs where o: "stream_run su [Chunk (re_clock env (rt_ticks s)) t, UpdateDone] = (su', outs)"
    "s' = s\<lparr>rt_ticks := Suc (rt_ticks s), rt_calls := rt_calls s @ stream_calls su outs\<rparr>"
    using d by (auto simp: dify_on_stream_def split: prod.splits)
  let ?s1 = "s\<lparr>rt_calls := rt_calls s @ stream_calls su outs\<rparr>"
  have "R s ?s1" using i by (intro appended stream_calls_allowed)
  moreover have "R ?s1 s'" unfolding o(2) by (rule internal) (simp add: internal_step_def)
  ultimately show "same_target su su' \<and> R s s'" using same_target_run [OF o(1)] trans by blast
qed

lemma keeps_dify_turn: "keeps (dify_turn env ev' (streamer_for a p ev))"
proof (rule keepsI)
  fix s r s' assume i: "has_adapter ev a s" and t: "dify_turn env ev' (streamer_for a p ev) s = (r, s')"
  let ?chat = "\<lambda>f. dify_chat (re_dify env) (rt_conversations s) (ev_user_id ev') (ev_text ev') f"
  have step: "R s1 (s1\<lparr>rt_conversations := h\<rparr>)" for s1 h by (rule internal) (simp add: internal_step_def)
  have wrap: "R s s1 \<Longrightarrow> (case q of Inr (answer, hist) \<Rightarrow> (Ok answer, s1\<lparr>rt_conversations := hist\<rparr>)
      | Inl e \<Rightarrow> (Inl e, s1)) = (r, s') \<Longrightarrow> R s s'" for s1 and q :: "(string \<times> history) result"
    using step trans by (auto split: sum.splits prod.splits)
  show "R s s'"
  proof (cases "streamer_for a p ev")
    case None
    obtain q s1 where q: "?chat None s = (q, s1)" by fastforce
    have "R s s1" by (rule keepsD [OF keeps_dify_chat q i]) simp
    with wrap t None q show ?thesis by (simp add: dify_turn_def)
  next
    case (Some su)
    obtain q su1 s1 where q: "?chat (Some (dify_on_stream env)) (su, s) = (q, (su1, s1))" by (metis prod.exhaust)
    have "streamed.keeps (?chat (Some (dify_on_stream env)))"
      by (rule streamed.keeps_dify_chat) (auto intro: keeps_dify_on_stream)
    from streamed.keepsD [OF this q] i streamer_for_targets [OF Some] have "R s s1" by simp
    with wrap t Some q show ?thesis by (simp add: dify_turn_def)
  qed
qed

lemma keeps_dify_deliver [intro]: "keeps (dify_deliver env a ev p t)"
  unfolding dify_deliver_def by (intro keeps_rules keeps_update_reply keeps_send_reply)

lemma keeps_dify_fallback: "keeps (handle_dify_fallback cfg env ev)"
  unfolding handle_dify_fallback_def
  by (rule keeps_get)
    (auto simp: has_adapter_def intro!: keeps_rules keeps_try_placeholder keeps_with_typing keeps_dify_turn keeps_dify_deliver)

end

text \<open>An event's handlers, given that the files passed on are in order.\<close>

locale router_files = router_frame R ev a allowed
  for R :: "router \<Rightarrow> router \<Rightarrow> bool" and ev :: channel_event and a :: adapter and allowed :: "chat_call \<Rightarrow> bool" +
  fixes files_ok :: "string list \<Rightarrow> bool"
  assumes files: "fs \<noteq> [] \<Longrightarrow> files_ok fs \<Longrightarrow> files_parameter a = ''file_ids_or_paths'' \<Longrightarrow>
    allowed (SendPostWithFiles a (ev_channel_id ev) m fs (ev_root_id ev))"
begin

lemma keeps_lookup_info [intro]: "keeps (lookup_info cfg env ev)"
  unfolding lookup_info_def
  by (intro keeps_rules keeps_tick keeps_db_call keeps_internal) (auto simp: internal_step_def split: prod.splits)

lemma keeps_provision_rt [intro]: "keeps (provision_rt cfg env ev)"
  by (rule keeps_internal)
    (auto simp: provision_rt_def internal_step_def dest: provision_frame split: prod.splits)

lemma keeps_handle_unmapped [intro]: "keeps (handle_unmapped cfg env a ev)"
  unfolding handle_unmapped_def
  by (intro keeps_rules keeps_send_reply keeps_provision_rt keeps_update_placeholder keeps_dify_fallback)

lemma keeps_resolve_info [intro]: "keeps (resolve_info cfg env a ev)"
  unfolding resolve_info_def
  by (intro keeps_rules keeps_lookup_info keeps_handle_unmapped)

lemma keeps_download_rt [intro]: "keeps (download_rt cfg env fids uuid)"
  by (rule keeps_internal) (auto simp: download_rt_def internal_step_def split: prod.splits)

lemma keeps_message_with_attachments [intro]: "keeps (message_with_attachments cfg env ev info)"
  unfolding message_with_attachments_def by (intro keeps_rules keeps_download_rt)

lemma keeps_outgoing_files [intro]: "keeps (outgoing_files cfg env ev info media)"
  unfolding outgoing_files_def outgoing_file_def Let_def
  by (intro keeps_rules keeps_internal) (auto simp: internal_step_def)

lemma keeps_deliver:
  assumes "files_ok fs"
  shows "keeps (deliver env a ev p response fs)"
  using assms unfolding deliver_def send_post_with_files_def
  by (intro keeps_rules keeps_update_placeholder keeps_send_reply keeps_call files) auto

lemma keeps_ask_openclaw:
  assumes "\<And>media s fs s'. outgoing_files cfg env ev info media s = (Inr fs, s') \<Longrightarrow> files_ok fs"
  shows "keeps (ask_openclaw cfg env a ev info text p)"
  unfolding ask_openclaw_def
  by (intro keeps_rules keeps_ws_send keeps_bind_post [OF keeps_outgoing_files] keeps_deliver assms)

lemma keeps_answer_event:
  assumes "\<And>media s fs s'. outgoing_files cfg env ev info media s = (Inr fs, s') \<Longrightarrow> files_ok fs"
  shows "keeps (answer_event cfg env a ev info)"
  unfolding answer_event_def
  by (intro keeps_rules keeps_message_with_attachments keeps_try_placeholder keeps_with_typing
      keeps_ask_openclaw keeps_send_reply assms)

text \<open>After the channel has been noted.\<close>

lemma keeps_handle_rest:
  assumes "\<And>info media s fs s'. outgoing_files cfg env ev info media s = (Inr fs, s') \<Longrightarrow> files_ok fs"
  shows "keeps (ebind (resolve_info cfg env a ev) (\<lambda>info_opt.
    case info_opt of None \<Rightarrow> eret () | Some info \<Rightarrow> answer_event cfg env a ev info))"
  by (intro keeps_rules keeps_resolve_info keeps_answer_event assms)

end

section \<open>The relation\<close>

text \<open>
  What a handler for an event may cause: only permitted calls, and no change of registry, typing
  tasks or remembered channels.
\<close>

definition only_calls :: "(chat_call \<Rightarrow> bool) \<Rightarrow> router \<Rightarrow> router \<Rightarrow> bool" where
  "only_calls P s t \<longleftrightarrow> rt_registry t = rt_registry s \<and> rt_mattermost t = rt_mattermost s \<and>
     rt_typing t = rt_typing s \<and> rt_user_channels t = rt_user_channels s \<and>
     (schema_ok (rt_db s) \<longrightarrow> schema_ok (rt_db t) \<and> channels (rt_db t) = channels (rt_db s)) \<and>
     (\<exists>cs. rt_calls t = rt_calls s @ cs \<and> list_all P cs)"

fun event_call :: "channel_event \<Rightarrow> adapter \<Rightarrow> (string list \<Rightarrow> bool) \<Rightarrow> chat_call \<Rightarrow> bool" where
  "event_call ev a F (SendReply b ch m rid) \<longleftrightarrow> b = a \<and> ch = ev_channel_id ev \<and> rid = ev_root_id ev"
| "event_call ev a F (UpdateReply b p m ch) \<longleftrightarrow>
     b = a \<and> (ch = ev_channel_id ev \<or> ev_provider ev = ''mattermost'' \<and> ch = [])"
| "event_call ev a F (SendPostWithFiles b ch m fs rid) \<longleftrightarrow>
     b = a \<and> b \<noteq> MattermostClient \<and> ch = ev_channel_id ev \<and> rid = ev_root_id ev \<and> F fs"
| "event_call ev a F (GetOrCreateDm b u) \<longleftrightarrow> False"

lemma only_calls_trans: "only_calls P s t \<Longrightarrow> only_calls P t u \<Longrightarrow> only_calls P s u"
  unfolding only_calls_def by (elim conjE exE) (auto simp: list_all_append)

interpretation event_frame: router_files "only_calls (event_call ev a F)" ev a "event_call ev a F" F
  for ev a F
proof unfold_locales
  fix s t u :: router
  show "only_calls (event_call ev a F) s s" by (simp add: only_calls_def)
  show "only_calls (event_call ev a F) s t \<Longrightarrow> only_calls (event_call ev a F) t u \<Longrightarrow>
      only_calls (event_call ev a F) s u" by (rule only_calls_trans)
  show "only_calls (event_call ev a F) s t \<Longrightarrow> has_adapter ev a s \<Longrightarrow> has_adapter ev a t"
    using has_adapter_cong [of t s] by (simp add: only_calls_def)
  show "internal_step s t \<Longrightarrow> only_calls (event_call ev a F) s t"
    by (simp add: internal_step_def only_calls_def)
  show "list_all (event_call ev a F) cs \<Longrightarrow> only_calls (event_call ev a F) s (s\<lparr>rt_calls := rt_calls s @ cs\<rparr>)" for cs
    by (simp add: only_calls_def)
  show "only_calls (event_call ev a F) (s\<lparr>rt_typing := x # rt_typing s\<rparr>) t \<Longrightarrow>
      only_calls (event_call ev a F) s (t\<lparr>rt_typing := remove1 x (rt_typing t)\<rparr>)" for x
    by (auto simp: only_calls_def)
  fix m fs
  show "fs \<noteq> [] \<Longrightarrow> F fs \<Longrightarrow> files_parameter a = ''file_ids_or_paths'' \<Longrightarrow>
      event_call ev a F (SendPostWithFiles a (ev_channel_id ev) m fs (ev_root_id ev))"
    by (cases a) simp_all
qed simp_all

section \<open>Remembering the channel\<close>

lemma remember_channel_rt_run:
  obtains d where
    "remember_channel_rt env key provider puid ch s =
       (Ok (), s\<lparr>rt_user_channels := dict_set (rt_user_channels s) key ch, rt_db := d\<rparr>)"
    "schema_ok (rt_db s) \<Longrightarrow> schema_ok d"
    "re_db_up env \<Longrightarrow> schema_ok (rt_db s) \<Longrightarrow> validate_provider provider = Ok p \<Longrightarrow>
       d = rt_db s\<lparr>channels := dict_set (channels (rt_db s)) (p, puid) ch\<rparr>"
proof -
  define d where "d = (if re_db_up env then snd (remember_channel provider puid ch (rt_db s)) else rt_db s)"
  obtain r1 d1 where rd: "remember_channel provider puid ch (rt_db s) = (r1, d1)" by fastforce
  have "remember_channel_rt env key provider puid ch s =
       (Ok (), s\<lparr>rt_user_channels := dict_set (rt_user_channels s) key ch, rt_db := d\<rparr>)"
    using rd by (cases "re_db_up env"; cases r1)
      (simp_all add: remember_channel_rt_def eseq_def ebind_def emod_def etry_def ecatch_def db_call_def d_def
        eret_def eraise_def)
  moreover have "schema_ok d" if ok: "schema_ok (rt_db s)"
  proof (cases "validate_provider provider")
    case (Inl e)
    then show ?thesis using ok by (simp add: d_def remember_channel_def)
  next
    case (Inr p)
    have "schema_ok (rt_db s\<lparr>channels := dict_set (channels (rt_db s)) (p, puid) ch\<rparr>)"
      using ok by (simp add: schema_ok_def)
    with remember_channel_eq [OF ok Inr, of puid ch] ok show ?thesis by (simp add: d_def)
  qed
  moreover have "d = rt_db s\<lparr>channels := dict_set (channels (rt_db s)) (p, puid) ch\<rparr>"
    if "re_db_up env" "schema_ok (rt_db s)" "validate_provider provider = Ok p"
    using remember_channel_eq [OF that(2,3)] that(1) by (simp add: d_def)
  ultimately show thesis by (rule that)
qed

lemma handle_event_split:
  assumes "handle_event cfg env ev s = (r, s')" "get_adapter s (ev_provider ev) = Some a"
  obtains d where
    "ebind (resolve_info cfg env a ev) (\<lambda>info_opt.
       case info_opt of None \<Rightarrow> eret () | Some info \<Rightarrow> answer_event cfg env a ev info)
      (s\<lparr>rt_user_channels := dict_set (rt_user_channels s) (identity_key (ev_provider ev) (ev_user_id ev)) (ev_channel_id ev),
         rt_db := d\<rparr>) = (r, s')"
    "schema_ok (rt_db s) \<Longrightarrow> schema_ok d"
    "re_db_up env \<Longrightarrow> schema_ok (rt_db s) \<Longrightarrow> validate_provider (ev_provider ev) = Ok p \<Longrightarrow>
       d = rt_db s\<lparr>channels := dict_set (channels (rt_db s)) (p, ev_user_id ev) (ev_channel_id ev)\<rparr>"
proof (rule remember_channel_rt_run [of env "identity_key (ev_provider ev) (ev_user_id ev)" "ev_provider ev"
    "ev_user_id ev" "ev_channel_id ev" s p])
  fix d
  assume d: "remember_channel_rt env (identity_key (ev_provider ev) (ev_user_id ev)) (ev_provider ev) (ev_user_id ev)
      (ev_channel_id ev) s = (Ok (), s\<lparr>rt_user_channels := dict_set (rt_user_channels s)
        (identity_key (ev_provider ev) (ev_user_id ev)) (ev_channel_id ev), rt_db := d\<rparr>)"
    "schema_ok (rt_db s) \<Longrightarrow> schema_ok d"
    "re_db_up env \<Longrightarrow> schema_ok (rt_db s) \<Longrightarrow> validate_provider (ev_provider ev) = Ok p \<Longrightarrow>
      d = rt_db s\<lparr>channels := dict_set (channels (rt_db s)) (p, ev_user_id ev) (ev_channel_id ev)\<rparr>"
  show thesis
    by (rule that [OF _ d(2,3)])
      (use assms d(1) in \<open>simp_all add: handle_event_def eseq_def ebind_def eget_def\<close>)
qed

lemma event_run:
  assumes "handle_event cfg env ev s = (r, s')" "get_adapter s (ev_provider ev) = Some a"
    and "\<And>info media t fs t'. outgoing_files cfg env ev info media t = (Inr fs, t') \<Longrightarrow> F fs"
  obtains d where
    "only_calls (event_call ev a F) (s\<lparr>rt_user_channels := dict_set (rt_user_channels s)
        (identity_key (ev_provider ev) (ev_user_id ev)) (ev_channel_id ev), rt_db := d\<rparr>) s'"
    "schema_ok (rt_db s) \<Longrightarrow> schema_ok d"
    "re_db_up env \<Longrightarrow> schema_ok (rt_db s) \<Longrightarrow> validate_provider (ev_provider ev) = Ok p \<Longrightarrow>
       d = rt_db s\<lparr>channels := dict_set (channels (rt_db s)) (p, ev_user_id ev) (ev_channel_id ev)\<rparr>"
proof (rule handle_event_split [OF assms(1,2), of p])
  fix d
  let ?s = "s\<lparr>rt_user_channels := dict_set (rt_user_channels s)
        (identity_key (ev_provider ev) (ev_user_id ev)) (ev_channel_id ev), rt_db := d\<rparr>"
  assume run: "ebind (resolve_info cfg env a ev) (\<lambda>info_opt.
       case info_opt of None \<Rightarrow> eret () | Some info \<Rightarrow> answer_event cfg env a ev info) ?s = (r, s')"
    and d: "schema_ok (rt_db s) \<Longrightarrow> schema_ok d"
    "re_db_up env \<Longrightarrow> schema_ok (rt_db s) \<Longrightarrow> validate_provider (ev_provider ev) = Ok p \<Longrightarrow>
      d = rt_db s\<lparr>channels := dict_set (channels (rt_db s)) (p, ev_user_id ev) (ev_channel_id ev)\<rparr>"
  have "has_adapter ev a ?s"
    using assms(2) has_adapter_cong [of ?s s] by (simp add: has_adapter_def)
  moreover have "event_frame.keeps ev a F (ebind (resolve_info cfg env a ev) (\<lambda>info_opt.
       case info_opt of None \<Rightarrow> eret () | Some info \<Rightarrow> answer_event cfg env a ev info))"
    by (rule event_frame.keeps_handle_rest) (erule assms(3))
  ultimately have "only_calls (event_call ev a F) ?s s'" using event_frame.keepsD run by blast
  then show thesis using d by (rule that)
qed

section \<open>Properties: where answers go\<close>

text \<open>
  Property C4. An event is answered where it came from: whatever the platforms, OpenClaw, the
  orchestrator and Dify do, handling an event calls only the adapter of its provider and only for
  its channel and thread; every typing task it started is cancelled; and without an
  adapter for the provider nothing happens at all.
\<close>

theorem event_answers_only_its_channel:
  assumes "handle_event cfg env ev s = (r, s')"
  shows "case get_adapter s (ev_provider ev) of
      None \<Rightarrow> r = Ok () \<and> s' = s
    | Some a \<Rightarrow> rt_typing s' = rt_typing s \<and>
        (\<exists>cs. rt_calls s' = rt_calls s @ cs \<and> list_all (event_call ev a (\<lambda>_. True)) cs)"
proof (cases "get_adapter s (ev_provider ev)")
  case None
  then show ?thesis using assms by (simp add: handle_event_def ebind_def eget_def eret_def)
next
  case (Some a)
  show ?thesis
    by (rule event_run [OF assms Some, of "\<lambda>_. True"]) (auto simp: Some only_calls_def)
qed

text \<open>
  The last channel is remembered first: after any event with an adapter, also one
  whose handling failed, the local table holds the event's channel for the identity; and so does
  the database when it was reachable and the provider is a supported one.
\<close>

theorem event_channel_is_remembered:
  assumes "handle_event cfg env ev s = (r, s')" "get_adapter s (ev_provider ev) = Some a"
  shows "dict_get (rt_user_channels s') (identity_key (ev_provider ev) (ev_user_id ev)) = Some (ev_channel_id ev) \<and>
    (re_db_up env \<longrightarrow> schema_ok (rt_db s) \<longrightarrow> validate_provider (ev_provider ev) = Ok p \<longrightarrow>
       dict_get (channels (rt_db s')) (p, ev_user_id ev) = Some (ev_channel_id ev))"
  by (rule event_run [OF assms, of "\<lambda>_. True" p]) (auto simp: only_calls_def)


section \<open>Files that leave the workspace\<close>

text \<open>A path in the workspace of \<open>uuid\<close>, as written and after resolving symlinks.\<close>

definition user_file :: "settings \<Rightarrow> (string \<Rightarrow> string) \<Rightarrow> string \<Rightarrow> string \<Rightarrow> bool" where
  "user_file cfg realpath uuid f \<longleftrightarrow>
     inside (workspace_base_path cfg @ ''/'' @ uuid) f \<and>
     inside (realpath (workspace_base_path cfg @ ''/'' @ uuid)) (realpath f)"

lemma host_path_user_file:
  "container_path_to_host cfg realpath cp uuid \<noteq> [] \<Longrightarrow>
   user_file cfg realpath uuid (container_path_to_host cfg realpath cp uuid)"
  by (auto simp: container_path_to_host_def Let_def user_file_def split: if_split_asm)

lemma outgoing_file_result:
  assumes "outgoing_file cfg env ev uuid cp s = (Inr fs, s')"
  shows "s' = s \<and> (ev_provider ev \<noteq> ''mattermost'' \<longrightarrow> (\<forall>f \<in> set fs. user_file cfg (re_realpath env) uuid f))"
proof (cases "container_path_to_host cfg (re_realpath env) cp uuid = []")
  case True
  with assms show ?thesis by (simp add: outgoing_file_def eret_def)
next
  case False
  note uf = host_path_user_file [OF False]
  show ?thesis
  proof (cases "ev_provider ev = ''mattermost'' \<and> has_file_manager s")
    case True
    with assms False show ?thesis
      by (auto simp: outgoing_file_def Let_def ebind_def eget_def eret_def split: sum.splits option.splits)
  next
    case notmm: False
    then have "s' = s \<and> fs = [container_path_to_host cfg (re_realpath env) cp uuid]"
      using assms False by (auto simp: outgoing_file_def Let_def ebind_def eget_def eret_def)
    with uf show ?thesis by simp
  qed
qed

lemma outgoing_files_result:
  assumes "outgoing_files cfg env ev info media s = (Inr fs, s')"
  shows "s' = s \<and> (ev_provider ev \<noteq> ''mattermost'' \<longrightarrow> fs \<noteq> [] \<longrightarrow>
    (\<exists>uuid. extract_uuid_from_instance_url (instance_url info) = Some uuid \<and>
       (\<forall>f \<in> set fs. user_file cfg (re_realpath env) uuid f)))"
proof (cases "extract_uuid_from_instance_url (instance_url info)")
  case None
  with assms show ?thesis by (simp add: outgoing_files_def eret_def)
next
  case (Some uuid)
  have m: "s' = s \<and> (ev_provider ev \<noteq> ''mattermost'' \<longrightarrow>
      (\<forall>ys \<in> set xs. \<forall>f \<in> set ys. user_file cfg (re_realpath env) uuid f))"
    if "emap (outgoing_file cfg env ev uuid) media s = (Inr xs, s')" for xs s'
    using that
  proof (induction media arbitrary: xs s')
    case (Cons m ms)
    obtain y s1 ys s2 where "outgoing_file cfg env ev uuid m s = (Inr y, s1)"
      "emap (outgoing_file cfg env ev uuid) ms s1 = (Inr ys, s2)" "xs = y # ys" "s' = s2"
      using Cons.prems by (auto elim!: ebind_cases simp: eret_def)
    with Cons.IH [of ys s2] outgoing_file_result show ?case by force
  qed (simp add: eret_def)
  obtain xs where "emap (outgoing_file cfg env ev uuid) media s = (Inr xs, s')" "fs = concat xs"
    using assms Some by (auto simp: outgoing_files_def eret_def elim!: ebind_cases)
  with m Some show ?thesis by force
qed

text \<open>
  Property C13. Only the user's own files go out with an answer: answering with an instance (on a
  platform other than Mattermost, which takes uploads instead of paths), every file passed to the
  adapter lies in the workspace directory of the instance's UUID, as written and after resolving
  symlinks, whatever paths OpenClaw named.
\<close>

theorem answer_sends_only_own_files:
  assumes "answer_event cfg env a ev info s = (r, s')" "get_adapter s (ev_provider ev) = Some a"
    and "ev_provider ev \<noteq> ''mattermost''"
  shows "\<exists>cs. rt_calls s' = rt_calls s @ cs \<and>
    (\<forall>b ch m fs rid. SendPostWithFiles b ch m fs rid \<in> set cs \<longrightarrow> fs \<noteq> [] \<longrightarrow>
       (\<exists>uuid. extract_uuid_from_instance_url (instance_url info) = Some uuid \<and>
          (\<forall>f \<in> set fs. user_file cfg (re_realpath env) uuid f)))"
proof -
  let ?F = "\<lambda>fs. fs \<noteq> [] \<longrightarrow> (\<exists>uuid. extract_uuid_from_instance_url (instance_url info) = Some uuid \<and>
      (\<forall>f \<in> set fs. user_file cfg (re_realpath env) uuid f))"
  have "event_frame.keeps ev a ?F (answer_event cfg env a ev info)"
    by (rule event_frame.keeps_answer_event) (use outgoing_files_result assms(3) in blast)
  from event_frame.keepsD [OF this assms(1)] assms(2)
  have "only_calls (event_call ev a ?F) s s'" by (simp add: has_adapter_def)
  then obtain cs where "rt_calls s' = rt_calls s @ cs" "list_all (event_call ev a ?F) cs"
    by (auto simp: only_calls_def)
  then show ?thesis by (intro exI [of _ cs]) (auto simp: list_all_iff)
qed

section \<open>The shape of an answer\<close>

definition error_reply :: "adapter \<Rightarrow> channel_event \<Rightarrow> chat_call" where
  "error_reply a ev = SendReply a (ev_channel_id ev) ERROR_TEXT (ev_root_id ev)"

text \<open>The calls that deliver an answer completely.\<close>

definition answer_calls :: "adapter \<Rightarrow> channel_event \<Rightarrow> string \<Rightarrow> string \<Rightarrow> string list \<Rightarrow> chat_call list" where
  "answer_calls a ev placeholder_id response files =
     (let update = UpdateReply a placeholder_id response
            (if ev_provider ev = ''mattermost'' then [] else ev_channel_id ev)
      in if placeholder_id \<noteq> [] then update #
           (if files \<noteq> [] then [SendPostWithFiles a (ev_channel_id ev) [] files (ev_root_id ev)] else [])
         else if files \<noteq> [] then [SendPostWithFiles a (ev_channel_id ev) response files (ev_root_id ev)]
         else [SendReply a (ev_channel_id ev) response (ev_root_id ev)])"

lemma call_adapter_calls: "call_adapter env c s = (r, s') \<Longrightarrow> s' = s\<lparr>rt_calls := rt_calls s @ [c]\<rparr>"
  by (simp add: call_adapter_def)

lemma reply_unit_calls:
  "eseq (call_adapter env c) (eret ()) s = (r, s') \<Longrightarrow> s' = s\<lparr>rt_calls := rt_calls s @ [c]\<rparr>"
  by (auto simp: eseq_def eret_def dest: call_adapter_calls elim!: ebind_cases)

lemma files_unit_calls:
  "eseq (send_post_with_files env a ch m fs rid) (eret ()) s = (r, s') \<Longrightarrow>
   (if files_parameter a = ''file_ids_or_paths'' then s' = s\<lparr>rt_calls := rt_calls s @ [SendPostWithFiles a ch m fs rid]\<rparr>
    else s' = s \<and> \<not> is_ok r)"
  using reply_unit_calls [of env "SendPostWithFiles a ch m fs rid" s r s']
  by (auto simp: send_post_with_files_def eseq_def eraise_def split: if_split_asm)

lemma deliver_calls:
  assumes "deliver env a ev p response fs s = (r, s')"
  shows "\<exists>k. rt_calls s' = rt_calls s @ take k (answer_calls a ev p response fs) \<and>
    (is_ok r \<longrightarrow> take k (answer_calls a ev p response fs) = answer_calls a ev p response fs)"
proof -
  let ?up = "UpdateReply a p response (if ev_provider ev = ''mattermost'' then [] else ev_channel_id ev)"
  have up: "s1 = t\<lparr>rt_calls := rt_calls t @ [?up]\<rparr>" if "update_placeholder env a ev p response t = (q, s1)" for t q s1
    using that reply_unit_calls by (simp add: update_placeholder_def update_reply_def)
  have fl: "\<exists>k. rt_calls s1 = rt_calls t @ take k [SendPostWithFiles a (ev_channel_id ev) m fs (ev_root_id ev)] \<and>
      (is_ok q \<longrightarrow> k \<noteq> 0)"
    if "eseq (send_post_with_files env a (ev_channel_id ev) m fs (ev_root_id ev)) (eret ()) t = (q, s1)" for t q s1 m
    using files_unit_calls [OF that] by (cases "files_parameter a = ''file_ids_or_paths''") (auto intro: exI [of _ 1] exI [of _ 0])
  consider (both) "fs \<noteq> []" "p \<noteq> []" | (fresh) "fs \<noteq> []" "p = []" | (upd) "fs = []" "p \<noteq> []" | (new) "fs = []" "p = []"
    by blast
  then show ?thesis
  proof cases
    case both
    then have "ebind (update_placeholder env a ev p response)
        (\<lambda>_. eseq (send_post_with_files env a (ev_channel_id ev) [] fs (ev_root_id ev)) (eret ())) s = (r, s')"
      using assms by (simp add: deliver_def eseq_def)
    then show ?thesis
    proof (cases rule: ebind_cases)
      case (raised e)
      with up [OF raised(1)] both show ?thesis by (intro exI [of _ 1]) (simp add: answer_calls_def)
    next
      case (cont x s1)
      obtain k where "rt_calls s' = rt_calls s1 @ take k [SendPostWithFiles a (ev_channel_id ev) [] fs (ev_root_id ev)]"
        "is_ok r \<longrightarrow> k \<noteq> 0" using fl [OF cont(2)] by blast
      with up [OF cont(1)] both show ?thesis
        by (intro exI [of _ "Suc k"]) (auto simp: answer_calls_def)
    qed
  next
    case fresh
    with assms fl [of response s r s'] show ?thesis
      by (auto simp: deliver_def answer_calls_def)
  next
    case upd
    with assms up [of s r s'] show ?thesis
      by (intro exI [of _ 1]) (simp add: deliver_def answer_calls_def)
  next
    case new
    with assms reply_unit_calls [of env "SendReply a (ev_channel_id ev) response (ev_root_id ev)" s r s'] show ?thesis
      by (intro exI [of _ 1]) (simp add: deliver_def answer_calls_def send_reply_def)
  qed
qed


lemma outgoing_files_state: "outgoing_files cfg env ev info media s = (r, s') \<Longrightarrow> s' = s"
proof -
  have one: "snd (outgoing_file cfg env ev uuid cp s) = s" for uuid cp s
    by (auto simp: outgoing_file_def Let_def ebind_def eget_def eret_def split: sum.splits option.splits)
  have "snd (emap (outgoing_file cfg env ev uuid) media s) = s" for uuid
  proof (induction media)
    case (Cons m ms)
    obtain q s1 where "outgoing_file cfg env ev uuid m s = (q, s1)" by fastforce
    with one [of uuid m s] Cons show ?case
      by (cases q) (auto simp: ebind_def eret_def split: prod.splits sum.splits)
  qed (simp add: eret_def)
  then have all: "emap (outgoing_file cfg env ev uuid) media s = (q, s1) \<Longrightarrow> s1 = s" for uuid q s1
    by (metis snd_conv)
  assume "outgoing_files cfg env ev info media s = (r, s')"
  then show "s' = s"
    unfolding outgoing_files_def
    by (auto simp: eret_def split: option.splits elim!: ebind_cases dest: all)
qed

lemma ws_send_calls:
  assumes "ws_send cfg env user info message sk (streamer_for a p ev) s = (r, s')"
  shows "r = fst (pool_send_message cfg (re_pool env) (re_clock env (rt_ticks s)) (re_uuid4 env (rt_ticks s))
      user info message sk (rt_pool s))"
    "\<exists>streams. rt_calls s' = rt_calls s @ streams \<and> (p = [] \<longrightarrow> streams = []) \<and>
       (\<forall>c \<in> set streams. \<exists>t. c = UpdateReply a p t (ev_channel_id ev))"
proof (atomize (full), cases "streamer_for a p ev")
  case None
  with assms show "r = fst (pool_send_message cfg (re_pool env) (re_clock env (rt_ticks s)) (re_uuid4 env (rt_ticks s))
      user info message sk (rt_pool s)) \<and> (\<exists>streams. rt_calls s' = rt_calls s @ streams \<and> (p = [] \<longrightarrow> streams = []) \<and>
       (\<forall>c \<in> set streams. \<exists>t. c = UpdateReply a p t (ev_channel_id ev)))"
    by (auto simp: ws_send_def Let_def split: prod.splits)
next
  case (Some su)
  then have su: "su_adapter su = a" "su_post_id su = p" "su_channel_id su = ev_channel_id ev" "p \<noteq> []"
    by (auto simp: streamer_for_def new_streamer_def split: if_split_asm)
  obtain su' outs where "stream_run su (re_stream env) = (su', outs)" by fastforce
  with assms Some su show "r = fst (pool_send_message cfg (re_pool env) (re_clock env (rt_ticks s)) (re_uuid4 env (rt_ticks s))
      user info message sk (rt_pool s)) \<and> (\<exists>streams. rt_calls s' = rt_calls s @ streams \<and> (p = [] \<longrightarrow> streams = []) \<and>
       (\<forall>c \<in> set streams. \<exists>t. c = UpdateReply a p t (ev_channel_id ev)))"
    by (auto simp: ws_send_def Let_def run_stream_def stream_calls_def stream_call_def split: prod.splits
        intro!: exI [of _ "stream_calls su outs"])
qed

text \<open>Asking OpenClaw: the streamed updates, then the answer as far as it was delivered.\<close>

lemma ask_openclaw_calls:
  assumes "ask_openclaw cfg env a ev info text p s = (r, s')"
    and "out = fst (pool_send_message cfg (re_pool env) (re_clock env (rt_ticks s)) (re_uuid4 env (rt_ticks s))
      (identity_key (ev_provider ev) (ev_user_id ev)) info text
      (session_key_of (ev_provider ev) (ev_channel_id ev)) (rt_pool s))"
  shows "\<exists>streams given. rt_calls s' = rt_calls s @ streams @ given \<and> (p = [] \<longrightarrow> streams = []) \<and>
    (\<forall>c \<in> set streams. \<exists>t. c = UpdateReply a p t (ev_channel_id ev)) \<and>
    (case out of Inl e \<Rightarrow> \<not> is_ok r \<and> given = []
     | Inr (response, media) \<Rightarrow>
         if response = [] then is_ok r \<and> given = []
         else \<exists>files k. given = take k (answer_calls a ev p response files) \<and>
           (is_ok r \<longrightarrow> given = answer_calls a ev p response files))"
  using assms(1) unfolding ask_openclaw_def
proof (cases rule: ebind_cases)
  case (raised e)
  obtain streams where "rt_calls s' = rt_calls s @ streams" "p = [] \<longrightarrow> streams = []"
     "\<forall>c \<in> set streams. \<exists>t. c = UpdateReply a p t (ev_channel_id ev)"
    using ws_send_calls(2) [OF raised(1)] by blast
  moreover have "out = Inl e" using ws_send_calls(1) [OF raised(1)] assms(2) by simp
  ultimately show ?thesis using raised(2) by (intro exI [of _ streams] exI [of _ "[]"]) simp
next
  case (cont x s1)
  obtain response media where x: "x = (response, media)" by fastforce
  obtain streams where st: "rt_calls s1 = rt_calls s @ streams" "p = [] \<longrightarrow> streams = []"
     "\<forall>c \<in> set streams. \<exists>t. c = UpdateReply a p t (ev_channel_id ev)"
    using ws_send_calls(2) [OF cont(1)] by blast
  have out: "out = Inr (response, media)" using ws_send_calls(1) [OF cont(1)] assms(2) x by simp
  show ?thesis
  proof (cases "response = []")
    case True
    with cont(2) x st out show ?thesis by (auto simp: eret_def)
  next
    case False
    with cont(2) x have "ebind (outgoing_files cfg env ev info media) (deliver env a ev p response) s1 = (r, s')" by simp
    then show ?thesis
    proof (cases rule: ebind_cases)
      case (raised e)
      then have "s' = s1" "\<not> is_ok r" using outgoing_files_state by auto
      with st out False show ?thesis
        by (intro exI [of _ streams] exI [of _ "[]"]) (auto intro: exI [of _ 0])
    next
      case (cont fs s2)
      then have s2: "s2 = s1" using outgoing_files_state by blast
      obtain k where "rt_calls s' = rt_calls s1 @ take k (answer_calls a ev p response fs)"
        "is_ok r \<longrightarrow> take k (answer_calls a ev p response fs) = answer_calls a ev p response fs"
        using deliver_calls [OF cont(2)] unfolding s2 by blast
      with st out False show ?thesis
        by - (rule exI [of _ streams], rule exI [of _ "take k (answer_calls a ev p response fs)"], auto)
    qed
  qed
qed

lemma try_placeholder_calls:
  assumes "phrases \<noteq> []"
  shows "\<exists>phrase \<in> set phrases. \<exists>p. try_placeholder env a ev phrases s =
    (Ok p, s\<lparr>rt_ticks := Suc (rt_ticks s),
       rt_calls := rt_calls s @ [SendReply a (ev_channel_id ev) phrase (ev_root_id ev)]\<rparr>)"
proof -
  let ?ph = "random_choice phrases (re_phrase env (rt_ticks s))"
  have "?ph \<in> set phrases" using assms by (simp add: random_choice_def)
  then show ?thesis
    by (intro bexI [of _ ?ph])
      (auto simp: try_placeholder_def ebind_def tick_def etry_def ecatch_def send_reply_def call_adapter_def
        eret_def split: sum.split)
qed

lemma with_typing_run:
  assumes "with_typing a ev m s = (r, s')"
  obtains s1 where "m (s\<lparr>rt_typing := typing_task a ev # rt_typing s\<rparr>) = (r, s1)" "rt_calls s' = rt_calls s1"
  using assms by (auto simp: with_typing_def eseq_def start_typing_def ebind_def emod_def efinally_def cancel_typing_def
      split: prod.splits)

lemma message_frame:
  "message_with_attachments cfg env ev info s = (r, s1) \<Longrightarrow>
   rt_calls s1 = rt_calls s \<and> rt_pool s1 = rt_pool s \<and> rt_ticks s1 = rt_ticks s"
  by (auto simp: message_with_attachments_def ebind_def eget_def eret_def ecatch_def download_rt_def
      split: if_split_asm option.splits prod.splits sum.splits)

section \<open>Properties: what the user gets\<close>


end
