(* ===== verification/RouterDemo.thy ===== *)
theory RouterDemo
  imports RouterLaws
begin

text \<open>
  A small world for concrete runs of the router: one adapter, one user with an instance, an
  OpenClaw that answers with a text and a file, a platform that accepts every call.
\<close>

definition demo_uuid :: string where
  "demo_uuid = ''12345678-1234-1234-1234-123456789abc''"

definition demo_db :: "adapter \<Rightarrow> db" where
  "demo_db a = fst (snd (bind_user_instance (adapter_name a) ''U1'' demo_uuid
     (''ws://openclaw-'' @ demo_uuid @ '':18789/ws'') toy_creds None None migrated_db new_storage))"

definition demo_router :: "adapter \<Rightarrow> router" where
  "demo_router a = (new_router (register_adapter a []) (demo_db a))
     \<lparr>rt_disk := \<lparr>contents = [(''/configs/'' @ demo_uuid @ ''/workspace/report.pdf'', ''%PDF'')], unwritable = []\<rparr>\<rparr>"

definition demo_event :: "adapter \<Rightarrow> string \<Rightarrow> channel_event" where
  "demo_event a user = \<lparr>ev_user_id = user, ev_channel_id = ''C1'', ev_text = ''Send me the report'',
     ev_post_id = ''m1'', ev_file_ids = [], ev_provider = adapter_name a, ev_root_id = ''''\<rparr>"

definition demo_answer :: "string \<times> string list" where
  "demo_answer = (''Here it is'', [''/home/node/.openclaw/workspace/report.pdf''])"

definition demo_files :: files_api where
  "demo_files = toy_api\<lparr>file_upload := (\<lambda>c n b. Ok (JObj [(''file_infos'', JList [JObj [(''id'', JStr ''f1'')]])]))\<rparr>"

definition demo_env :: router_env where
  "demo_env = \<lparr>re_call = (\<lambda>n c. Ok ''post-1''), re_clock = (\<lambda>n. 5), re_uuid4 = (\<lambda>n. ''key-1''), re_phrase = (\<lambda>n. 0),
     re_db_up = True, re_files = demo_files, re_realpath = (\<lambda>p. p),
     re_pool = \<lparr>pe_connect = (\<lambda>c i. Ok ()), pe_send = (\<lambda>n. Ok demo_answer)\<rparr>,
     re_stream = [Chunk 6 ''Here''], re_provision = toy_provision_env, re_dify = toy_dify\<rparr>"

lemma demo_router_ok: "schema_ok (rt_db (demo_router a))"
proof -
  have "schema_ok (demo_db a)"
    using canonical_apply_op [OF canonical_migrated, of "OpBind (adapter_name a) ''U1'' demo_uuid
      (''ws://openclaw-'' @ demo_uuid @ '':18789/ws'') toy_creds None None"]
    by (simp add: canonical_def demo_db_def)
  then show ?thesis by (simp add: demo_router_def new_router_def)
qed

abbreviation "slack_run \<equiv> handle_event default_settings demo_env (demo_event SlackAdapter ''U1'') (demo_router SlackAdapter)"

definition demo_info :: instance_info where
  "demo_info = \<lparr>instance_url = ''ws://openclaw-'' @ demo_uuid @ '':18789/ws'', credentials = toy_creds\<rparr>"

abbreviation "slack_answer \<equiv>
  answer_event default_settings demo_env SlackAdapter (demo_event SlackAdapter ''U1'') demo_info (demo_router SlackAdapter)"

definition demo_calls :: "chat_call list" where
  "demo_calls = [SendReply SlackAdapter ''C1'' (thinking_phrases ! 0) '''', UpdateReply SlackAdapter ''post-1'' ''Here'' ''C1'',
   UpdateReply SlackAdapter ''post-1'' ''Here it is'' ''C1'',
   SendPostWithFiles SlackAdapter ''C1'' '''' [''/configs/'' @ demo_uuid @ ''/workspace/report.pdf''] '''']"

text \<open>The world and the run, evaluated once.\<close>

lemma slack_facts:
  shows slack_run_calls: "rt_calls (snd slack_run) = demo_calls"
    and slack_answer_calls: "rt_calls (snd slack_answer) = demo_calls"
    and slack_adapter: "get_adapter (demo_router SlackAdapter) (ev_provider (demo_event SlackAdapter ''U1'')) = Some SlackAdapter"
    and slack_event: "ev_provider (demo_event SlackAdapter ''U1'') = ''slack''" "ev_user_id (demo_event SlackAdapter ''U1'') = ''U1''"
      "ev_channel_id (demo_event SlackAdapter ''U1'') = ''C1''" "validate_provider ''slack'' = Ok ''slack''"
    and slack_start: "rt_calls (demo_router SlackAdapter) = []"
    and demo_up: "re_db_up demo_env"
    and demo_info_uuid: "extract_uuid_from_instance_url (instance_url demo_info) = Some demo_uuid"
  by (atomize (full), code_simp)

theorem event_answers_only_its_channel_witness:
  "list_all (event_call (demo_event SlackAdapter ''U1'') SlackAdapter (\<lambda>_. True)) (rt_calls (snd slack_run)) \<and>
   length (rt_calls (snd slack_run)) = 4"
proof -
  have "length demo_calls = 4" by (simp add: demo_calls_def)
  then show ?thesis
    using event_answers_only_its_channel [OF prod.collapse [symmetric], of default_settings demo_env "demo_event SlackAdapter ''U1''" "demo_router SlackAdapter"]
    unfolding slack_adapter slack_start slack_run_calls by auto
qed

theorem event_channel_is_remembered_witness:
  "dict_get (channels (rt_db (snd slack_run))) (''slack'', ''U1'') = Some ''C1''"
proof -
  note demo_router_ok [of SlackAdapter]
  with event_channel_is_remembered [OF prod.collapse [symmetric] slack_adapter, of default_settings demo_env "''slack''"]
    slack_event demo_up
  show ?thesis by simp
qed

theorem answer_sends_only_own_files_witness:
  "\<exists>f. SendPostWithFiles SlackAdapter ''C1'' '''' [f] '''' \<in> set (rt_calls (snd slack_answer)) \<and>
     user_file default_settings (re_realpath demo_env) demo_uuid f"
proof -
  let ?f = "''/configs/'' @ demo_uuid @ ''/workspace/report.pdf''"
  have "SendPostWithFiles SlackAdapter ''C1'' '''' [?f] '''' \<in> set (rt_calls (snd slack_answer))"
    unfolding slack_answer_calls demo_calls_def by simp
  moreover have "ev_provider (demo_event SlackAdapter ''U1'') \<noteq> ''mattermost''" by (simp add: slack_event)
  ultimately show ?thesis
    using answer_sends_only_own_files [OF prod.collapse [symmetric] slack_adapter, of default_settings demo_env demo_info]
      slack_start demo_info_uuid
    by (intro exI [of _ ?f]) fastforce
qed


end
