(* ===== verification/RouterOut.thy ===== *)
theory RouterOut
  imports RouterDemo
begin

text \<open>
  What goes out unasked and what goes wrong: proactive texts and API tasks, users without an
  instance, answers with files on Mattermost, late streamed updates.
\<close>

section \<open>The channel of an identity\<close>

lemma call_adapter_run:
  "call_adapter env c s = (re_call env (length (rt_calls s)) c, s\<lparr>rt_calls := rt_calls s @ [c]\<rparr>)"
  by (simp add: call_adapter_def)

lemma open_dm_run:
  assumes "open_dm env key puid provider s = (r, s')" "get_adapter s provider = Some a"
  shows "rt_calls s' = rt_calls s @ [GetOrCreateDm a puid] \<and>
    r = re_call env (length (rt_calls s)) (GetOrCreateDm a puid) \<and>
    rt_user_channels s' = (case r of Inr dm \<Rightarrow> if dm = [] then rt_user_channels s else dict_set (rt_user_channels s) key dm
        | Inl e \<Rightarrow> rt_user_channels s) \<and>
    rt_registry s' = rt_registry s \<and> rt_mattermost s' = rt_mattermost s \<and> rt_pool s' = rt_pool s \<and> rt_ticks s' = rt_ticks s"
proof -
  let ?c = "GetOrCreateDm a puid" and ?s1 = "s\<lparr>rt_calls := rt_calls s @ [GetOrCreateDm a puid]\<rparr>"
  have run: "open_dm env key puid provider s =
      (case re_call env (length (rt_calls s)) ?c of Inl e \<Rightarrow> (Inl e, ?s1)
       | Inr dm \<Rightarrow> eseq (ewhen (dm \<noteq> []) (remember_channel_rt env key provider puid dm)) (eret dm) ?s1)"
    using assms(2) by (simp add: open_dm_def ebind_def eget_def call_adapter_run split: sum.split)
  show ?thesis
  proof (cases "re_call env (length (rt_calls s)) ?c")
    case (Inl e)
    with run assms(1) show ?thesis by auto
  next
    case (Inr dm)
    obtain d where "remember_channel_rt env key provider puid dm ?s1 =
       (Ok (), ?s1\<lparr>rt_user_channels := dict_set (rt_user_channels ?s1) key dm, rt_db := d\<rparr>)"
      by (rule remember_channel_rt_run)
    with run assms(1) Inr show ?thesis
      by (cases "dm = []") (auto simp: eseq_def ebind_def ewhen_def eret_def)
  qed
qed

text \<open>The lookup: the local table, then the database, then a direct channel.\<close>

lemma get_or_create_channel_stored:
  assumes "\<not> known (dict_get (rt_user_channels s) key)" "re_db_up env"
    "get_channel provider puid (rt_db s) = Ok (Some c)" "c \<noteq> []"
  shows "get_or_create_channel env key puid provider s =
    (Ok c, s\<lparr>rt_user_channels := dict_set (rt_user_channels s) key c\<rparr>)"
  using assms by (simp add: get_or_create_channel_def lookup_channel_def ebind_def eseq_def eget_def emod_def etry_def
      ecatch_def db_call_def eret_def)

lemma get_or_create_channel_dm:
  assumes "known (dict_get (rt_user_channels s) key) \<or>
    \<not> (re_db_up env \<and> (\<exists>c. get_channel provider puid (rt_db s) = Ok (Some c) \<and> c \<noteq> []))"
  shows "get_or_create_channel env key puid provider s = open_dm env key puid provider s"
proof (cases "known (dict_get (rt_user_channels s) key)")
  case True
  then show ?thesis by (simp add: get_or_create_channel_def ebind_def eget_def)
next
  case False
  have none: "\<not> known b \<Longrightarrow> b = None \<or> b = Some []" for b by (cases b) auto
  have "lookup_channel env provider puid s = (Ok None, s) \<or> lookup_channel env provider puid s = (Ok (Some []), s)"
  proof (cases "re_db_up env")
    case False
    then show ?thesis by (simp add: lookup_channel_def etry_def ecatch_def db_call_def eret_def eraise_def)
  next
    case True
    then have run: "lookup_channel env provider puid s = (case get_channel provider puid (rt_db s) of
        Inl e \<Rightarrow> (Ok None, s) | Inr b \<Rightarrow> (Ok b, s))"
      by (simp add: lookup_channel_def etry_def ecatch_def db_call_def eret_def split: sum.split)
    show ?thesis
    proof (cases "get_channel provider puid (rt_db s)")
      case (Inr b)
      then have "\<not> known b" using assms False True by (cases b) auto
      with none run Inr show ?thesis by auto
    qed (simp add: run)
  qed
  with False show ?thesis by (auto simp: get_or_create_channel_def ebind_def eget_def)
qed

text \<open>The channel the database knows, when it is asked and answers.\<close>

definition stored_channel :: "router_env \<Rightarrow> string \<Rightarrow> string \<Rightarrow> string \<Rightarrow> router \<Rightarrow> string" where
  "stored_channel env key puid provider s =
     (if known (dict_get (rt_user_channels s) key) \<or> \<not> re_db_up env then []
      else case get_channel provider puid (rt_db s) of Inr (Some c) \<Rightarrow> c | _ \<Rightarrow> [])"

lemma get_or_create_channel_cases:
  assumes "get_or_create_channel env key puid provider s = (r, s')"
  obtains (stored) "stored_channel env key puid provider s \<noteq> []" "r = Ok (stored_channel env key puid provider s)"
      "s' = s\<lparr>rt_user_channels := dict_set (rt_user_channels s) key (stored_channel env key puid provider s)\<rparr>"
    | (dm) "stored_channel env key puid provider s = []" "open_dm env key puid provider s = (r, s')"
proof (cases "stored_channel env key puid provider s = []")
  case True
  then have "known (dict_get (rt_user_channels s) key) \<or>
      \<not> (re_db_up env \<and> (\<exists>c. get_channel provider puid (rt_db s) = Ok (Some c) \<and> c \<noteq> []))"
    by (auto simp: stored_channel_def split: if_split_asm)
  from get_or_create_channel_dm [OF this] assms True dm show thesis by simp
next
  case False
  then obtain c where "\<not> known (dict_get (rt_user_channels s) key)" "re_db_up env"
    "get_channel provider puid (rt_db s) = Ok (Some c)" "c \<noteq> []" "stored_channel env key puid provider s = c"
    by (auto simp: stored_channel_def split: if_split_asm sum.splits option.splits)
  with get_or_create_channel_stored [OF this(1-4)] assms stored show thesis by simp
qed

lemma get_adapter_cong:
  "rt_registry t = rt_registry s \<Longrightarrow> rt_mattermost t = rt_mattermost s \<Longrightarrow> get_adapter t p = get_adapter s p"
  by (simp add: get_adapter_def cong: if_cong option.case_cong)

section \<open>Proactive texts\<close>

definition proactive_calls :: "router_env \<Rightarrow> adapter \<Rightarrow> string \<Rightarrow> string \<Rightarrow> string \<Rightarrow> string \<Rightarrow> router \<Rightarrow> chat_call list" where
  "proactive_calls env a key puid provider text s =
     (let stored = stored_channel env key puid provider s;
          to = (\<lambda>ch. if ch = [] \<or> text = [] then [] else [SendReply a ch text []])
      in if stored \<noteq> [] then to stored
         else GetOrCreateDm a puid #
           (case re_call env (length (rt_calls s)) (GetOrCreateDm a puid) of Inl e \<Rightarrow> [] | Inr dm \<Rightarrow> to dm))"

lemma handle_proactive_run:
  assumes run: "handle_proactive env user text provider s = (r, s')" and a: "get_adapter s provider = Some a"
    and key: "key = normalize_identity_key provider user" and puid: "puid = provider_user_id key provider"
  shows "rt_calls s' = rt_calls s @ proactive_calls env a key puid provider text s"
    "rt_pool s' = rt_pool s"
    "is_ok r \<longleftrightarrow> stored_channel env key puid provider s \<noteq> [] \<or> is_ok (re_call env (length (rt_calls s)) (GetOrCreateDm a puid))"
proof (atomize (full))
  let ?rest = "\<lambda>channel_id. if channel_id = [] then eret () else if text = [] then eret ()
      else etry (eseq (send_reply env a channel_id text []) (eret ())) (\<lambda>_. eret ())"
  let ?to = "\<lambda>ch. if ch = [] \<or> text = [] then [] else [SendReply a ch text []]"
  have rest: "rt_calls t' = rt_calls t @ ?to ch \<and> rt_pool t' = rt_pool t \<and> q = Ok ()" if "?rest ch t = (q, t')" for ch t q t'
    using that by (cases "ch = []"; cases "text = []")
      (auto simp: eret_def etry_def ecatch_def eseq_def ebind_def send_reply_def call_adapter_def
        split: sum.splits if_split_asm)
  have "ebind (get_or_create_channel env key puid provider) ?rest s = (r, s')"
    using run a unfolding key puid by (simp add: handle_proactive_def Let_def ebind_def eget_def)
  then show "rt_calls s' = rt_calls s @ proactive_calls env a key puid provider text s \<and> rt_pool s' = rt_pool s \<and>
    (is_ok r \<longleftrightarrow> stored_channel env key puid provider s \<noteq> [] \<or> is_ok (re_call env (length (rt_calls s)) (GetOrCreateDm a puid)))"
  proof (cases rule: ebind_cases)
    case (raised e)
    from raised(1) show ?thesis
    proof (cases rule: get_or_create_channel_cases)
      case dm
      with open_dm_run [OF dm(2) a] raised(2) show ?thesis by (auto simp: proactive_calls_def split: sum.splits)
    qed simp
  next
    case (cont ch s1)
    from cont(1) show ?thesis
    proof (cases rule: get_or_create_channel_cases)
      case stored
      with rest [OF cont(2)] show ?thesis by (auto simp: proactive_calls_def)
    next
      case dm
      with open_dm_run [OF dm(2) a] rest [OF cont(2)] show ?thesis by (auto simp: proactive_calls_def split: sum.splits)
    qed
  qed
qed

text \<open>
  Property C22. Where a proactive text goes: it is sent, once and only by the adapter of the given
  provider, to the channel the database holds for the identity when the router has no channel in its
  own table; in every other case, a channel in the table included, to a direct channel the
  adapter opens first. Nothing is sent without a text or a channel; OpenClaw is not asked.
\<close>

theorem proactive_text_delivery:
  assumes "handle_proactive env user text provider s = (r, s')"
    and "key = normalize_identity_key provider user" "puid = provider_user_id key provider"
  shows "case get_adapter s provider of None \<Rightarrow> r = Ok () \<and> s' = s
    | Some a \<Rightarrow> rt_calls s' = rt_calls s @ proactive_calls env a key puid provider text s \<and> rt_pool s' = rt_pool s \<and>
        (known (dict_get (rt_user_channels s) key) \<longrightarrow>
           (\<exists>cs. rt_calls s' = rt_calls s @ GetOrCreateDm a puid # cs))"
proof (cases "get_adapter s provider")
  case None
  with assms(1) show ?thesis by (simp add: handle_proactive_def Let_def ebind_def eget_def eret_def)
next
  case (Some a)
  from handle_proactive_run [OF assms(1) Some assms(2,3)] Some show ?thesis
    by (auto simp: proactive_calls_def stored_channel_def)
qed

text \<open>A user whose last channel the router knows gets the text in a direct channel all the same.\<close>

theorem proactive_text_delivery_witness:
  "rt_calls (snd (handle_proactive demo_env ''U1'' ''Reminder'' ''slack'' (snd slack_run))) =
   rt_calls (snd slack_run) @ [GetOrCreateDm SlackAdapter ''U1'', SendReply SlackAdapter ''post-1'' ''Reminder'' '''']"
proof -
  have "case slack_run of (r, s) \<Rightarrow> get_adapter s ''slack'' = Some SlackAdapter \<and>
    proactive_calls demo_env SlackAdapter (normalize_identity_key ''slack'' ''U1'')
       (provider_user_id (normalize_identity_key ''slack'' ''U1'') ''slack'') ''slack'' ''Reminder'' s =
     [GetOrCreateDm SlackAdapter ''U1'', SendReply SlackAdapter ''post-1'' ''Reminder'' '''']" by code_simp
  then have g: "get_adapter (snd slack_run) ''slack'' = Some SlackAdapter"
    "proactive_calls demo_env SlackAdapter (normalize_identity_key ''slack'' ''U1'')
       (provider_user_id (normalize_identity_key ''slack'' ''U1'') ''slack'') ''slack'' ''Reminder'' (snd slack_run) =
     [GetOrCreateDm SlackAdapter ''U1'', SendReply SlackAdapter ''post-1'' ''Reminder'' '''']" by (simp_all add: case_prod_beta)
  from proactive_text_delivery [OF prod.collapse [symmetric] refl refl, of demo_env "''U1''" "''Reminder''" "''slack''" "snd slack_run"] g
  show ?thesis by simp
qed

text \<open>
  Texts OpenClaw sends unasked to users of other platforms are misrouted: the
  callback gets the pool's key \<open>provider:user\<close> without a provider, so for every key of another
  provider it calls Mattermost only, with the whole key as a Mattermost user id, or, without
  Mattermost, drops the text; the user's own platform is never called.
\<close>

theorem proactive_key_is_misrouted:
  assumes "on_proactive env key text s = (r, s')" "\<not> startswith key ''mattermost:''"
  shows "case get_adapter s ''mattermost'' of None \<Rightarrow> s' = s
    | Some m \<Rightarrow> \<exists>cs. rt_calls s' = rt_calls s @ cs \<and> (\<forall>c \<in> set cs. case c of
        GetOrCreateDm b u \<Rightarrow> b = m \<and> u = key | SendReply b ch t rid \<Rightarrow> b = m \<and> t = text | _ \<Rightarrow> False)"
proof (cases "get_adapter s ''mattermost''")
  case None
  with assms(1) show ?thesis
    by (simp add: on_proactive_def DEFAULT_PROVIDER_def handle_proactive_def Let_def ebind_def eget_def eret_def)
next
  case (Some m)
  have k: "provider_user_id (normalize_identity_key ''mattermost'' key) ''mattermost'' = key"
    using assms(2) by (simp add: normalize_identity_key_def identity_key_def provider_user_id_def startswith_def)
  have "rt_calls s' = rt_calls s @ proactive_calls env m (normalize_identity_key ''mattermost'' key) key ''mattermost'' text s"
    by (rule handle_proactive_run(1) [OF _ Some refl])
      (use assms(1) k in \<open>simp_all add: on_proactive_def DEFAULT_PROVIDER_def\<close>)
  with Some show ?thesis by (auto simp: proactive_calls_def Let_def split: sum.splits if_split_asm)
qed


theorem proactive_key_is_misrouted_witness:
  "rt_calls (snd (on_proactive demo_env ''telegram:123'' ''Reminder'' (demo_router MattermostClient))) \<noteq> [] \<and>
   list_all (\<lambda>c. case c of GetOrCreateDm b u \<Rightarrow> b = MattermostClient \<and> u = ''telegram:123''
      | SendReply b ch t rid \<Rightarrow> b = MattermostClient \<and> t = ''Reminder'' | _ \<Rightarrow> False)
     (rt_calls (snd (on_proactive demo_env ''telegram:123'' ''Reminder'' (demo_router MattermostClient))))"
proof -
  have g: "get_adapter (demo_router MattermostClient) ''mattermost'' = Some MattermostClient"
    "rt_calls (demo_router MattermostClient) = []" "\<not> startswith ''telegram:123'' ''mattermost:''"
    "rt_calls (snd (on_proactive demo_env ''telegram:123'' ''Reminder'' (demo_router MattermostClient))) \<noteq> []" by (atomize (full), code_simp)
  from proactive_key_is_misrouted [OF prod.collapse [symmetric] g(3), of demo_env "''Reminder''" "demo_router MattermostClient"] g
  show ?thesis by (auto simp: list_all_iff)
qed

section \<open>Users without an instance\<close>

text \<open>
  Property C21. A user without an instance is told so and nothing else happens: with provisioning
  and Dify off, an event of an identity the database does not map causes exactly one call, the
  reply that no instance is assigned, whatever the event holds; OpenClaw, the pool and the disk
  stay untouched. When the database cannot be reached instead, the handler fails without a word.
\<close>

theorem unmapped_user_is_told:
  assumes run: "handle_event cfg env ev s = (r, s')" and a: "get_adapter s (ev_provider ev) = Some a"
    and off: "\<not> enable_auto_provisioning cfg" "dify_api_key cfg = []"
    and new: "get_cached_info (rt_pool s) (identity_key (ev_provider ev) (ev_user_id ev)) = None"
    and un: "re_db_up env \<Longrightarrow> \<exists>m st. get_instance_by_identity cfg (re_clock env (rt_ticks s))
      (snd (remember_channel (ev_provider ev) (ev_user_id ev) (ev_channel_id ev) (rt_db s)))
      (ev_provider ev) (ev_user_id ev) (rt_mapping s) = (Raise (InstanceNotFoundError m), st)"
  shows "rt_calls s' = rt_calls s @
      (if re_db_up env then [SendReply a (ev_channel_id ev) NO_INSTANCE_TEXT (ev_root_id ev)] else []) \<and>
    (\<not> re_db_up env \<longrightarrow> \<not> is_ok r) \<and> rt_pool s' = rt_pool s \<and> rt_disk s' = rt_disk s"
proof -
  let ?d = "if re_db_up env then snd (remember_channel (ev_provider ev) (ev_user_id ev) (ev_channel_id ev) (rt_db s)) else rt_db s"
  let ?s1 = "s\<lparr>rt_user_channels := dict_set (rt_user_channels s) (identity_key (ev_provider ev) (ev_user_id ev)) (ev_channel_id ev),
      rt_db := ?d\<rparr>"
  have rem: "remember_channel_rt env (identity_key (ev_provider ev) (ev_user_id ev)) (ev_provider ev)
      (ev_user_id ev) (ev_channel_id ev) s = (Ok (), ?s1)"
    by (auto simp: remember_channel_rt_def eseq_def ebind_def emod_def etry_def ecatch_def db_call_def
        eret_def eraise_def split: prod.splits sum.splits)
  have ok: "ebind (resolve_info cfg env a ev) (\<lambda>info_opt. case info_opt of None \<Rightarrow> eret ()
      | Some info \<Rightarrow> answer_event cfg env a ev info) ?s1 = (r, s')"
    using run a rem by (simp add: handle_event_def eseq_def ebind_def eget_def)
  have res: "resolve_info cfg env a ev ?s1 =
      ecatch not_mapped (ebind (lookup_info cfg env ev) (\<lambda>info. eret (Some info))) (\<lambda>_. handle_unmapped cfg env a ev) ?s1"
    using new by (simp add: resolve_info_def ebind_def eget_def)
  show ?thesis
  proof (cases "re_db_up env")
    case False
    then have "lookup_info cfg env ev ?s1 = (Raise (PyException ''database unavailable''), ?s1\<lparr>rt_ticks := Suc (rt_ticks s)\<rparr>)"
      by (simp add: lookup_info_def ebind_def tick_def db_call_def eraise_def)
    with res ok False show ?thesis by (auto simp: ebind_def ecatch_def)
  next
    case True
    with un obtain m st where "get_instance_by_identity cfg (re_clock env (rt_ticks s)) ?d (ev_provider ev) (ev_user_id ev)
        (rt_mapping s) = (Raise (InstanceNotFoundError m), st)" by auto
    with True have "lookup_info cfg env ev ?s1 = (Raise (InstanceNotFoundError m),
        ?s1\<lparr>rt_ticks := Suc (rt_ticks s), rt_mapping := st\<rparr>)"
      by (simp add: lookup_info_def ebind_def tick_def db_call_def)
    with res have "resolve_info cfg env a ev ?s1 =
        handle_unmapped cfg env a ev (?s1\<lparr>rt_ticks := Suc (rt_ticks s), rt_mapping := st\<rparr>)"
      by (simp add: ebind_def ecatch_def)
    with ok off True show ?thesis
      by (auto simp: handle_unmapped_def has_dify_def eseq_def ebind_def send_reply_def call_adapter_def eret_def
          split: sum.splits)
  qed
qed

theorem unmapped_user_is_told_witness:
  "rt_calls (snd (handle_event default_settings demo_env (demo_event SlackAdapter ''U2'') (demo_router SlackAdapter))) =
     [SendReply SlackAdapter ''C1'' NO_INSTANCE_TEXT '''']"
proof -
  let ?ev = "demo_event SlackAdapter ''U2''" and ?s = "demo_router SlackAdapter"
  have g: "get_adapter ?s (ev_provider ?ev) = Some SlackAdapter" "\<not> enable_auto_provisioning default_settings"
    "dify_api_key default_settings = []" "re_db_up demo_env" "rt_calls ?s = []"
    "get_cached_info (rt_pool ?s) (identity_key (ev_provider ?ev) (ev_user_id ?ev)) = None"
    "ev_channel_id ?ev = ''C1''" "ev_root_id ?ev = ''''" by (atomize (full), code_simp)
  let ?q = "get_instance_by_identity default_settings (re_clock demo_env (rt_ticks ?s))
      (snd (remember_channel (ev_provider ?ev) (ev_user_id ?ev) (ev_channel_id ?ev) (rt_db ?s)))
      (ev_provider ?ev) (ev_user_id ?ev) (rt_mapping ?s)"
  have "case fst ?q of Inl e \<Rightarrow> not_mapped e | Inr _ \<Rightarrow> False" by code_simp
  then have "\<exists>m st. ?q = (Raise (InstanceNotFoundError m), st)"
    by (cases ?q) (auto split: sum.splits elim: not_mapped.elims)
  from unmapped_user_is_told [OF prod.collapse [symmetric] g(1,2,3,6) this] g show ?thesis by simp
qed


section \<open>Files on Mattermost\<close>

lemma outgoing_file_cong:
  assumes "rt_mattermost t = rt_mattermost s" "rt_disk t = rt_disk s"
  shows "fst (outgoing_file cfg env ev uuid cp t) = fst (outgoing_file cfg env ev uuid cp s)"
  using assms
  by (auto simp: outgoing_file_def Let_def ebind_def eget_def eret_def has_file_manager_def split: sum.splits option.splits)

lemma outgoing_files_cong:
  assumes "rt_mattermost t = rt_mattermost s" "rt_disk t = rt_disk s"
  shows "fst (outgoing_files cfg env ev info media t) = fst (outgoing_files cfg env ev info media s)"
proof -
  have same: "snd (outgoing_file cfg env ev uuid cp u) = u" for uuid cp u
    by (auto simp: outgoing_file_def Let_def ebind_def eget_def eret_def split: sum.split option.split)
  have one: "outgoing_file cfg env ev uuid cp u = (fst (outgoing_file cfg env ev uuid cp u), u)" for uuid cp u
    using same by (metis prod.collapse)
  have "fst (emap (outgoing_file cfg env ev uuid) ms t) = fst (emap (outgoing_file cfg env ev uuid) ms s) \<and>
      snd (emap (outgoing_file cfg env ev uuid) ms t) = t \<and> snd (emap (outgoing_file cfg env ev uuid) ms s) = s" for uuid ms
  proof (induction ms)
    case (Cons m ms)
    note o = outgoing_file_cong [OF assms, of cfg env ev uuid m]
    obtain x where x: "outgoing_file cfg env ev uuid m s = (x, s)" "outgoing_file cfg env ev uuid m t = (x, t)"
      using one o by metis
    obtain xs where xs: "emap (outgoing_file cfg env ev uuid) ms t = (xs, t)" "emap (outgoing_file cfg env ev uuid) ms s = (xs, s)"
      using Cons.IH by (metis prod.collapse)
    show ?case using x xs by (cases x; cases xs) (simp_all add: ebind_def eret_def)
  qed (simp add: eret_def)
  then have y: "emap (outgoing_file cfg env ev uuid) ms t = (fst (emap (outgoing_file cfg env ev uuid) ms s), t)"
    "emap (outgoing_file cfg env ev uuid) ms s = (fst (emap (outgoing_file cfg env ev uuid) ms s), s)" for uuid ms
    by (metis prod.collapse)+
  show ?thesis unfolding outgoing_files_def
  proof (cases "extract_uuid_from_instance_url (instance_url info)")
    case (Some uuid)
    have "fst (ebind m f t) = fst (ebind m f s)" if "m t = (x, t)" "m s = (x, s)" "\<And>v. fst (f v t) = fst (f v s)"
      for m :: "(router, 'x) eff" and f :: "'x \<Rightarrow> (router, 'y) eff" and x
      using that by (cases x) (simp_all add: ebind_def)
    from this [OF y(1,2) [of uuid media], of "\<lambda>xs. eret (concat xs)"] Some show "fst ((case extract_uuid_from_instance_url (instance_url info) of None \<Rightarrow> eret []
        | Some uuid \<Rightarrow> ebind (emap (outgoing_file cfg env ev uuid) media) (\<lambda>xs. eret (concat xs))) t) =
      fst ((case extract_uuid_from_instance_url (instance_url info) of None \<Rightarrow> eret []
        | Some uuid \<Rightarrow> ebind (emap (outgoing_file cfg env ev uuid) media) (\<lambda>xs. eret (concat xs))) s)"
      by (simp add: eret_def)
  qed (simp add: eret_def)
qed

lemma ws_send_frame:
  "ws_send cfg env user info message sk so s = (r, s') \<Longrightarrow> rt_mattermost s' = rt_mattermost s \<and> rt_disk s' = rt_disk s"
  by (auto simp: ws_send_def Let_def run_stream_def split: prod.splits option.splits)

lemma message_frame_mattermost:
  "message_with_attachments cfg env ev info s = (r, s1) \<Longrightarrow> rt_mattermost s1 = rt_mattermost s"
  by (auto simp: message_with_attachments_def ebind_def eget_def eret_def ecatch_def download_rt_def
      split: if_split_asm option.splits prod.splits sum.splits)

lemma mattermost_deliver_fails:
  assumes "deliver env MattermostClient ev p response files s = (r, s')" "files \<noteq> []"
  shows "\<not> is_ok r \<and> (\<exists>cs. rt_calls s' = rt_calls s @ cs \<and> (\<forall>ch m fs rid. SendPostWithFiles MattermostClient ch m fs rid \<notin> set cs))"
  using assms
  by (cases "p = []")
    (auto simp: deliver_def send_post_with_files_def eseq_def eraise_def update_placeholder_def update_reply_def
      call_adapter_def eret_def elim!: ebind_cases)

text \<open>
  Property C39. Mattermost never gets files: whenever OpenClaw's answer to a Mattermost user comes
  with a file that was uploaded, the adapter's method rejects the name of the argument, no post with the
  file is made, and the user reads the error text after (or instead of) the answer.
\<close>

theorem mattermost_files_end_in_error:
  assumes run: "answer_event cfg env MattermostClient ev info s = (r, s')"
    and msg: "message_with_attachments cfg env ev info s = (Ok text, s1)"
    and out: "fst (pool_send_message cfg (re_pool env) (re_clock env (Suc (rt_ticks s))) (re_uuid4 env (Suc (rt_ticks s)))
      (identity_key (ev_provider ev) (ev_user_id ev)) info text
      (session_key_of (ev_provider ev) (ev_channel_id ev)) (rt_pool s)) = Ok (response, media)"
    and files: "response \<noteq> []" "fst (outgoing_files cfg env ev info media s1) = Ok files" "files \<noteq> []"
  shows "\<exists>cs. rt_calls s' = rt_calls s @ cs @ [error_reply MattermostClient ev] \<and>
    (\<forall>ch m fs rid. SendPostWithFiles MattermostClient ch m fs rid \<notin> set cs)"
proof -
  let ?a = MattermostClient
  have ne: "thinking_phrases \<noteq> []" by (simp add: thinking_phrases_def)
  note mf = message_frame [OF msg]
  obtain phrase p where ph: "try_placeholder env ?a ev thinking_phrases s1 =
    (Ok p, s1\<lparr>rt_ticks := Suc (rt_ticks s1),
       rt_calls := rt_calls s1 @ [SendReply ?a (ev_channel_id ev) phrase (ev_root_id ev)]\<rparr>)"
    using try_placeholder_calls [OF ne] by blast
  let ?s2 = "s1\<lparr>rt_ticks := Suc (rt_ticks s1),
       rt_calls := rt_calls s1 @ [SendReply ?a (ev_channel_id ev) phrase (ev_root_id ev)]\<rparr>"
  let ?h = "\<lambda>_ :: exn. eseq (send_reply env ?a (ev_channel_id ev) ERROR_TEXT (ev_root_id ev)) (eret ())"
  let ?s3 = "?s2\<lparr>rt_typing := typing_task ?a ev # rt_typing ?s2\<rparr>"
  have "with_typing ?a ev (etry (ask_openclaw cfg env ?a ev info text p) ?h) ?s2 = (r, s')"
    using run msg ph by (simp add: answer_event_def ebind_def)
  then obtain s4 where s4: "etry (ask_openclaw cfg env ?a ev info text p) ?h ?s3 = (r, s4)" "rt_calls s' = rt_calls s4"
    by (rule with_typing_run)
  obtain w s5 where w: "ws_send cfg env (identity_key (ev_provider ev) (ev_user_id ev)) info text
      (session_key_of (ev_provider ev) (ev_channel_id ev)) (streamer_for ?a p ev) ?s3 = (w, s5)" by fastforce
  have "w = Ok (response, media)" using ws_send_calls(1) [OF w] out mf by simp
  moreover obtain streams where streams: "rt_calls s5 = rt_calls ?s3 @ streams"
    "\<forall>c \<in> set streams. \<exists>t. c = UpdateReply ?a p t (ev_channel_id ev)" using ws_send_calls(2) [OF w] by blast
  moreover have "fst (outgoing_files cfg env ev info media s5) = Ok files"
    using outgoing_files_cong [of s5 s1] ws_send_frame [OF w] files(2) by simp
  then have "outgoing_files cfg env ev info media s5 = (Ok files, s5)"
    using outgoing_files_state by (metis prod.collapse)
  ultimately have ask: "ask_openclaw cfg env ?a ev info text p ?s3 = deliver env ?a ev p response files s5"
    using w files(1) by (simp add: ask_openclaw_def ebind_def)
  obtain q s6 where q: "deliver env ?a ev p response files s5 = (q, s6)" by fastforce
  from mattermost_deliver_fails [OF q files(3)] obtain e cs where d: "q = Inl e" "rt_calls s6 = rt_calls s5 @ cs"
    "\<forall>ch m fs rid. SendPostWithFiles ?a ch m fs rid \<notin> set cs" by (cases q) auto
  have "?h e s6 = (r, s4)" using s4(1) ask q d(1) by (simp add: etry_def ecatch_def)
  then have "rt_calls s4 = rt_calls s6 @ [error_reply ?a ev]"
    using reply_unit_calls [of env "SendReply ?a (ev_channel_id ev) ERROR_TEXT (ev_root_id ev)" s6 r s4]
    by (simp add: send_reply_def error_reply_def)
  then have "rt_calls s' = rt_calls s @ (SendReply ?a (ev_channel_id ev) phrase (ev_root_id ev) # streams @ cs) @
      [error_reply ?a ev]" using s4(2) d(2) streams(1) mf by simp
  moreover have "\<forall>ch m fs rid. SendPostWithFiles ?a ch m fs rid \<notin>
      set (SendReply ?a (ev_channel_id ev) phrase (ev_root_id ev) # streams @ cs)"
    using d(3) streams(2) by auto
  ultimately show ?thesis by blast
qed

theorem mattermost_files_end_in_error_witness:
  "last (rt_calls (snd (answer_event default_settings demo_env MattermostClient (demo_event MattermostClient ''U1'')
     demo_info (demo_router MattermostClient)))) = error_reply MattermostClient (demo_event MattermostClient ''U1'')"
proof -
  let ?ev = "demo_event MattermostClient ''U1''" and ?s = "demo_router MattermostClient"
  have m: "message_with_attachments default_settings demo_env ?ev demo_info ?s = (Ok ''Send me the report'', ?s)"
    by (simp add: message_with_attachments_def ebind_def eget_def eret_def demo_event_def)
  have g: "fst (pool_send_message default_settings (re_pool demo_env) (re_clock demo_env (Suc (rt_ticks ?s)))
      (re_uuid4 demo_env (Suc (rt_ticks ?s))) (identity_key (ev_provider ?ev) (ev_user_id ?ev)) demo_info ''Send me the report''
      (session_key_of (ev_provider ?ev) (ev_channel_id ?ev)) (rt_pool ?s)) =
    Ok (''Here it is'', [''/home/node/.openclaw/workspace/report.pdf''])"
    "fst (outgoing_files default_settings demo_env ?ev demo_info [''/home/node/.openclaw/workspace/report.pdf''] ?s) = Ok [''f1'']"
    by (atomize (full), code_simp)
  from mattermost_files_end_in_error [OF prod.collapse [symmetric] m g(1) _ g(2)] show ?thesis by fastforce
qed

section \<open>Late updates\<close>

text \<open>
  Streamed updates are not ordered against the answer: an update that waited while
  the previous one was in progress is sent when that one ends, even when the complete answer
  has replaced the placeholder in between, and the placeholder then shows a fragment again.
\<close>

theorem late_update_replaces_answer:
  "\<exists>cfg env ev s s'. handle_event cfg env ev s = (Ok (), s') \<and> ev_provider ev = ''telegram'' \<and>
    last (rt_calls s') = UpdateReply TelegramAdapter ''post-1'' ''Here it is'' (ev_channel_id ev) \<and>
    last (rt_calls (late_stream_event 0 UpdateDone s')) = UpdateReply TelegramAdapter ''post-1'' ''Here'' (ev_channel_id ev)"
proof -
  let ?env = "demo_env\<lparr>re_pool := \<lparr>pe_connect = \<lambda>c i. Ok (), pe_send = \<lambda>n. Ok (''Here it is'', [])\<rparr>,
      re_stream := [Chunk 6 ''H'', Chunk 7 ''Here'']\<rparr>"
  let ?ev = "demo_event TelegramAdapter ''U1''"
  let ?run = "handle_event default_settings ?env ?ev (demo_router TelegramAdapter)"
  obtain r s' where run: "?run = (r, s')" by fastforce
  have "case ?run of (r, s') \<Rightarrow> is_ok r \<and> ev_provider ?ev = ''telegram'' \<and>
    last (rt_calls s') = UpdateReply TelegramAdapter ''post-1'' ''Here it is'' (ev_channel_id ?ev) \<and>
    last (rt_calls (late_stream_event 0 UpdateDone s')) = UpdateReply TelegramAdapter ''post-1'' ''Here'' (ev_channel_id ?ev)"
    by code_simp
  then have "is_ok r \<and> ev_provider ?ev = ''telegram'' \<and>
    last (rt_calls s') = UpdateReply TelegramAdapter ''post-1'' ''Here it is'' (ev_channel_id ?ev) \<and>
    last (rt_calls (late_stream_event 0 UpdateDone s')) = UpdateReply TelegramAdapter ''post-1'' ''Here'' (ev_channel_id ?ev)"
    unfolding run by simp
  moreover from this have "r = Ok ()" by (cases r) simp_all
  ultimately show ?thesis using run by blast
qed


end
