(* ===== verification/Http.thy ===== *)
theory Http
  imports Effects Json ChatAdapter
begin

text \<open>
  What the chat adapters share: requests over an HTTP client (\<open>httpx.AsyncClient\<close>), whose answers are
  a parameter, and the JSON accesses of their handlers.
\<close>

section \<open>Requests\<close>

record http_request =
  rq_method :: string
  rq_url :: string
  rq_headers :: "(string \<times> string) list"
  rq_params :: "(string \<times> json) list"
  rq_body :: json
  rq_files :: "(string \<times> string) list"

text \<open>\<open>rs_message\<close> is the text of the exception \<open>raise_for_status\<close> makes of the answer.\<close>

record http_response =
  rs_status :: int
  rs_json :: "json result"
  rs_message :: string

definition get_request :: "string \<Rightarrow> (string \<times> json) list \<Rightarrow> http_request" where
  "get_request url params = \<lparr>rq_method = ''GET'', rq_url = url, rq_headers = [], rq_params = params,
     rq_body = JNull, rq_files = []\<rparr>"

definition post_request :: "string \<Rightarrow> json \<Rightarrow> http_request" where
  "post_request url body = \<lparr>rq_method = ''POST'', rq_url = url, rq_headers = [], rq_params = [],
     rq_body = body, rq_files = []\<rparr>"

definition put_request :: "string \<Rightarrow> json \<Rightarrow> http_request" where
  "put_request url body = (post_request url body)\<lparr>rq_method := ''PUT''\<rparr>"

definition with_headers :: "(string \<times> string) list \<Rightarrow> http_request \<Rightarrow> http_request" where
  "with_headers hs rq = rq\<lparr>rq_headers := hs\<rparr>"

lemma request_urls [simp]:
  "rq_url (get_request u ps) = u" "rq_url (post_request u b) = u" "rq_url (put_request u b) = u"
  "rq_url (with_headers hs rq) = rq_url rq" "rq_headers (with_headers hs rq) = hs"
  "rq_headers (post_request u b) = []" "rq_headers (put_request u b) = []" "rq_headers (get_request u ps) = []"
  "rq_params (get_request u ps) = ps"
  by (simp_all add: get_request_def post_request_def put_request_def with_headers_def)

text \<open>The outcome of the \<open>n\<close>-th request of a client.\<close>

type_synonym net = "nat \<Rightarrow> http_request \<Rightarrow> http_response result"

record http_client =
  hc_sent :: "http_request list"

definition http :: "net \<Rightarrow> http_request \<Rightarrow> ('a http_client_scheme, http_response) eff" where
  "http net rq s = (net (length (hc_sent s)) rq, s\<lparr>hc_sent := hc_sent s @ [rq]\<rparr>)"

definition raise_for_status :: "http_response \<Rightarrow> unit result" where
  "raise_for_status rs = (if 200 \<le> rs_status rs \<and> rs_status rs < 300 then Ok () else Raise (HTTPError (rs_message rs)))"

text \<open>Send, \<open>raise_for_status\<close>, \<open>json\<close>.\<close>

definition http_json :: "net \<Rightarrow> http_request \<Rightarrow> ('a http_client_scheme, json) eff" where
  "http_json net rq =
     ebind (http net rq) (\<lambda>rs. eseq (elift (raise_for_status rs)) (elift (rs_json rs)))"

definition http_done :: "net \<Rightarrow> http_request \<Rightarrow> ('a http_client_scheme, unit) eff" where
  "http_done net rq = ebind (http net rq) (\<lambda>rs. elift (raise_for_status rs))"

text \<open>\<open>str(e)\<close> of an \<open>httpx.HTTPError\<close>.\<close>

fun error_text :: "exn \<Rightarrow> string" where
  "error_text (HTTPError m) = m"
| "error_text _ = []"

fun is_http_error :: "exn \<Rightarrow> bool" where
  "is_http_error (HTTPError m) = True"
| "is_http_error _ = False"

section \<open>JSON accesses\<close>

text \<open>\<open>for x in j\<close>: the elements of a list, the keys of a dict, the characters of a text.\<close>

fun jiter :: "json \<Rightarrow> json list result" where
  "jiter (JList xs) = Ok xs"
| "jiter (JObj d) = Ok (map (\<lambda>(k, v). JStr k) d)"
| "jiter (JStr s) = Ok (map (\<lambda>c. JStr [c]) s)"
| "jiter _ = Raise PyTypeError"

text \<open>\<open>j[-1]\<close>.\<close>

fun jlast :: "json \<Rightarrow> json result" where
  "jlast (JList xs) = (if xs = [] then Raise PyIndexError else Ok (last xs))"
| "jlast (JStr s) = (if s = [] then Raise PyIndexError else Ok (JStr [last s]))"
| "jlast (JObj d) = Raise PyKeyError"
| "jlast _ = Raise PyTypeError"

text \<open>\<open>j.strip()\<close>: only texts have it.\<close>

fun jstrip :: "json \<Rightarrow> string result" where
  "jstrip (JStr s) = Ok (py_strip s)"
| "jstrip _ = Raise PyAttributeError"

text \<open>
  A value put into a field of an event that is meant to be a text. The platforms document texts
  there; a null reads as the empty text, which the handlers do not distinguish, any other value as
  the text Python shows for it.
\<close>

fun jtext :: "json \<Rightarrow> string" where
  "jtext JNull = []"
| "jtext j = py_str j"

definition jempty :: json where
  "jempty = JStr []"

text \<open>\<open>s.isdigit()\<close>.\<close>

definition isdigit :: "string \<Rightarrow> bool" where
  "isdigit s \<longleftrightarrow> s \<noteq> [] \<and> list_all is_digit s"

text \<open>\<open>int(s) if s.isdigit() else s\<close>.\<close>

definition jnumber :: "string \<Rightarrow> json" where
  "jnumber s = (if isdigit s then (case digits_val 0 s of Some n \<Rightarrow> JInt (int n) | None \<Rightarrow> JStr s) else JStr s)"

fun efor :: "('a \<Rightarrow> ('s, unit) eff) \<Rightarrow> 'a list \<Rightarrow> ('s, unit) eff" where
  "efor f [] = eret ()"
| "efor f (x # xs) = eseq (f x) (efor f xs)"

definition rmap :: "('a \<Rightarrow> 'b result) \<Rightarrow> 'a list \<Rightarrow> 'b list result" where
  "rmap f xs = foldr (\<lambda>x acc. bind_result (f x) (\<lambda>y. bind_result acc (\<lambda>ys. Ok (y # ys)))) xs (Ok [])"

text \<open>The note that stands for files where the platform takes text only.\<close>

definition file_note :: "string \<Rightarrow> string list \<Rightarrow> string" where
  "file_note label fs =
     join_with [CHR 0x0A] (map (\<lambda>f. [CHR 0xF0, CHR 0x9F, CHR 0x93, CHR 0x8E] @ '' '' @ label @ '': '' @ f) fs)"

definition text_with_files :: "string \<Rightarrow> string list \<Rightarrow> string" where
  "text_with_files message fs =
     (if fs = [] then message
      else if message \<noteq> [] then message @ [CHR 0x0A, CHR 0x0A] @ file_note ''Attachment'' fs
      else file_note ''Attachment'' fs)"

context frame
begin

lemma keeps_for: "(\<And>x. x \<in> set xs \<Longrightarrow> keeps (f x)) \<Longrightarrow> keeps (efor f xs)"
  by (induction xs) (auto intro!: keeps_seq)

end

end
