(* ===== verification/Polling.thy ===== *)
theory Polling
  imports Http
begin

text \<open>
  Long polling (\<open>_poll_loop\<close> of the Telegram and VK Teams adapters): each round fetches items beyond
  a position and takes them one by one, moving the position before the item is handled; an
  exception ends the round. The contract asks of the adapter that taking an item moves the
  position to the item and emits its events, whatever happens, and of the server that it answers
  with items of a queue beyond the position. Then items are handled in order, each once, and a round
  with an answer makes progress.
\<close>

section \<open>Items in order\<close>

definition queued :: "(json \<Rightarrow> int option) \<Rightarrow> json list \<Rightarrow> bool" where
  "queued ident q \<longleftrightarrow> list_all (\<lambda>u. ident u \<noteq> None) q \<and> sorted_wrt (\<lambda>u v. the (ident u) < the (ident v)) q"

definition pending :: "(json \<Rightarrow> int option) \<Rightarrow> json list \<Rightarrow> int \<Rightarrow> json list" where
  "pending ident q p = filter (\<lambda>u. p < the (ident u)) q"

lemma queued_Cons: "queued ident (u # us) \<Longrightarrow>
    queued ident us \<and> ident u = Some (the (ident u)) \<and> (\<forall>v \<in> set us. the (ident u) < the (ident v))"
  by (auto simp: queued_def)

lemma queued_take: "queued ident q \<Longrightarrow> queued ident (take m q)"
  by (simp add: queued_def sorted_wrt_take list_all_iff) (meson in_set_takeD)

lemma queued_pending: "queued ident q \<Longrightarrow> queued ident (pending ident q p)"
  by (simp add: queued_def pending_def sorted_wrt_filter list_all_iff)

text \<open>Beyond the position of an item are the items after it.\<close>

lemma pending_at:
  assumes "queued ident q" "i < length q"
  shows "pending ident q (the (ident (q ! i))) = drop (Suc i) q"
  using assms
proof (induction q arbitrary: i)
  case (Cons u q)
  note q = queued_Cons [OF Cons.prems(1)]
  show ?case
  proof (cases i)
    case 0
    with q show ?thesis by (auto simp: pending_def intro: filter_True)
  next
    case (Suc j)
    with Cons.prems(2) q have "the (ident u) < the (ident (q ! j))" by (auto dest: nth_mem)
    then have "\<not> the (ident (q ! j)) < the (ident u)" by simp
    with Suc Cons show ?thesis using q by (simp add: pending_def)
  qed
qed simp

section \<open>The contract\<close>

locale long_poll =
  fixes take_item :: "json \<Rightarrow> ('s, unit) eff"
    and position :: "'s \<Rightarrow> int"
    and handled :: "'s \<Rightarrow> channel_event list"
    and ready :: "'s \<Rightarrow> bool"
    and ident :: "json \<Rightarrow> int option"
    and events :: "json \<Rightarrow> channel_event list"
  assumes takes: "ready s \<Longrightarrow> ident u = Some i \<Longrightarrow> position s < i \<Longrightarrow> take_item u s = (r, s') \<Longrightarrow>
    ready s' \<and> position s' = i \<and> handled s' = handled s @ events u"
begin

text \<open>The first \<open>k\<close> items of the queue are handled, the others are beyond the position.\<close>

definition in_step :: "json list \<Rightarrow> nat \<Rightarrow> 's \<Rightarrow> bool" where
  "in_step q k s \<longleftrightarrow> ready s \<and> k \<le> length q \<and> handled s = concat (map events (take k q)) \<and>
     pending ident q (position s) = drop k q \<and> (k \<noteq> 0 \<longrightarrow> position s = the (ident (q ! (k - 1))))"

text \<open>What the server may answer.\<close>

definition serves :: "json list \<Rightarrow> ('s, json list) eff \<Rightarrow> bool" where
  "serves q fetch \<longleftrightarrow> (\<forall>s r s'. ready s \<longrightarrow> fetch s = (r, s') \<longrightarrow>
     ready s' \<and> position s' = position s \<and> handled s' = handled s \<and>
     (\<forall>us. r = Ok us \<longrightarrow> (\<exists>m. us = take m (pending ident q (position s)))))"

definition generous :: "json list \<Rightarrow> ('s, json list) eff \<Rightarrow> bool" where
  "generous q fetch \<longleftrightarrow> (\<forall>s. ready s \<longrightarrow> pending ident q (position s) \<noteq> [] \<longrightarrow>
     (\<exists>us. fst (fetch s) = Ok us \<and> us \<noteq> []))"

definition poll :: "('s, json list) eff \<Rightarrow> ('s, unit) eff" where
  "poll fetch = etry (ebind fetch (efor take_item)) (\<lambda>_. eret ())"

text \<open>A batch is taken up to some item, the first one at least.\<close>

lemma batch:
  assumes "ready s" "queued ident us" "\<forall>u \<in> set us. position s < the (ident u)" "efor take_item us s = (r, s')"
  obtains k where "k \<le> length us" "ready s'" "handled s' = handled s @ concat (map events (take k us))"
    "position s' = (if k = 0 then position s else the (ident (us ! (k - 1))))" "us \<noteq> [] \<longrightarrow> 0 < k"
  using assms
proof (induction us arbitrary: s thesis)
  case Nil
  then show ?case by (simp add: eret_def)
next
  case (Cons u us)
  note q = queued_Cons [OF Cons.prems(3)]
  obtain r1 s1 where one: "take_item u s = (r1, s1)" by fastforce
  from takes [OF Cons.prems(2) conjunct1 [OF conjunct2 [OF q]] _ one] Cons.prems(4)
  have t: "ready s1" "position s1 = the (ident u)" "handled s1 = handled s @ events u" by auto
  show ?case
  proof (cases r1)
    case (Inl e)
    with Cons.prems(5) one have "s' = s1" by (simp add: eseq_def ebind_def)
    with t show ?thesis by (intro Cons.prems(1) [of 1]) auto
  next
    case (Inr x)
    with Cons.prems(5) one have rest: "efor take_item us s1 = (r, s')" by (simp add: eseq_def ebind_def)
    obtain k where k: "k \<le> length us" "ready s'" "handled s' = handled s1 @ concat (map events (take k us))"
      "position s' = (if k = 0 then position s1 else the (ident (us ! (k - 1))))"
      by (rule Cons.IH [OF _ t(1) _ _ rest]) (use q t(2) in auto)
    show ?thesis
      by (rule Cons.prems(1) [of "Suc k"]) (use k t in \<open>auto simp: nth_Cons'\<close>)
  qed
qed

lemma poll_in_step:
  assumes q: "queued ident q" and s: "in_step q k s" and f: "serves q fetch" and run: "poll fetch s = (r, s')"
  obtains k' where "k \<le> k'" "in_step q k' s'" "generous q fetch \<longrightarrow> k < length q \<longrightarrow> k < k'"
proof -
  obtain r1 s1 where one: "fetch s = (r1, s1)" by fastforce
  have rs: "ready s" "pending ident q (position s) = drop k q" "k \<le> length q" using s by (auto simp: in_step_def)
  have s1: "ready s1" "position s1 = position s" "handled s1 = handled s"
    "\<And>us. r1 = Ok us \<Longrightarrow> \<exists>m. us = take m (pending ident q (position s))"
    using f rs(1) one unfolding serves_def by blast+
  then have k1: "in_step q k s1" using s by (simp add: in_step_def)
  show thesis
  proof (cases r1)
    case (Inl e)
    with run one have "s' = s1" by (simp add: poll_def etry_def ecatch_def ebind_def eret_def)
    moreover have "\<not> (generous q fetch \<and> k < length q)"
      using rs one Inl by (auto simp: generous_def)
    ultimately show thesis using k1 by (intro that [of k]) auto
  next
    case (Inr us)
    then obtain m where m: "us = take m (drop k q)" using s1(4) rs(2) by auto
    obtain r2 where r2: "efor take_item us s1 = (r2, s')"
      using run one Inr
      by (cases "efor take_item us s1") (auto simp: poll_def etry_def ecatch_def ebind_def eret_def split: sum.splits)
    have "queued ident us" using q rs(2) m queued_take queued_pending by metis
    moreover have "\<forall>u \<in> set us. position s1 < the (ident u)"
      using m rs(2) s1(2) by (auto simp: pending_def dest!: in_set_takeD arg_cong [of _ _ set])
    ultimately obtain j where j: "j \<le> length us" "ready s'" "handled s' = handled s1 @ concat (map events (take j us))"
      "position s' = (if j = 0 then position s1 else the (ident (us ! (j - 1))))" "us \<noteq> [] \<longrightarrow> 0 < j"
      using batch [OF s1(1) _ _ r2] by metis
    have len: "k + j \<le> length q" using j(1) m rs(3) by auto
    have "take (k + j) q = take k q @ take j us" using m j(1) by (simp add: take_add)
    then have h: "handled s' = concat (map events (take (k + j) q))"
      using j(3) s1(3) s by (simp add: in_step_def)
    have p: "j \<noteq> 0 \<Longrightarrow> position s' = the (ident (q ! (k + j - 1)))"
    proof -
      assume "j \<noteq> 0"
      moreover have "us ! (j - 1) = q ! (k + (j - 1))"
      proof -
        obtain i where i: "j = Suc i" using \<open>j \<noteq> 0\<close> by (cases j) auto
        with m j(1) have "us ! i = drop k q ! i" by simp
        also have "\<dots> = q ! (k + i)" using rs(3) by simp
        finally show ?thesis using i by simp
      qed
      ultimately show "position s' = the (ident (q ! (k + j - 1)))" using j(4) by simp
    qed
    then have "j \<noteq> 0 \<Longrightarrow> pending ident q (position s') = drop (k + j) q"
      using pending_at [OF q, of "k + j - 1"] len by simp
    then have "in_step q (k + j) s'"
      using h j(2,4) len p s k1 by (cases "j = 0") (auto simp: in_step_def)
    moreover have "generous q fetch \<longrightarrow> k < length q \<longrightarrow> k < k + j"
    proof (intro impI)
      assume "generous q fetch" "k < length q"
      then have "us \<noteq> []" using rs one Inr by (auto simp: generous_def)
      with j(5) show "k < k + j" by simp
    qed
    ultimately show thesis by (intro that [of "k + j"]) auto
  qed
qed

text \<open>A loop that does one round after the other while the adapter is ready.\<close>

lemma rounds_in_step:
  assumes q: "queued ident q" and f: "serves q fetch"
    and loop: "\<And>s. loop 0 s = (Ok (), s)" "\<And>n s. ready s \<Longrightarrow> loop (Suc n) s = eseq (poll fetch) (loop n) s"
    and s: "in_step q k s" and run: "loop n s = (r, s')"
  obtains k' where "k \<le> k'" "in_step q k' s'" "generous q fetch \<longrightarrow> min (k + n) (length q) \<le> k'"
  using s run
proof (induction n arbitrary: k s thesis)
  case 0
  with loop(1) show ?case by (auto simp: in_step_def)
next
  case (Suc n)
  obtain r1 s1 where one: "poll fetch s = (r1, s1)" by fastforce
  have "r1 = Ok ()"
    using one by (cases "ebind fetch (efor take_item) s") (auto simp: poll_def etry_def ecatch_def eret_def split: sum.splits)
  moreover have "ready s" using Suc.prems(2) by (simp add: in_step_def)
  ultimately have rest: "loop n s1 = (r, s')" using Suc.prems(3) loop(2) one by (simp add: eseq_def ebind_def)
  obtain k1 where k1: "k \<le> k1" "in_step q k1 s1" "generous q fetch \<longrightarrow> k < length q \<longrightarrow> k < k1"
    by (rule poll_in_step [OF q Suc.prems(2) f one])
  obtain k2 where k2: "k1 \<le> k2" "in_step q k2 s'" "generous q fetch \<longrightarrow> min (k1 + n) (length q) \<le> k2"
    by (rule Suc.IH [OF _ k1(2) rest])
  have "k1 \<le> length q" using k1(2) by (simp add: in_step_def)
  then show ?case using k1 k2 by (intro Suc.prems(1) [of k2]) auto
qed

end

end
