(* ===== verification/Adapters.thy ===== *)
theory Adapters
  imports Http
begin

text \<open>
  The interface of the chat adapters (\<open>BaseChatAdapter\<close> of \<open>src/services/chat_adapter.py\<close>) as a
  record of operations on an adapter's state, and the contract every adapter fulfils: each
  operation sends only requests the adapter may send and keeps its invariant, an update fails
  silently when the platform does, and sending the typing indicator never fails.
\<close>

record 's chat_ops =
  co_send_reply :: "string \<Rightarrow> string \<Rightarrow> string \<Rightarrow> ('s, string) eff"
  co_update_reply :: "string \<Rightarrow> string \<Rightarrow> string \<Rightarrow> ('s, unit) eff"
  co_send_typing :: "string \<Rightarrow> string \<Rightarrow> ('s, unit) eff"
  co_send_post_with_files :: "string \<Rightarrow> string \<Rightarrow> string list \<Rightarrow> string \<Rightarrow> ('s, string) eff"
  co_get_or_create_dm_channel :: "string \<Rightarrow> ('s, string) eff"

text \<open>A call of the router, carried out by an adapter.\<close>

fun run_call :: "'s chat_ops \<Rightarrow> chat_call \<Rightarrow> ('s, string) eff" where
  "run_call ops (SendReply a ch m rid) = co_send_reply ops ch m rid"
| "run_call ops (UpdateReply a p m ch) = eseq (co_update_reply ops p m ch) (eret [])"
| "run_call ops (SendPostWithFiles a ch m fs rid) = co_send_post_with_files ops ch m fs rid"
| "run_call ops (GetOrCreateDm a u) = co_get_or_create_dm_channel ops u"

text \<open>Calls made one after the other, each in a handler that survives its failure.\<close>

definition run_calls :: "'s chat_ops \<Rightarrow> chat_call list \<Rightarrow> ('s, unit) eff" where
  "run_calls ops cs = efor (\<lambda>c. etry (eseq (run_call ops c) (eret ())) (\<lambda>_. eret ())) cs"

text \<open>\<open>_typing_loop\<close> of \<open>src/router.py\<close>, for as many rounds as pass before it is cancelled.\<close>

definition typing_loop :: "'s chat_ops \<Rightarrow> string \<Rightarrow> string \<Rightarrow> nat \<Rightarrow> ('s, unit) eff" where
  "typing_loop ops channel_id parent_id rounds = efor (\<lambda>_. co_send_typing ops channel_id parent_id) [0..<rounds]"

definition sends_only :: "(http_request \<Rightarrow> bool) \<Rightarrow> 'a http_client_scheme \<Rightarrow> 'a http_client_scheme \<Rightarrow> bool" where
  "sends_only own s t \<longleftrightarrow> (\<exists>rqs. hc_sent t = hc_sent s @ rqs \<and> list_all own rqs)"

lemma sends_only_refl [simp]: "sends_only own s s"
  by (simp add: sends_only_def)

lemma sends_only_trans: "sends_only own s t \<Longrightarrow> sends_only own t u \<Longrightarrow> sends_only own s u"
  by (auto simp: sends_only_def)

locale own_requests =
  fixes own :: "http_request \<Rightarrow> bool" and inv :: "'a http_client_scheme \<Rightarrow> bool"
  assumes inv_sent: "inv s \<Longrightarrow> inv (s\<lparr>hc_sent := rqs\<rparr>)"

sublocale own_requests \<subseteq> frame "\<lambda>s t. sends_only own s t \<and> (inv s \<longrightarrow> inv t)" inv
  by unfold_locales (auto intro: sends_only_trans)

context own_requests
begin

lemma keeps_http: "own rq \<Longrightarrow> keeps (http net rq)"
  by (rule keepsI) (auto simp: http_def sends_only_def intro: inv_sent)

lemma keeps_http_json: "own rq \<Longrightarrow> keeps (http_json net rq)"
  unfolding http_json_def by (intro keeps_rules keeps_http)

lemma keeps_http_done: "own rq \<Longrightarrow> keeps (http_done net rq)"
  unfolding http_done_def by (intro keeps_rules keeps_http)

lemmas keeps_requests = keeps_http keeps_http_json keeps_http_done

end

locale chat_adapter = own_requests own inv
  for own :: "http_request \<Rightarrow> bool" and inv :: "'a http_client_scheme \<Rightarrow> bool" +
  fixes ops :: "'a http_client_scheme chat_ops"
  assumes replies: "keeps (co_send_reply ops ch m rid)"
    and updates: "keeps (co_update_reply ops p m ch)"
    and typing: "keeps (co_send_typing ops ch rid)"
    and files: "keeps (co_send_post_with_files ops ch m fs rid)"
    and dms: "keeps (co_get_or_create_dm_channel ops u)"
    and no_placeholder: "co_update_reply ops [] m ch s = (Ok (), s)"
    and quiet_update: "inv s \<Longrightarrow> co_update_reply ops p m ch s = (Inl e, s') \<Longrightarrow> \<not> is_http_error e"
    and quiet_typing: "inv s \<Longrightarrow> co_send_typing ops ch rid s = (r, s') \<Longrightarrow> r = Ok ()"
begin

lemma keeps_call: "keeps (run_call ops c)"
  by (cases c) (auto intro!: keeps_rules replies updates files dms)

lemma calls_own: "run_calls ops cs s = (r, s') \<Longrightarrow> inv s \<Longrightarrow> sends_only own s s' \<and> inv s'"
proof -
  assume "run_calls ops cs s = (r, s')" "inv s"
  moreover have "keeps (run_calls ops cs)"
    unfolding run_calls_def by (intro keeps_for keeps_try keeps_seq keeps_call keeps_basic)
  ultimately show "sends_only own s s' \<and> inv s'" by (auto dest: keepsD)
qed

text \<open>Only cancelling ends the typing loop.\<close>

lemma typing_goes_on: "inv s \<Longrightarrow> fst (typing_loop ops ch rid n s) = Ok ()"
proof -
  have "inv t \<Longrightarrow> fst (efor (\<lambda>_. co_send_typing ops ch rid) xs t) = Ok ()" for xs :: "nat list" and t
  proof (induction xs arbitrary: t)
    case (Cons x xs)
    obtain q t1 where q: "co_send_typing ops ch rid t = (q, t1)" by fastforce
    then have "q = Ok ()" "inv t1" using quiet_typing Cons.prems keepsD [OF typing q] by auto
    with Cons.IH [of t1] q show ?case by (simp add: eseq_def ebind_def)
  qed (simp add: eret_def)
  then show "inv s \<Longrightarrow> ?thesis" by (simp add: typing_loop_def)
qed

end

end
