(* ===== verification/Telegram.thy ===== *)
theory Telegram
  imports Polling Adapters FilePaths
begin

text \<open>
  The Telegram adapter (\<open>src/services/telegram.py\<close>): login, the long-polling loop over updates, the
  translation of an update to an event, and the outgoing calls. The Bot API is the parameter
  \<open>net\<close>, the files on disk a function from paths to what reading them gives (\<open>None\<close> when there is
  no such file). Events handed to \<open>on_message\<close>, each in a task of its own, are collected in order.
\<close>

section \<open>State\<close>

record telegram = http_client +
  tg_token :: string
  tg_api_url :: string
  tg_running :: bool
  tg_listening :: bool
  tg_closed :: bool
  tg_last_update_id :: int
  tg_bot_id :: string
  tg_on_message :: bool
  tg_events :: "channel_event list"

type_synonym 'a tg = "(telegram, 'a) eff"

definition new_telegram :: "string \<Rightarrow> string \<Rightarrow> telegram" where
  "new_telegram bot_token base_url = \<lparr>hc_sent = [], tg_token = bot_token,
     tg_api_url = rstrip_by (\<lambda>c. c = CHR ''/'') base_url @ ''/bot'' @ bot_token, tg_running = False,
     tg_listening = False, tg_closed = False, tg_last_update_id = 0, tg_bot_id = [], tg_on_message = False,
     tg_events = []\<rparr>"

definition tg_is_connected :: "telegram \<Rightarrow> bool" where
  "tg_is_connected s \<longleftrightarrow> tg_running s \<and> tg_bot_id s \<noteq> []"

definition redact :: "string \<Rightarrow> string \<Rightarrow> string" where
  "redact token text = (if token \<noteq> [] then py_replace text token ''***'' else text)"

definition tg_check :: "string \<Rightarrow> http_response \<Rightarrow> unit result" where
  "tg_check token rs =
     (case raise_for_status rs of
        Inl e \<Rightarrow> if is_http_error e then Raise (HTTPError (redact token (error_text e))) else Raise e
      | Inr u \<Rightarrow> Ok ())"

definition tg_post :: "string \<Rightarrow> json \<Rightarrow> telegram \<Rightarrow> http_request" where
  "tg_post api_method body s = post_request (tg_api_url s @ api_method) body"

section \<open>Login and shutdown\<close>

definition tg_start :: "net \<Rightarrow> unit tg" where
  "tg_start net =
     eseq (emod (\<lambda>s. s\<lparr>tg_on_message := True, tg_running := True\<rparr>))
    (ebind (eget tg_api_url) (\<lambda>url.
     ebind (http_json net (get_request (url @ ''/getMe'') [])) (\<lambda>data.
     ebind (elift (jget data ''ok'')) (\<lambda>ok.
     if \<not> truthy ok then
       ebind (elift (jget data ''description'')) (\<lambda>d.
       eraise (PyRuntimeError (''Telegram getMe failed: '' @ py_str d)))
     else
       ebind (elift (jget_or data ''result'' (JObj []))) (\<lambda>me.
       ebind (elift (jget_or me ''id'' jempty)) (\<lambda>i.
       emod (\<lambda>s. s\<lparr>tg_bot_id := py_str i, tg_listening := True\<rparr>)))))))"

definition tg_stop :: "unit tg" where
  "tg_stop = emod (\<lambda>s. s\<lparr>tg_running := False, tg_listening := False, tg_closed := True\<rparr>)"

section \<open>Updates\<close>

definition tg_file_ids :: "json \<Rightarrow> string list result" where
  "tg_file_ids message =
     bind_result (jget message ''document'') (\<lambda>document.
     bind_result (jget message ''photo'') (\<lambda>photo.
     if truthy document then
       bind_result (jindex document ''file_id'') (\<lambda>f. Ok [jtext f])
     else if truthy photo then
       bind_result (jlast photo) (\<lambda>p. bind_result (jindex p ''file_id'') (\<lambda>f. Ok [jtext f]))
     else Ok []))"

text \<open>The event of an update, if it makes one.\<close>

definition tg_parse :: "json \<Rightarrow> channel_event option result" where
  "tg_parse update =
     bind_result (jget update ''message'') (\<lambda>m.
     bind_result (jget update ''channel_post'') (\<lambda>cp.
     let message = jor m cp in
     if \<not> truthy message then Ok None
     else
       bind_result (jget_or message ''from'' (JObj [])) (\<lambda>from_user.
       bind_result (jget_or message ''chat'' (JObj [])) (\<lambda>chat.
       bind_result (jget_or from_user ''id'' jempty) (\<lambda>uid.
       bind_result (jget_or chat ''id'' jempty) (\<lambda>cid.
       bind_result (jget_or message ''text'' jempty) (\<lambda>t.
       bind_result (jget_or message ''caption'' jempty) (\<lambda>caption.
       bind_result (jget_or message ''message_id'' jempty) (\<lambda>mid.
       bind_result (jget message ''message_thread_id'') (\<lambda>thread.
       bind_result (tg_file_ids message) (\<lambda>file_ids.
       let txt0 = jor t caption;
           channel_id = py_str cid;
           user_id = (if py_str uid = [] \<and> channel_id \<noteq> [] then channel_id else py_str uid)
       in if \<not> truthy txt0 \<and> file_ids = [] then Ok None
          else Ok (Some \<lparr>ev_user_id = user_id, ev_channel_id = channel_id, ev_text = jtext txt0,
            ev_post_id = py_str mid, ev_file_ids = file_ids, ev_provider = ''telegram'',
            ev_root_id = (if truthy thread then py_str thread else [])\<rparr>)))))))))))) "

definition tg_handle_update :: "json \<Rightarrow> unit tg" where
  "tg_handle_update update =
     ebind (elift (tg_parse update)) (\<lambda>event_opt.
     case event_opt of
       None \<Rightarrow> eret ()
     | Some ev \<Rightarrow> emod (\<lambda>s. if tg_on_message s then s\<lparr>tg_events := tg_events s @ [ev]\<rparr> else s))"

text \<open>\<open>max(last, update.get("update_id", 0))\<close>; ids are integers.\<close>

definition tg_next_id :: "int \<Rightarrow> json \<Rightarrow> int result" where
  "tg_next_id last_id update =
     bind_result (jget_or update ''update_id'' (JInt 0)) (\<lambda>i.
     case i of JInt n \<Rightarrow> Ok (max last_id n) | JBool b \<Rightarrow> Ok (max last_id (if b then 1 else 0)) | _ \<Rightarrow> Raise PyTypeError)"

definition tg_take_update :: "json \<Rightarrow> unit tg" where
  "tg_take_update update =
     ebind (eget (\<lambda>s. tg_next_id (tg_last_update_id s) update)) (\<lambda>r.
     ebind (elift r) (\<lambda>n.
     eseq (emod (\<lambda>s. s\<lparr>tg_last_update_id := n\<rparr>)) (tg_handle_update update)))"

definition tg_poll_request :: "telegram \<Rightarrow> http_request" where
  "tg_poll_request s = get_request (tg_api_url s @ ''/getUpdates'')
     [(''offset'', JInt (tg_last_update_id s + 1)), (''timeout'', JInt 20),
      (''allowed_updates'', JList [JStr ''message'', JStr ''channel_post''])]"

text \<open>The updates of one request: none when the server refuses.\<close>

definition tg_fetch :: "net \<Rightarrow> json list tg" where
  "tg_fetch net =
     ebind (eget tg_poll_request) (\<lambda>rq.
     ebind (http net rq) (\<lambda>rs.
     if rs_status rs \<noteq> 200 then eret []
     else ebind (elift (rs_json rs)) (\<lambda>data.
       ebind (elift (jget data ''ok'')) (\<lambda>ok.
       if \<not> truthy ok then eret []
       else ebind (elift (jget_or data ''result'' (JList []))) (\<lambda>updates. elift (jiter updates))))))"

text \<open>One round of the loop; the pauses after a failure are left out.\<close>

definition tg_poll :: "net \<Rightarrow> unit tg" where
  "tg_poll net = etry (ebind (tg_fetch net) (efor tg_take_update)) (\<lambda>_. eret ())"

fun tg_polls :: "nat \<Rightarrow> net \<Rightarrow> unit tg" where
  "tg_polls 0 net = eret ()"
| "tg_polls (Suc n) net = ebind (eget tg_running) (\<lambda>running.
     if running then eseq (tg_poll net) (tg_polls n net) else eret ())"

section \<open>Outgoing calls\<close>

definition thread_field :: "string \<Rightarrow> (string \<times> json) list" where
  "thread_field root_id = (if isdigit root_id then [(''message_thread_id'', jnumber root_id)] else [])"

definition result_id :: "json \<Rightarrow> string result" where
  "result_id data =
     bind_result (jget_or data ''result'' (JObj [])) (\<lambda>r.
     bind_result (jget_or r ''message_id'' jempty) (\<lambda>m. Ok (py_str m)))"

definition tg_send_reply :: "net \<Rightarrow> string \<Rightarrow> string \<Rightarrow> string \<Rightarrow> string tg" where
  "tg_send_reply net channel_id message root_id =
     ebind (eget (tg_post ''/sendMessage''
       (JObj ([(''chat_id'', JStr channel_id), (''text'', JStr message)] @ thread_field root_id)))) (\<lambda>rq.
     ebind (eget tg_token) (\<lambda>token.
     ecatch is_http_error
       (ebind (http net rq) (\<lambda>rs.
        eseq (elift (tg_check token rs))
          (ebind (elift (rs_json rs)) (\<lambda>data. elift (result_id data)))))
       (\<lambda>e. eraise (HTTPError (redact token (error_text e))))))"

definition tg_update_reply :: "net \<Rightarrow> string \<Rightarrow> string \<Rightarrow> string \<Rightarrow> unit tg" where
  "tg_update_reply net post_id message channel_id =
     (if post_id = [] \<or> channel_id = [] then eret ()
      else
        ebind (eget (tg_post ''/editMessageText''
          (JObj [(''chat_id'', JStr channel_id), (''message_id'', jnumber post_id), (''text'', JStr message)]))) (\<lambda>rq.
        ecatch is_http_error
          (ebind (http net rq) (\<lambda>rs.
           if rs_status rs \<noteq> 200 \<and> rs_status rs \<noteq> 400 then elift (raise_for_status rs) else eret ()))
          (\<lambda>_. eret ())))"

definition tg_send_typing :: "net \<Rightarrow> string \<Rightarrow> string \<Rightarrow> unit tg" where
  "tg_send_typing net channel_id parent_id =
     ebind (eget (tg_post ''/sendChatAction''
       (JObj ([(''chat_id'', JStr channel_id), (''action'', JStr ''typing'')] @ thread_field parent_id)))) (\<lambda>rq.
     etry (ebind (http net rq) (\<lambda>_. eret ())) (\<lambda>_. eret ()))"

type_synonym local_files = "string \<Rightarrow> string result option"

text \<open>One document: uploaded when it is a file on disk, by its id otherwise.\<close>

definition tg_send_document :: "net \<Rightarrow> local_files \<Rightarrow> string \<Rightarrow> string \<Rightarrow> string \<Rightarrow> string \<Rightarrow> string tg" where
  "tg_send_document net disk_files channel_id caption item root_id =
     ebind (eget tg_token) (\<lambda>token.
     ebind (case disk_files item of
         Some r \<Rightarrow>
           ebind (elift r) (\<lambda>content.
           eget (\<lambda>s. (tg_post ''/sendDocument'' (JObj ([(''chat_id'', JStr channel_id), (''caption'', JStr caption)] @
             thread_field root_id)) s)\<lparr>rq_files := [(basename item, content)]\<rparr>))
       | None \<Rightarrow>
           eget (tg_post ''/sendDocument'' (JObj ([(''chat_id'', JStr channel_id), (''document'', JStr item),
             (''caption'', JStr caption)] @ thread_field root_id)))) (\<lambda>rq.
     ebind (http net rq) (\<lambda>rs.
     eseq (elift (tg_check token rs))
       (ebind (elift (rs_json rs)) (\<lambda>data. elift (result_id data))))))"

text \<open>The caption goes with the first document only.\<close>

fun tg_send_post_with_files :: "net \<Rightarrow> local_files \<Rightarrow> string \<Rightarrow> string \<Rightarrow> string list \<Rightarrow> string \<Rightarrow> string \<Rightarrow> string tg" where
  "tg_send_post_with_files net disk_files channel_id message [] root_id last_id = eret last_id"
| "tg_send_post_with_files net disk_files channel_id message (item # items) root_id last_id =
     ebind (tg_send_document net disk_files channel_id message item root_id) (\<lambda>i.
     tg_send_post_with_files net disk_files channel_id [] items root_id i)"

definition tg_get_or_create_dm_channel :: "string \<Rightarrow> string tg" where
  "tg_get_or_create_dm_channel user_id = eret user_id"

section \<open>No token in the logs\<close>

lemma prefix_of_replaced:
  assumes "CHR ''*'' \<notin> set p"
  shows "prefix p (py_replace s old ''***'') \<Longrightarrow> prefix p s"
  using assms
proof (induction s arbitrary: p)
  case (Cons c cs)
  show ?case
  proof (cases "old \<noteq> [] \<and> startswith (c # cs) old")
    case True
    with Cons.prems have "p = []" by (cases p) (auto simp: py_replace_Cons)
    then show ?thesis by simp
  next
    case False
    then have "prefix p (c # py_replace cs old ''***'')"
      using Cons.prems(1) by (auto simp: py_replace_Cons)
    then consider "p = []" | q where "p = c # q" "prefix q (py_replace cs old ''***'')" by (auto simp: prefix_Cons)
    then show ?thesis
    proof cases
      case 2
      with Cons.prems(2) have "prefix q cs" by (intro Cons.IH) auto
      with 2 show ?thesis by simp
    qed simp
  qed
qed simp

text \<open>Replacing leaves no occurrence when the replacement has no character of the text replaced.\<close>

lemma replaced_is_gone:
  assumes "CHR ''*'' \<notin> set old" "old \<noteq> []"
  shows "\<not> contains (py_replace s old ''***'') old"
proof (induction s rule: length_induct)
  case (1 s)
  show ?case
  proof (cases s)
    case Nil
    with assms show ?thesis by (simp add: contains_def)
  next
    case (Cons c cs)
    show ?thesis
    proof (cases "startswith (c # cs) old")
      case True
      let ?r = "py_replace (drop (length old) (c # cs)) old ''***''"
      have "length (drop (length old) (c # cs)) < length s"
        using assms(2) Cons by (cases old) (auto intro: le_imp_less_Suc)
      with 1 have "\<not> contains ?r old" by blast
      moreover have "py_replace s old ''***'' = ''***'' @ ?r"
        using True assms(2) Cons by (simp add: py_replace_Cons)
      moreover have "sublist old (CHR ''*'' # t) \<Longrightarrow> sublist old t" for t
        using assms by (cases old) (auto simp: sublist_Cons_right)
      ultimately show ?thesis by (auto simp: contains_def)
    next
      case False
      have "\<not> contains (py_replace cs old ''***'') old" using 1 Cons by simp
      moreover have "\<not> prefix old (py_replace s old ''***'')"
        using prefix_of_replaced [OF assms(1)] False Cons by (auto simp: startswith_def)
      moreover have "py_replace s old ''***'' = c # py_replace cs old ''***''"
        using False Cons by (simp add: py_replace_Cons)
      ultimately show ?thesis by (auto simp: contains_def sublist_Cons_right)
    qed
  qed
qed

lemma redact_hides:
  assumes "CHR ''*'' \<notin> set token" "token \<noteq> []"
  shows "\<not> contains (redact token text) token"
  using replaced_is_gone [OF assms] assms(2) by (simp add: redact_def)


section \<open>Updates are handled once\<close>

definition tg_ident :: "json \<Rightarrow> int option" where
  "tg_ident u = (case jget u ''update_id'' of Inr (JInt n) \<Rightarrow> Some n | _ \<Rightarrow> None)"

definition tg_update_events :: "json \<Rightarrow> channel_event list" where
  "tg_update_events u = (case tg_parse u of Inr (Some ev) \<Rightarrow> [ev] | _ \<Rightarrow> [])"

abbreviation tg_ready :: "telegram \<Rightarrow> bool" where
  "tg_ready s \<equiv> tg_on_message s \<and> tg_running s"

lemma tg_handle_update_run:
  "tg_handle_update u s = (r, s') \<Longrightarrow> tg_on_message s \<Longrightarrow>
   s' = s\<lparr>tg_events := tg_events s @ tg_update_events u\<rparr>"
  by (cases "tg_parse u")
    (auto simp: tg_handle_update_def tg_update_events_def ebind_def eff_simps split: option.splits)

interpretation tg: long_poll tg_take_update tg_last_update_id tg_events tg_ready tg_ident tg_update_events
proof
  fix s u i r s'
  assume s: "tg_ready s" and i: "tg_ident u = Some i" "tg_last_update_id s < i" and run: "tg_take_update u s = (r, s')"
  have "tg_next_id (tg_last_update_id s) u = Ok i"
    using i by (cases u)
      (auto simp: tg_next_id_def tg_ident_def split: option.splits json.splits)
  then have "tg_handle_update u (s\<lparr>tg_last_update_id := i\<rparr>) = (r, s')"
    using run by (simp add: tg_take_update_def ebind_def eseq_def eff_simps)
  from tg_handle_update_run [OF this] s
  show "tg_ready s' \<and> tg_last_update_id s' = i \<and> tg_events s' = tg_events s @ tg_update_events u" by simp
qed

text \<open>
  What \<open>getUpdates\<close> documents: a list of waiting updates from the offset on, oldest first. Any
  request may fail, be refused, or be answered with as few of them as the server likes.
\<close>

definition tg_server :: "json list \<Rightarrow> net \<Rightarrow> bool" where
  "tg_server q net \<longleftrightarrow> (\<forall>n rq o' rs d v. dict_get (rq_params rq) ''offset'' = Some (JInt o') \<longrightarrow> net n rq = Ok rs \<longrightarrow>
     rs_status rs = 200 \<longrightarrow> rs_json rs = Ok d \<longrightarrow> jget d ''ok'' = Ok v \<longrightarrow> truthy v \<longrightarrow>
     (\<exists>m. jget d ''result'' = Ok (JList (take m (filter (\<lambda>u. o' \<le> the (tg_ident u)) q)))))"

definition tg_generous :: "json list \<Rightarrow> net \<Rightarrow> bool" where
  "tg_generous q net \<longleftrightarrow> (\<forall>n rq o'. dict_get (rq_params rq) ''offset'' = Some (JInt o') \<longrightarrow>
     filter (\<lambda>u. o' \<le> the (tg_ident u)) q \<noteq> [] \<longrightarrow>
     (\<exists>rs d us. net n rq = Ok rs \<and> rs_status rs = 200 \<and> rs_json rs = Ok d \<and> jget d ''ok'' = Ok (JBool True) \<and>
        jget d ''result'' = Ok (JList us) \<and> us \<noteq> []))"

lemma tg_poll_request_offset [simp]:
  "dict_get (rq_params (tg_poll_request s)) ''offset'' = Some (JInt (tg_last_update_id s + 1))"
  by (simp add: tg_poll_request_def dict_get_def)

lemma pending_offset: "pending tg_ident q p = filter (\<lambda>u. p + 1 \<le> the (tg_ident u)) q"
  by (simp add: pending_def add1_zle_eq)

lemma jget_or_list: "jget d k = Ok (JList us) \<Longrightarrow> jget_or d k x = Ok (JList us)"
  by (cases d) (auto split: option.splits)

lemma tg_serves:
  assumes "tg_server q net"
  shows "tg.serves q (tg_fetch net)"
  unfolding tg.serves_def
proof (intro allI impI)
  fix s r s'
  assume s: "tg_ready s" and run: "tg_fetch net s = (r, s')"
  let ?rq = "tg_poll_request s"
  have s': "s' = s\<lparr>hc_sent := hc_sent s @ [?rq]\<rparr>"
    using run by (auto simp: tg_fetch_def http_def ebind_def eff_simps split: sum.splits if_split_asm)
  have "\<exists>m. us = take m (pending tg_ident q (tg_last_update_id s))" if us: "r = Ok us" for us
  proof -
    consider "us = []" | rs d v l where "net (length (hc_sent s)) ?rq = Ok rs" "rs_status rs = 200" "rs_json rs = Ok d"
      "jget d ''ok'' = Ok v" "truthy v" "jget_or d ''result'' (JList []) = Ok l" "jiter l = Ok us"
      using run us by (auto simp: tg_fetch_def http_def ebind_def eff_simps split: sum.splits if_split_asm)
    then show ?thesis
    proof cases
      case 2
      with assms obtain m where "jget d ''result'' = Ok (JList (take m (filter (\<lambda>u. tg_last_update_id s + 1 \<le> the (tg_ident u)) q)))"
        unfolding tg_server_def using tg_poll_request_offset by blast
      with 2 jget_or_list show ?thesis by (fastforce simp: pending_offset)
    qed (auto intro: exI [of _ 0])
  qed
  with s s' show "tg_ready s' \<and> tg_last_update_id s' = tg_last_update_id s \<and> tg_events s' = tg_events s \<and>
      (\<forall>us. r = Ok us \<longrightarrow> (\<exists>m. us = take m (pending tg_ident q (tg_last_update_id s))))" by simp
qed

lemma tg_serves_generously:
  assumes "tg_generous q net"
  shows "tg.generous q (tg_fetch net)"
  unfolding tg.generous_def
proof (intro allI impI)
  fix s assume "tg_ready s" "pending tg_ident q (tg_last_update_id s) \<noteq> []"
  then obtain rs d us where "net (length (hc_sent s)) (tg_poll_request s) = Ok rs" "rs_status rs = 200" "rs_json rs = Ok d"
      "jget d ''ok'' = Ok (JBool True)" "jget d ''result'' = Ok (JList us)" "us \<noteq> []"
    using assms unfolding tg_generous_def pending_offset by (meson tg_poll_request_offset)
  then show "\<exists>us. fst (tg_fetch net s) = Ok us \<and> us \<noteq> []"
    by (simp add: tg_fetch_def http_def ebind_def eff_simps jget_or_list)
qed

text \<open>
  Property C7. Every Telegram update is handled exactly once, in order, and none blocks the others:
  whatever the requests of the polling loop meet (errors, refusals, partial answers), and however
  malformed an update is, what has been handed to the router after any number of rounds are
  the events of the first \<open>k\<close> updates; and when every request with updates waiting is
  answered by at least one of them, \<open>n\<close> rounds handle at least \<open>n\<close> updates, until none is left.
\<close>

theorem telegram_updates_handled_once:
  assumes "tg_server q net" "queued tg_ident q" "\<forall>u \<in> set q. 0 < the (tg_ident u)"
    and s: "tg_running s" "tg_on_message s" "tg_last_update_id s = 0" "tg_events s = []"
    and run: "tg_polls n net s = (r, s')"
  shows "\<exists>k \<le> length q. tg_events s' = concat (map tg_update_events (take k q)) \<and>
    filter (\<lambda>u. tg_last_update_id s' < the (tg_ident u)) q = drop k q \<and>
    (tg_generous q net \<longrightarrow> min n (length q) \<le> k)"
proof -
  have "pending tg_ident q 0 = q" using assms(3) by (simp add: pending_def)
  then have start: "tg.in_step q 0 s" using s by (simp add: tg.in_step_def)
  obtain k where k: "0 \<le> k" "tg.in_step q k s'" "tg.generous q (tg_fetch net) \<longrightarrow> min (0 + n) (length q) \<le> k"
    by (rule tg.rounds_in_step [where loop = "\<lambda>n. tg_polls n net", OF assms(2) tg_serves [OF assms(1)] _ _ start run])
      (auto simp: eff_simps ebind_def tg.poll_def tg_poll_def)
  then show ?thesis using tg_serves_generously [of q net] by (auto simp: tg.in_step_def pending_def)
qed

definition toy_updates :: "json list" where
  "toy_updates =
    [JObj [(''update_id'', JInt 7), (''message'', JObj [(''from'', JObj [(''id'', JInt 5)]), (''chat'', JObj [(''id'', JInt 5)]),
       (''text'', JStr ''hi''), (''message_id'', JInt 1)])],
     JObj [(''update_id'', JInt 8), (''message'', JObj [(''document'', JObj [(''name'', JStr ''x'')])])],
     JObj [(''update_id'', JInt 9), (''channel_post'', JObj [(''chat'', JObj [(''id'', JInt (-3))]), (''caption'', JStr ''see''),
       (''photo'', JList [JObj [(''file_id'', JStr ''s'')], JObj [(''file_id'', JStr ''l'')]]), (''message_id'', JInt 2)])]]"

definition toy_telegram_net :: net where
  "toy_telegram_net n rq =
     (case dict_get (rq_params rq) ''offset'' of
        Some (JInt o') \<Rightarrow> Ok \<lparr>rs_status = 200, rs_json = Ok (JObj [(''ok'', JBool True),
          (''result'', JList (take 2 (filter (\<lambda>u. o' \<le> the (tg_ident u)) toy_updates)))]), rs_message = []\<rparr>
      | _ \<Rightarrow> Raise (HTTPError ''no route''))"

text \<open>The second update is malformed; the message before it and the photo after it arrive.\<close>

theorem telegram_updates_handled_once_witness:
  "map ev_text (tg_events (snd (tg_polls 3 toy_telegram_net
     ((new_telegram ''1:T'' ''https://api.telegram.org'')\<lparr>tg_running := True, tg_on_message := True\<rparr>)))) = [''hi'', ''see'']"
proof -
  let ?s = "(new_telegram ''1:T'' ''https://api.telegram.org'')\<lparr>tg_running := True, tg_on_message := True\<rparr>"
  have srv: "tg_server toy_updates toy_telegram_net"
    by (auto simp: tg_server_def toy_telegram_net_def dict_get_def intro: exI [of _ 2])
  have gen: "tg_generous toy_updates toy_telegram_net"
    by (auto simp: tg_generous_def toy_telegram_net_def dict_get_def)
  have q: "queued tg_ident toy_updates" "list_all (\<lambda>u. 0 < the (tg_ident u)) toy_updates"
    "map ev_text (concat (map tg_update_events toy_updates)) = [''hi'', ''see'']" by (atomize (full), code_simp)
  have "length toy_updates = 3" by (simp add: toy_updates_def)
  with telegram_updates_handled_once [OF srv q(1) _ _ _ _ _ prod.collapse [symmetric], of ?s 3] gen q(2)
  have "tg_events (snd (tg_polls 3 toy_telegram_net ?s)) = concat (map tg_update_events toy_updates)"
    by (auto simp: new_telegram_def list_all_iff)
  with q(3) show ?thesis by simp
qed


section \<open>The contract\<close>

definition telegram_ops :: "net \<Rightarrow> local_files \<Rightarrow> telegram chat_ops" where
  "telegram_ops net disk_files = \<lparr>co_send_reply = tg_send_reply net, co_update_reply = tg_update_reply net,
     co_send_typing = tg_send_typing net,
     co_send_post_with_files = (\<lambda>ch m fs rid. tg_send_post_with_files net disk_files ch m fs rid []),
     co_get_or_create_dm_channel = tg_get_or_create_dm_channel\<rparr>"

text \<open>Every request goes below the Bot API's address for the token.\<close>

definition below_url :: "string \<Rightarrow> http_request \<Rightarrow> bool" where
  "below_url url rq \<longleftrightarrow> startswith (rq_url rq) (url @ ''/'') \<and> rq_headers rq = []"

interpretation telegram_requests: own_requests "below_url url" "\<lambda>s :: telegram. tg_api_url s = url" for url
  by unfold_locales simp

lemma keeps_tg_send_document:
  "telegram_requests.keeps url (tg_send_document net disk_files ch caption item rid)"
proof -
  have own: "below_url (tg_api_url s) (tg_post ''/sendDocument'' body s)"
    "below_url (tg_api_url s) ((tg_post ''/sendDocument'' body s)\<lparr>rq_files := fs\<rparr>)" for s body fs
    by (simp_all add: below_url_def tg_post_def post_request_def startswith_iff)
  have get: "telegram_requests.keeps url (ebind (eget f) g)"
    if "\<And>s. tg_api_url s = url \<Longrightarrow> telegram_requests.keeps url (g (f s))" for f and g :: "http_request \<Rightarrow> 'x tg"
    using that by (rule telegram_requests.keeps_get)
  show ?thesis unfolding tg_send_document_def
    by (cases "disk_files item")
      (auto simp: ebind_assoc intro!: telegram_requests.keeps_bind get telegram_requests.keeps_seq
        telegram_requests.keeps_http own)
qed

lemma keeps_tg_files: "telegram_requests.keeps url (tg_send_post_with_files net disk_files ch m fs rid i)"
  by (induction fs arbitrary: m i) (auto intro!: telegram_requests.keeps_bind keeps_tg_send_document)

interpretation telegram: chat_adapter "below_url url" "\<lambda>s. tg_api_url s = url" "telegram_ops net disk_files"
  for url net disk_files
proof unfold_locales
  note get = telegram_requests.keeps_get [of url, simplified]
  have own: "tg_api_url s = url \<Longrightarrow> below_url url (tg_post (CHR ''/'' # api_method) body s)" for s api_method body
    by (simp add: below_url_def tg_post_def startswith_iff)
  fix ch m rid p u e r fs and s s' :: telegram
  show "telegram_requests.keeps url (co_send_reply (telegram_ops net disk_files) ch m rid)"
    unfolding telegram_ops_def chat_ops.select_convs tg_send_reply_def
    by (intro get telegram_requests.keeps_rules telegram_requests.keeps_http own)
  show "telegram_requests.keeps url (co_update_reply (telegram_ops net disk_files) p m ch)"
    unfolding telegram_ops_def chat_ops.select_convs tg_update_reply_def
    by (intro get telegram_requests.keeps_rules telegram_requests.keeps_http own)
  show "telegram_requests.keeps url (co_send_typing (telegram_ops net disk_files) ch rid)"
    unfolding telegram_ops_def chat_ops.select_convs tg_send_typing_def
    by (intro get telegram_requests.keeps_rules telegram_requests.keeps_http own)
  show "telegram_requests.keeps url (co_send_post_with_files (telegram_ops net disk_files) ch m fs rid)"
    by (simp add: telegram_ops_def keeps_tg_files)
  show "telegram_requests.keeps url (co_get_or_create_dm_channel (telegram_ops net disk_files) u)"
    by (simp add: telegram_ops_def tg_get_or_create_dm_channel_def)
  show "co_update_reply (telegram_ops net disk_files) [] m ch s = (Ok (), s)"
    by (simp add: telegram_ops_def tg_update_reply_def eret_def)
  show "tg_api_url s = url \<Longrightarrow> co_update_reply (telegram_ops net disk_files) p m ch s = (Inl e, s') \<Longrightarrow> \<not> is_http_error e"
    by (auto simp: telegram_ops_def tg_update_reply_def ebind_def ecatch_def eff_simps
        split: if_split_asm prod.splits sum.splits)
  show "tg_api_url s = url \<Longrightarrow> co_send_typing (telegram_ops net disk_files) ch rid s = (r, s') \<Longrightarrow> r = Ok ()"
    by (auto simp: telegram_ops_def tg_send_typing_def ebind_def etry_def ecatch_def eff_simps
        split: prod.splits sum.splits)
qed

text \<open>
  Property C17. The bot token stays out of error texts: whatever the platform's client puts into its
  exceptions (\<open>httpx\<close> quotes the URL, which holds the token), no HTTP error that \<open>send_reply\<close> raises to the
  router, which logs it and may show it to the user, contains the token; failing updates raise no
  HTTP error at all.
\<close>

theorem telegram_errors_hide_token:
  assumes "tg_token s \<noteq> []" "CHR ''*'' \<notin> set (tg_token s)"
  shows "(case fst (tg_send_reply net ch m rid s) of Inl e \<Rightarrow> is_http_error e \<longrightarrow> \<not> contains (error_text e) (tg_token s)
      | Inr i \<Rightarrow> True) \<and>
    (case fst (tg_update_reply net p m ch s) of Inl e \<Rightarrow> \<not> is_http_error e | Inr u \<Rightarrow> True)"
proof
  show "case fst (tg_send_reply net ch m rid s) of Inl e \<Rightarrow> is_http_error e \<longrightarrow> \<not> contains (error_text e) (tg_token s)
      | Inr i \<Rightarrow> True"
    using redact_hides [OF assms(2,1)]
    by (auto simp: tg_send_reply_def ebind_def eseq_def ecatch_def eff_simps split: prod.splits sum.splits)
  show "case fst (tg_update_reply net p m ch s) of Inl e \<Rightarrow> \<not> is_http_error e | Inr u \<Rightarrow> True"
    using telegram.quiet_update [of s "tg_api_url s" net _ p m ch]
    by (cases "tg_update_reply net p m ch s") (auto simp: telegram_ops_def split: sum.split)
qed

definition leaky_net :: net where
  "leaky_net n rq = Ok \<lparr>rs_status = 403, rs_json = Ok JNull, rs_message = ''Client error 403 for url '' @ rq_url rq\<rparr>"

theorem telegram_errors_hide_token_witness:
  "\<exists>e. fst (tg_send_reply leaky_net ''5'' ''hi'' '''' (new_telegram ''1:T'' ''https://api.telegram.org/'')) = Inl e \<and>
     is_http_error e \<and> \<not> contains (error_text e) ''1:T''"
proof -
  let ?s = "new_telegram ''1:T'' ''https://api.telegram.org/''"
  have t: "tg_token ?s = ''1:T''" by (simp add: new_telegram_def)
  have "case fst (tg_send_reply leaky_net ''5'' ''hi'' '''' ?s) of Inl e \<Rightarrow> is_http_error e | Inr i \<Rightarrow> False" by code_simp
  then obtain e where "fst (tg_send_reply leaky_net ''5'' ''hi'' '''' ?s) = Inl e" "is_http_error e"
    by (auto split: sum.splits)
  with telegram_errors_hide_token [of ?s leaky_net "''5''" "''hi''" "''''"] t show ?thesis by auto
qed


end
