(* ===== verification/VkTeams.thy ===== *)
theory VkTeams
  imports Polling Adapters
begin

text \<open>
  The VK Teams adapter (\<open>src/services/vk_teams.py\<close>): login, the long-polling loop over events, the
  translation of an event, and the outgoing calls, which pass the token as a query parameter.
\<close>

section \<open>State\<close>

record vk_teams = http_client +
  vk_token :: string
  vk_api_url :: string
  vk_running :: bool
  vk_listening :: bool
  vk_closed :: bool
  vk_last_event_id :: json
  vk_bot_user_id :: string
  vk_on_message :: bool
  vk_events :: "channel_event list"

type_synonym 'a vk = "(vk_teams, 'a) eff"

definition new_vk_teams :: "string \<Rightarrow> string \<Rightarrow> vk_teams" where
  "new_vk_teams bot_token api_url = \<lparr>hc_sent = [], vk_token = py_strip bot_token,
     vk_api_url = rstrip_by (\<lambda>c. c = CHR ''/'') api_url, vk_running = False, vk_listening = False,
     vk_closed = False, vk_last_event_id = JInt 0, vk_bot_user_id = [], vk_on_message = False, vk_events = []\<rparr>"

definition vk_is_connected :: "vk_teams \<Rightarrow> bool" where
  "vk_is_connected s \<longleftrightarrow> vk_running s \<and> vk_bot_user_id s \<noteq> []"

text \<open>A request with the token before its other parameters.\<close>

definition vk_get :: "string \<Rightarrow> (string \<times> json) list \<Rightarrow> vk_teams \<Rightarrow> http_request" where
  "vk_get api_method params s = get_request (vk_api_url s @ api_method) ((''token'', JStr (vk_token s)) # params)"

definition vk_start :: "net \<Rightarrow> unit vk" where
  "vk_start net =
     eseq (emod (\<lambda>s. s\<lparr>vk_on_message := True, vk_running := True\<rparr>))
    (ebind (eget (vk_get ''/self/get'' [])) (\<lambda>rq.
     ebind (http_json net rq) (\<lambda>data.
     ebind (elift (jget data ''ok'')) (\<lambda>ok.
     if \<not> truthy ok then
       ebind (elift (jget data ''description'')) (\<lambda>d.
       eraise (PyRuntimeError (''VK Teams self/get failed: '' @ py_str d)))
     else
       ebind (elift (jget data ''userId'')) (\<lambda>u1.
       ebind (elift (jget_or data ''userId'' jempty)) (\<lambda>u2.
       emod (\<lambda>s. s\<lparr>vk_bot_user_id := py_str (jor u1 u2), vk_listening := True\<rparr>)))))))"

definition vk_stop :: "unit vk" where
  "vk_stop = emod (\<lambda>s. s\<lparr>vk_running := False, vk_listening := False, vk_closed := True\<rparr>)"

section \<open>Events\<close>

definition text_of :: "json \<Rightarrow> string" where
  "text_of j = py_str (jor j jempty)"

definition vk_file_id :: "json \<Rightarrow> string list result" where
  "vk_file_id p =
     bind_result (jget p ''type'') (\<lambda>t.
     if t = JStr ''file'' then
       bind_result (jget_or p ''payload'' (JObj [])) (\<lambda>pl.
       bind_result (jget pl ''fileId'') (\<lambda>f. Ok [py_str f]))
     else Ok [])"

text \<open>The last reply or forward part names the thread.\<close>

fun vk_root_id :: "json list \<Rightarrow> string \<Rightarrow> string result" where
  "vk_root_id [] root_id = Ok root_id"
| "vk_root_id (p # ps) root_id =
     bind_result (jget p ''type'') (\<lambda>t.
     if t = JStr ''reply'' \<or> t = JStr ''forward'' then
       bind_result (jget_or p ''payload'' (JObj [])) (\<lambda>pl.
       bind_result (jget_or pl ''message'' (JObj [])) (\<lambda>m.
       bind_result (jget m ''msgId'') (\<lambda>i. vk_root_id ps (text_of i))))
     else vk_root_id ps root_id)"

definition vk_parse :: "string \<Rightarrow> json \<Rightarrow> channel_event option result" where
  "vk_parse bot_id event_data =
     bind_result (jget event_data ''type'') (\<lambda>ev_type.
     bind_result (jget_or event_data ''payload'' (JObj [])) (\<lambda>payload.
     if ev_type \<noteq> JStr ''newMessage'' then Ok None
     else
       bind_result (jget_or payload ''from'' (JObj [])) (\<lambda>from_user.
       bind_result (jget from_user ''userId'') (\<lambda>uid.
       bind_result (jget_or payload ''chat'' (JObj [])) (\<lambda>chat.
       bind_result (jget chat ''chatId'') (\<lambda>cid.
       bind_result (jget payload ''msgId'') (\<lambda>mid.
       bind_result (jget payload ''text'') (\<lambda>t.
       let sender_id = text_of uid in
       if sender_id \<noteq> [] \<and> sender_id = bot_id then Ok None
       else
         bind_result (jget_or payload ''parts'' (JList [])) (\<lambda>parts0.
         bind_result (jiter parts0) (\<lambda>parts.
         bind_result (rmap vk_file_id parts) (\<lambda>fss.
         bind_result (vk_root_id parts []) (\<lambda>root_id.
         Ok (Some \<lparr>ev_user_id = sender_id, ev_channel_id = py_str (jor cid (JStr sender_id)),
           ev_text = py_strip (text_of t), ev_post_id = text_of mid, ev_file_ids = concat fss,
           ev_provider = ''vk_teams'', ev_root_id = root_id\<rparr>)))))))))))))"

definition vk_handle_event :: "json \<Rightarrow> unit vk" where
  "vk_handle_event event_data =
     ebind (eget vk_bot_user_id) (\<lambda>bot_id.
     ebind (elift (vk_parse bot_id event_data)) (\<lambda>event_opt.
     case event_opt of
       None \<Rightarrow> eret ()
     | Some ev \<Rightarrow> emod (\<lambda>s. if vk_on_message s then s\<lparr>vk_events := vk_events s @ [ev]\<rparr> else s)))"

definition vk_take_event :: "json \<Rightarrow> unit vk" where
  "vk_take_event ev =
     ebind (eget (\<lambda>s. jget_or ev ''eventId'' (vk_last_event_id s))) (\<lambda>r.
     ebind (elift r) (\<lambda>i.
     eseq (emod (\<lambda>s. s\<lparr>vk_last_event_id := i\<rparr>)) (vk_handle_event ev)))"

definition vk_poll_request :: "vk_teams \<Rightarrow> http_request" where
  "vk_poll_request s = vk_get ''/events/get'' [(''lastEventId'', vk_last_event_id s), (''pollTime'', JInt 25)] s"

definition vk_fetch :: "net \<Rightarrow> json list vk" where
  "vk_fetch net =
     ebind (eget vk_poll_request) (\<lambda>rq.
     ebind (http net rq) (\<lambda>rs.
     if rs_status rs \<noteq> 200 then eret []
     else ebind (elift (rs_json rs)) (\<lambda>data.
       ebind (elift (jget_or data ''events'' (JList []))) (\<lambda>events. elift (jiter events)))))"

definition vk_poll :: "net \<Rightarrow> unit vk" where
  "vk_poll net = etry (ebind (vk_fetch net) (efor vk_take_event)) (\<lambda>_. eret ())"

fun vk_polls :: "nat \<Rightarrow> net \<Rightarrow> unit vk" where
  "vk_polls 0 net = eret ()"
| "vk_polls (Suc n) net = ebind (eget vk_running) (\<lambda>running.
     if running then eseq (vk_poll net) (vk_polls n net) else eret ())"

section \<open>Outgoing calls\<close>

definition vk_send_reply :: "net \<Rightarrow> string \<Rightarrow> string \<Rightarrow> string \<Rightarrow> string vk" where
  "vk_send_reply net channel_id message root_id =
     ebind (eget (vk_get ''/messages/sendText'' ([(''chatId'', JStr channel_id), (''text'', JStr message)] @
       (if root_id \<noteq> [] then [(''replyMsgId'', JStr root_id)] else [])))) (\<lambda>rq.
     etry
       (ebind (http_json net rq) (\<lambda>data.
        ebind (elift (jget data ''ok'')) (\<lambda>ok.
        if \<not> truthy ok then ebind (elift (jget data ''description'')) (\<lambda>_. eret [])
        else ebind (elift (jget_or data ''msgId'' jempty)) (\<lambda>i. eret (py_str i)))))
       (\<lambda>_. eret []))"

definition vk_update_reply :: "net \<Rightarrow> string \<Rightarrow> string \<Rightarrow> string \<Rightarrow> unit vk" where
  "vk_update_reply net post_id message channel_id =
     (if post_id = [] \<or> channel_id = [] then eret ()
      else
        ebind (eget (vk_get ''/messages/editText''
          [(''chatId'', JStr channel_id), (''msgId'', JStr post_id), (''text'', JStr message)])) (\<lambda>rq.
        etry (http_done net rq) (\<lambda>_. eret ())))"

definition vk_send_typing :: "net \<Rightarrow> string \<Rightarrow> string \<Rightarrow> unit vk" where
  "vk_send_typing net channel_id parent_id =
     ebind (eget (vk_get ''/chats/actionsSend'' [(''chatId'', JStr channel_id), (''style'', JStr ''typing'')])) (\<lambda>rq.
     etry (ebind (http net rq) (\<lambda>_. eret ())) (\<lambda>_. eret ()))"

definition vk_send_post_with_files :: "net \<Rightarrow> string \<Rightarrow> string \<Rightarrow> string list \<Rightarrow> string \<Rightarrow> string vk" where
  "vk_send_post_with_files net channel_id message fs root_id =
     vk_send_reply net channel_id (text_with_files message fs) root_id"

definition vk_get_or_create_dm_channel :: "string \<Rightarrow> string vk" where
  "vk_get_or_create_dm_channel user_id = eret user_id"

definition vk_teams_ops :: "net \<Rightarrow> vk_teams chat_ops" where
  "vk_teams_ops net = \<lparr>co_send_reply = vk_send_reply net, co_update_reply = vk_update_reply net,
     co_send_typing = vk_send_typing net, co_send_post_with_files = vk_send_post_with_files net,
     co_get_or_create_dm_channel = vk_get_or_create_dm_channel\<rparr>"

section \<open>Contracts\<close>

definition vk_ident :: "json \<Rightarrow> int option" where
  "vk_ident u = (case jget u ''eventId'' of Inr (JInt n) \<Rightarrow> Some n | _ \<Rightarrow> None)"

definition vk_update_events :: "string \<Rightarrow> json \<Rightarrow> channel_event list" where
  "vk_update_events bot_id u = (case vk_parse bot_id u of Inr (Some ev) \<Rightarrow> [ev] | _ \<Rightarrow> [])"

definition vk_position :: "vk_teams \<Rightarrow> int" where
  "vk_position s = (case vk_last_event_id s of JInt n \<Rightarrow> n | _ \<Rightarrow> 0)"

abbreviation vk_ready :: "string \<Rightarrow> vk_teams \<Rightarrow> bool" where
  "vk_ready bot_id s \<equiv> vk_on_message s \<and> vk_running s \<and> vk_bot_user_id s = bot_id \<and> (\<exists>n. vk_last_event_id s = JInt n)"

lemma vk_handle_event_run:
  "vk_handle_event u s = (r, s') \<Longrightarrow> vk_on_message s \<Longrightarrow>
   s' = s\<lparr>vk_events := vk_events s @ vk_update_events (vk_bot_user_id s) u\<rparr>"
  by (cases "vk_parse (vk_bot_user_id s) u")
    (auto simp: vk_handle_event_def vk_update_events_def ebind_def eff_simps split: option.splits)

interpretation vk: long_poll vk_take_event vk_position vk_events "vk_ready bot_id" vk_ident "vk_update_events bot_id" for bot_id
proof
  fix s u i r s'
  assume s: "vk_ready bot_id s" and i: "vk_ident u = Some i" and run: "vk_take_event u s = (r, s')"
  have "jget_or u ''eventId'' (vk_last_event_id s) = Ok (JInt i)"
    using i by (cases u) (auto simp: vk_ident_def split: option.splits json.splits)
  then have "vk_handle_event u (s\<lparr>vk_last_event_id := JInt i\<rparr>) = (r, s')"
    using run by (simp add: vk_take_event_def ebind_def eseq_def eff_simps)
  from vk_handle_event_run [OF this] s
  show "vk_ready bot_id s' \<and> vk_position s' = i \<and> vk_events s' = vk_events s @ vk_update_events bot_id u"
    by (simp add: vk_position_def)
qed

text \<open>Requests stay below the API's address and take no headers.\<close>

definition vk_own :: "string \<Rightarrow> http_request \<Rightarrow> bool" where
  "vk_own url rq \<longleftrightarrow> startswith (rq_url rq) (url @ ''/'') \<and> rq_headers rq = []"

interpretation vk_requests: own_requests "vk_own url" "\<lambda>s :: vk_teams. vk_api_url s = url" for url
  by unfold_locales simp

lemma vk_own_get: "vk_api_url s = url \<Longrightarrow> vk_own url (vk_get (CHR ''/'' # api_method) ps s)"
  by (simp add: vk_own_def vk_get_def startswith_iff)

lemma keeps_vk_send_reply: "vk_requests.keeps url (vk_send_reply net ch m rid)"
  unfolding vk_send_reply_def
  by (intro vk_requests.keeps_get vk_requests.keeps_rules vk_requests.keeps_requests vk_own_get)

interpretation vk_teams: chat_adapter "vk_own url" "\<lambda>s. vk_api_url s = url" "vk_teams_ops net" for url net
proof unfold_locales
  fix ch m rid p u e r fs and s s' :: vk_teams
  show "vk_requests.keeps url (co_send_reply (vk_teams_ops net) ch m rid)"
    "vk_requests.keeps url (co_send_post_with_files (vk_teams_ops net) ch m fs rid)"
    by (simp_all add: vk_teams_ops_def keeps_vk_send_reply vk_send_post_with_files_def)
  show "vk_requests.keeps url (co_update_reply (vk_teams_ops net) p m ch)"
    unfolding vk_teams_ops_def chat_ops.select_convs vk_update_reply_def
    by (intro vk_requests.keeps_get vk_requests.keeps_rules vk_requests.keeps_requests vk_own_get)
  show "vk_requests.keeps url (co_send_typing (vk_teams_ops net) ch rid)"
    unfolding vk_teams_ops_def chat_ops.select_convs vk_send_typing_def
    by (intro vk_requests.keeps_get vk_requests.keeps_rules vk_requests.keeps_requests vk_own_get)
  show "vk_requests.keeps url (co_get_or_create_dm_channel (vk_teams_ops net) u)"
    by (simp add: vk_teams_ops_def vk_get_or_create_dm_channel_def)
  show "co_update_reply (vk_teams_ops net) [] m ch s = (Ok (), s)"
    by (simp add: vk_teams_ops_def vk_update_reply_def eret_def)
  show "co_update_reply (vk_teams_ops net) p m ch s = (Inl e, s') \<Longrightarrow> \<not> is_http_error e"
    by (auto simp: vk_teams_ops_def vk_update_reply_def ebind_def etry_def ecatch_def eff_simps
        split: if_split_asm prod.splits sum.splits)
  show "co_send_typing (vk_teams_ops net) ch rid s = (r, s') \<Longrightarrow> r = Ok ()"
    by (auto simp: vk_teams_ops_def vk_send_typing_def ebind_def etry_def ecatch_def eff_simps
        split: prod.splits sum.splits)
qed

section \<open>Events are handled once\<close>

text \<open>What \<open>events/get\<close> documents: a list of events after the last one named, oldest first.\<close>

definition vk_server :: "json list \<Rightarrow> net \<Rightarrow> bool" where
  "vk_server q net \<longleftrightarrow> (\<forall>n rq p rs d. dict_get (rq_params rq) ''lastEventId'' = Some (JInt p) \<longrightarrow> net n rq = Ok rs \<longrightarrow>
     rs_status rs = 200 \<longrightarrow> rs_json rs = Ok d \<longrightarrow> is_obj d \<longrightarrow>
     (\<exists>m. jget d ''events'' = Ok (JList (take m (pending vk_ident q p)))))"

lemma vk_poll_request_position [simp]:
  "dict_get (rq_params (vk_poll_request s)) ''lastEventId'' = Some (vk_last_event_id s)"
  by (simp add: vk_poll_request_def vk_get_def dict_get_def)

lemma vk_serves:
  assumes "vk_server q net"
  shows "vk.serves bot_id q (vk_fetch net)"
  unfolding vk.serves_def
proof (intro allI impI)
  fix s r s'
  assume s: "vk_ready bot_id s" and run: "vk_fetch net s = (r, s')"
  let ?rq = "vk_poll_request s"
  have s': "s' = s\<lparr>hc_sent := hc_sent s @ [?rq]\<rparr>"
    using run by (auto simp: vk_fetch_def http_def ebind_def eff_simps split: sum.splits if_split_asm)
  have "\<exists>m. us = take m (pending vk_ident q (vk_position s))" if us: "r = Ok us" for us
  proof -
    consider "us = []" | rs d l where "net (length (hc_sent s)) ?rq = Ok rs" "rs_status rs = 200" "rs_json rs = Ok d"
      "jget_or d ''events'' (JList []) = Ok l" "jiter l = Ok us"
      using run us by (auto simp: vk_fetch_def http_def ebind_def eff_simps split: sum.splits if_split_asm)
    then show ?thesis
    proof cases
      case 2
      then have "is_obj d" by (cases d) auto
      moreover have "vk_last_event_id s = JInt (vk_position s)" using s by (auto simp: vk_position_def)
      ultimately obtain m where "jget d ''events'' = Ok (JList (take m (pending vk_ident q (vk_position s))))"
        using assms 2 unfolding vk_server_def by (metis vk_poll_request_position)
      with 2 show ?thesis by (cases d) (auto split: option.splits)
    qed (auto intro: exI [of _ 0])
  qed
  with s s' show "vk_ready bot_id s' \<and> vk_position s' = vk_position s \<and> vk_events s' = vk_events s \<and>
      (\<forall>us. r = Ok us \<longrightarrow> (\<exists>m. us = take m (pending vk_ident q (vk_position s))))" by (auto simp: vk_position_def)
qed

text \<open>In order, each once, whatever fails: the same contract as for Telegram.\<close>

lemma vk_events_handled_once:
  assumes "vk_server q net" "queued vk_ident q" "\<forall>u \<in> set q. 0 < the (vk_ident u)"
    and s: "vk_ready bot_id s" "vk_last_event_id s = JInt 0" "vk_events s = []"
    and run: "vk_polls n net s = (r, s')"
  obtains k where "k \<le> length q" "vk_events s' = concat (map (vk_update_events bot_id) (take k q))"
    "pending vk_ident q (vk_position s') = drop k q"
proof -
  have "pending vk_ident q 0 = q" using assms(3) by (simp add: pending_def)
  then have start: "vk.in_step bot_id q 0 s" using s by (simp add: vk.in_step_def vk_position_def)
  obtain k where "0 \<le> k" "vk.in_step bot_id q k s'"
    by (rule vk.rounds_in_step [where loop = "\<lambda>n. vk_polls n net", OF assms(2) vk_serves [OF assms(1)] _ _ start run])
      (auto simp: eff_simps ebind_def vk.poll_def vk_poll_def)
  then show thesis by (intro that [of k]) (auto simp: vk.in_step_def)
qed


end
