(* ===== verification/Slack.thy ===== *)
theory Slack
  imports Adapters
begin

text \<open>
  The Slack adapter (\<open>src/services/slack.py\<close>): login, Socket Mode (rounds of a websocket whose frames are
  acknowledged and turned into events), and the Web API calls. The bot token travels in the header
  the client adds to every request; the app token only in the request for a socket address.
\<close>

section \<open>State\<close>

record slack = http_client +
  sl_bot_token :: string
  sl_app_token :: string
  sl_api_url :: string
  sl_running :: bool
  sl_listening :: bool
  sl_closed :: bool
  sl_ws_connected :: bool
  sl_bot_user_id :: json
  sl_on_message :: bool
  sl_events :: "channel_event list"
  sl_acks :: "json list"
  sl_delay :: rat

type_synonym 'a sl = "(slack, 'a) eff"

definition new_slack :: "string \<Rightarrow> string \<Rightarrow> string \<Rightarrow> slack" where
  "new_slack bot_token app_token api_url = \<lparr>hc_sent = [], sl_bot_token = py_strip bot_token,
     sl_app_token = py_strip app_token, sl_api_url = rstrip_by (\<lambda>c. c = CHR ''/'') api_url,
     sl_running = False, sl_listening = False, sl_closed = False, sl_ws_connected = False,
     sl_bot_user_id = jempty, sl_on_message = False, sl_events = [], sl_acks = [], sl_delay = 1\<rparr>"

definition sl_is_connected :: "slack \<Rightarrow> bool" where
  "sl_is_connected s \<longleftrightarrow> sl_running s \<and> sl_ws_connected s"

definition bearer :: "string \<Rightarrow> (string \<times> string) list" where
  "bearer token = [(''Authorization'', ''Bearer '' @ token)]"

definition sl_post :: "string \<Rightarrow> json \<Rightarrow> slack \<Rightarrow> http_request" where
  "sl_post api_method body s =
     with_headers (bearer (sl_bot_token s)) (post_request (sl_api_url s @ api_method) body)"

definition sl_start :: "net \<Rightarrow> unit sl" where
  "sl_start net =
     eseq (emod (\<lambda>s. s\<lparr>sl_on_message := True, sl_running := True\<rparr>))
    (ebind (eget (sl_post ''/auth.test'' JNull)) (\<lambda>rq.
     ebind (http_json net rq) (\<lambda>data.
     ebind (elift (jget data ''ok'')) (\<lambda>ok.
     if \<not> truthy ok then
       ebind (elift (jget data ''error'')) (\<lambda>d.
       eraise (PyRuntimeError (''Slack auth.test failed: '' @ py_str d)))
     else
       ebind (elift (jget_or data ''user_id'' jempty)) (\<lambda>u.
       emod (\<lambda>s. s\<lparr>sl_bot_user_id := u, sl_listening := True\<rparr>))))))"

definition sl_stop :: "unit sl" where
  "sl_stop = emod (\<lambda>s. s\<lparr>sl_running := False, sl_listening := False, sl_closed := True, sl_ws_connected := False\<rparr>)"

section \<open>Socket Mode\<close>

definition sl_get_wss_url :: "net \<Rightarrow> json sl" where
  "sl_get_wss_url net =
     ebind (eget (\<lambda>s. with_headers (bearer (sl_app_token s)) (post_request (sl_api_url s @ ''/apps.connections.open'') JNull))) (\<lambda>rq.
     ebind (http_json net rq) (\<lambda>data.
     ebind (elift (jget data ''ok'')) (\<lambda>ok.
     if \<not> truthy ok then
       ebind (elift (jget data ''error'')) (\<lambda>d.
       eraise (PyRuntimeError (''Slack apps.connections.open failed: '' @ py_str d)))
     else elift (jindex data ''url''))))"

definition sl_file_id :: "json \<Rightarrow> string list result" where
  "sl_file_id f = bind_result (jget f ''id'') (\<lambda>i. Ok (if truthy i then [jtext i] else []))"

definition sl_parse :: "json \<Rightarrow> json \<Rightarrow> channel_event option result" where
  "sl_parse bot_id payload =
     bind_result (jget_or payload ''event'' (JObj [])) (\<lambda>event.
     bind_result (jget event ''type'') (\<lambda>event_type.
     bind_result (jget event ''subtype'') (\<lambda>subtype.
     bind_result (jget event ''user'') (\<lambda>user_id.
     if subtype \<in> {JStr ''bot_message'', JStr ''message_deleted'', JStr ''message_changed''} then Ok None
     else if \<not> truthy user_id \<or> user_id = bot_id then Ok None
     else if event_type = JStr ''message'' \<or> event_type = JStr ''app_mention'' then
       bind_result (jget_or event ''channel'' jempty) (\<lambda>channel_id.
       bind_result (jget event ''text'') (\<lambda>t.
       bind_result (jstrip (jor t jempty)) (\<lambda>txt0.
       bind_result (jget_or event ''ts'' jempty) (\<lambda>ts.
       bind_result (jget event ''thread_ts'') (\<lambda>thread_ts.
       bind_result (jget_or event ''files'' (JList [])) (\<lambda>files0.
       bind_result (jiter files0) (\<lambda>fs.
       bind_result (rmap sl_file_id fs) (\<lambda>fss.
       Ok (Some \<lparr>ev_user_id = jtext user_id, ev_channel_id = jtext channel_id, ev_text = txt0,
         ev_post_id = jtext ts, ev_file_ids = concat fss, ev_provider = ''slack'',
         ev_root_id = jtext (jor thread_ts jempty)\<rparr>)))))))))
     else Ok None))))"

definition sl_handle_events_api :: "json \<Rightarrow> unit sl" where
  "sl_handle_events_api payload =
     ebind (eget sl_bot_user_id) (\<lambda>bot_id.
     ebind (elift (sl_parse bot_id payload)) (\<lambda>event_opt.
     case event_opt of
       None \<Rightarrow> eret ()
     | Some ev \<Rightarrow> emod (\<lambda>s. if sl_on_message s then s\<lparr>sl_events := sl_events s @ [ev]\<rparr> else s)))"

text \<open>
  One frame, as \<open>json.loads\<close> reads it (\<open>None\<close>: not JSON). Sending the acknowledgement can fail.
\<close>

definition sl_frame :: "(nat \<Rightarrow> unit result) \<Rightarrow> json option \<Rightarrow> unit sl" where
  "sl_frame ws_send_result frame_opt =
     (case frame_opt of
        None \<Rightarrow> eret ()
      | Some msg \<Rightarrow>
          etry
            (ebind (elift (jget msg ''envelope_id'')) (\<lambda>envelope_id.
             ebind (elift (jget msg ''type'')) (\<lambda>msg_type.
             eseq (if truthy envelope_id then
                 ebind (eget (\<lambda>s. ws_send_result (length (sl_acks s)))) (\<lambda>r.
                 eseq (elift r) (emod (\<lambda>s. s\<lparr>sl_acks := sl_acks s @ [envelope_id]\<rparr>)))
               else eret ())
            (if msg_type = JStr ''events_api'' then
               ebind (elift (jget_or msg ''payload'' (JObj []))) sl_handle_events_api
             else eret ()))))
            (\<lambda>_. eret ()))"

fun sl_frames :: "(nat \<Rightarrow> unit result) \<Rightarrow> json option list \<Rightarrow> unit sl" where
  "sl_frames wsr [] = eret ()"
| "sl_frames wsr (f # fs) = ebind (eget sl_running) (\<lambda>running.
     if running then eseq (sl_frame wsr f) (sl_frames wsr fs) else eret ())"

text \<open>
  A round: \<open>sc_opened\<close> tells whether the socket opens, \<open>sc_frames\<close> what arrives, \<open>sc_broken\<close> whether it
  ends by an error. After an error the next round starts \<open>sl_delay\<close> seconds later, and the pause
  doubles up to a minute.
\<close>

record socket =
  sc_opened :: "unit result"
  sc_frames :: "json option list"
  sc_broken :: "exn option"

definition sl_round :: "net \<Rightarrow> (nat \<Rightarrow> unit result) \<Rightarrow> (json \<Rightarrow> socket) \<Rightarrow> unit sl" where
  "sl_round net wsr open_socket =
     etry
       (ebind (sl_get_wss_url net) (\<lambda>wss_url.
        eseq (elift (sc_opened (open_socket wss_url)))
       (eseq (emod (\<lambda>s. s\<lparr>sl_ws_connected := True, sl_delay := 1\<rparr>))
       (eseq (sl_frames wsr (sc_frames (open_socket wss_url)))
         (case sc_broken (open_socket wss_url) of None \<Rightarrow> eret () | Some e \<Rightarrow> eraise e)))))
       (\<lambda>_. emod (\<lambda>s. s\<lparr>sl_ws_connected := False, sl_delay := min (sl_delay s * 2) 60\<rparr>))"

section \<open>Outgoing calls\<close>

definition sl_send_reply :: "net \<Rightarrow> string \<Rightarrow> string \<Rightarrow> string \<Rightarrow> string sl" where
  "sl_send_reply net channel_id message root_id =
     ebind (eget (sl_post ''/chat.postMessage'' (JObj ([(''channel'', JStr channel_id), (''text'', JStr message)] @
       (if root_id \<noteq> [] then [(''thread_ts'', JStr root_id)] else []))))) (\<lambda>rq.
     etry
       (ebind (http_json net rq) (\<lambda>data.
        ebind (elift (jget data ''ok'')) (\<lambda>ok.
        if \<not> truthy ok then ebind (elift (jget data ''error'')) (\<lambda>_. eret [])
        else ebind (elift (jget_or data ''ts'' jempty)) (\<lambda>i. eret (jtext i)))))
       (\<lambda>_. eret []))"

definition sl_update_reply :: "net \<Rightarrow> string \<Rightarrow> string \<Rightarrow> string \<Rightarrow> unit sl" where
  "sl_update_reply net post_id message channel_id =
     (if post_id = [] \<or> channel_id = [] then eret ()
      else
        ebind (eget (sl_post ''/chat.update''
          (JObj [(''channel'', JStr channel_id), (''ts'', JStr post_id), (''text'', JStr message)]))) (\<lambda>rq.
        etry (http_done net rq) (\<lambda>_. eret ())))"

definition sl_send_typing :: "string \<Rightarrow> string \<Rightarrow> unit sl" where
  "sl_send_typing channel_id parent_id = eret ()"

definition sl_send_post_with_files :: "net \<Rightarrow> string \<Rightarrow> string \<Rightarrow> string list \<Rightarrow> string \<Rightarrow> string sl" where
  "sl_send_post_with_files net channel_id message fs root_id =
     sl_send_reply net channel_id (text_with_files message fs) root_id"

definition sl_get_or_create_dm_channel :: "net \<Rightarrow> string \<Rightarrow> string sl" where
  "sl_get_or_create_dm_channel net user_id =
     ebind (eget (sl_post ''/conversations.open'' (JObj [(''users'', JStr user_id)]))) (\<lambda>rq.
     etry
       (ebind (http_json net rq) (\<lambda>data.
        ebind (elift (jget data ''ok'')) (\<lambda>ok.
        if truthy ok then
          ebind (elift (jget_or data ''channel'' (JObj []))) (\<lambda>ch.
          ebind (elift (jget_or ch ''id'' jempty)) (\<lambda>i. eret (jtext i)))
        else eret [])))
       (\<lambda>_. eret []))"

definition slack_ops :: "net \<Rightarrow> slack chat_ops" where
  "slack_ops net = \<lparr>co_send_reply = sl_send_reply net, co_update_reply = sl_update_reply net,
     co_send_typing = sl_send_typing, co_send_post_with_files = sl_send_post_with_files net,
     co_get_or_create_dm_channel = sl_get_or_create_dm_channel net\<rparr>"

section \<open>The contract\<close>

text \<open>The bot token goes to the Web API only.\<close>

definition sl_own :: "string \<Rightarrow> string \<Rightarrow> http_request \<Rightarrow> bool" where
  "sl_own url token rq \<longleftrightarrow> startswith (rq_url rq) (url @ ''/'') \<and> rq_headers rq = bearer token"

definition sl_config :: "string \<Rightarrow> string \<Rightarrow> slack \<Rightarrow> bool" where
  "sl_config url token s \<longleftrightarrow> sl_api_url s = url \<and> sl_bot_token s = token"

interpretation slack_requests: own_requests "sl_own url token" "sl_config url token" for url token
  by unfold_locales (simp add: sl_config_def)

lemma sl_own_post: "sl_config url token s \<Longrightarrow> sl_own url token (sl_post (CHR ''/'' # api_method) body s)"
  by (simp add: sl_own_def sl_config_def sl_post_def startswith_iff)

lemma keeps_sl_send_reply: "slack_requests.keeps url token (sl_send_reply net ch m rid)"
  unfolding sl_send_reply_def
  by (intro slack_requests.keeps_get slack_requests.keeps_rules slack_requests.keeps_requests sl_own_post)

interpretation slack: chat_adapter "sl_own url token" "sl_config url token" "slack_ops net" for url token net
proof unfold_locales
  fix ch m rid p u e r fs and s s' :: slack
  show "slack_requests.keeps url token (co_send_reply (slack_ops net) ch m rid)"
    "slack_requests.keeps url token (co_send_post_with_files (slack_ops net) ch m fs rid)"
    by (simp_all add: slack_ops_def keeps_sl_send_reply sl_send_post_with_files_def)
  show "slack_requests.keeps url token (co_update_reply (slack_ops net) p m ch)"
    unfolding slack_ops_def chat_ops.select_convs sl_update_reply_def
    by (intro slack_requests.keeps_get slack_requests.keeps_rules slack_requests.keeps_requests sl_own_post)
  show "slack_requests.keeps url token (co_get_or_create_dm_channel (slack_ops net) u)"
    unfolding slack_ops_def chat_ops.select_convs sl_get_or_create_dm_channel_def
    by (intro slack_requests.keeps_get slack_requests.keeps_rules slack_requests.keeps_requests sl_own_post)
  show "slack_requests.keeps url token (co_send_typing (slack_ops net) ch rid)"
    by (simp add: slack_ops_def sl_send_typing_def)
  show "co_update_reply (slack_ops net) [] m ch s = (Ok (), s)"
    by (simp add: slack_ops_def sl_update_reply_def eret_def)
  show "co_update_reply (slack_ops net) p m ch s = (Inl e, s') \<Longrightarrow> \<not> is_http_error e"
    by (auto simp: slack_ops_def sl_update_reply_def ebind_def etry_def ecatch_def eff_simps
        split: if_split_asm prod.splits sum.splits)
  show "co_send_typing (slack_ops net) ch rid s = (r, s') \<Longrightarrow> r = Ok ()"
    by (simp add: slack_ops_def sl_send_typing_def eret_def)
qed

section \<open>Frames\<close>

text \<open>
  Every frame with an envelope id is acknowledged once, in order, before its event is handled, as
  long as the socket takes it; the event follows whether or not anything else is wrong with the frame.
\<close>

lemma sl_frame_run:
  assumes "sl_running s" "\<And>n. wsr n = Ok ()" "sl_frame wsr f s = (r, s')"
  shows "r = Ok ()" "sl_running s'" "sl_bot_user_id s' = sl_bot_user_id s" "sl_on_message s' = sl_on_message s"
    "sl_acks s' = sl_acks s @ (case f of Some (JObj d) \<Rightarrow>
       (case dict_get d ''envelope_id'' of Some i \<Rightarrow> if truthy i then [i] else [] | None \<Rightarrow> []) | _ \<Rightarrow> [])"
proof -
  have h: "sl_running t' = sl_running t \<and> sl_bot_user_id t' = sl_bot_user_id t \<and> sl_on_message t' = sl_on_message t \<and>
      sl_acks t' = sl_acks t" if "sl_handle_events_api pl t = (q, t')" for pl t q t'
    using that by (auto simp: sl_handle_events_api_def ebind_def eff_simps split: sum.splits option.splits if_splits)
  have "r = Ok () \<and> sl_running s' \<and> sl_bot_user_id s' = sl_bot_user_id s \<and> sl_on_message s' = sl_on_message s \<and>
    sl_acks s' = sl_acks s @ (case f of Some (JObj d) \<Rightarrow>
       (case dict_get d ''envelope_id'' of Some i \<Rightarrow> if truthy i then [i] else [] | None \<Rightarrow> []) | _ \<Rightarrow> [])"
  proof (cases f)
    case None
    with assms show ?thesis by (auto simp: sl_frame_def eret_def)
  next
    case (Some msg)
    show ?thesis
    proof (cases "is_obj msg")
      case False
      with Some assms show ?thesis
        by (cases msg) (auto simp: sl_frame_def etry_def ecatch_def ebind_def eff_simps)
    next
      case True
      then obtain d where d: "msg = JObj d" by (cases msg) auto
      let ?i = "case dict_get d ''envelope_id'' of None \<Rightarrow> JNull | Some v \<Rightarrow> v"
      let ?ack = "if truthy ?i then s\<lparr>sl_acks := sl_acks s @ [?i]\<rparr> else s"
      let ?rest = "if (case dict_get d ''type'' of None \<Rightarrow> JNull | Some v \<Rightarrow> v) = JStr ''events_api'' then
          ebind (elift (jget_or msg ''payload'' (JObj []))) sl_handle_events_api else eret ()"
      have run: "sl_frame wsr f s = etry (\<lambda>_. ?rest ?ack) (\<lambda>_. eret ()) s"
        using assms(2) Some d
        by (auto simp: sl_frame_def etry_def ecatch_def ebind_def eseq_def eff_simps split: option.splits)
      obtain q t where q: "?rest ?ack = (q, t)" by fastforce
      with run assms(3) have "s' = t" "r = Ok ()"
        by (auto simp: etry_def ecatch_def eret_def split: sum.splits)
      moreover have "sl_running t = sl_running ?ack \<and> sl_bot_user_id t = sl_bot_user_id ?ack \<and>
          sl_on_message t = sl_on_message ?ack \<and> sl_acks t = sl_acks ?ack"
        using q h d by (auto simp: ebind_def eff_simps split: if_split_asm option.splits)
      ultimately show ?thesis using assms(1) Some d by (auto split: option.splits)
    qed
  qed
  then show "r = Ok ()" "sl_running s'" "sl_bot_user_id s' = sl_bot_user_id s" "sl_on_message s' = sl_on_message s"
    "sl_acks s' = sl_acks s @ (case f of Some (JObj d) \<Rightarrow>
       (case dict_get d ''envelope_id'' of Some i \<Rightarrow> if truthy i then [i] else [] | None \<Rightarrow> []) | _ \<Rightarrow> [])" by blast+
qed

text \<open>The pause between rounds stays between one second and a minute.\<close>

definition pause_ok :: "slack \<Rightarrow> bool" where
  "pause_ok s \<longleftrightarrow> 1 \<le> sl_delay s \<and> sl_delay s \<le> 60"

interpretation slack_pause: frame "\<lambda>s t. pause_ok s \<longrightarrow> pause_ok t" "\<lambda>_ :: slack. True"
  by unfold_locales auto

lemma keeps_pause_requests: "slack_pause.keeps (http_json net rq)"
  by (rule slack_pause.keepsI)
    (auto simp: http_json_def http_def ebind_def eseq_def eff_simps pause_ok_def split: sum.splits)

lemma keeps_pause_frame: "slack_pause.keeps (sl_frame wsr f)"
proof -
  have "slack_pause.keeps (emod (\<lambda>s. s\<lparr>sl_acks := x s\<rparr>))" for x
    by (rule slack_pause.keeps_mod) (simp add: pause_ok_def)
  moreover have "slack_pause.keeps (emod (\<lambda>s. if sl_on_message s then s\<lparr>sl_events := x s\<rparr> else s))" for x
    by (rule slack_pause.keeps_mod) (simp add: pause_ok_def)
  ultimately show ?thesis
    unfolding sl_frame_def sl_handle_events_api_def
    by (intro slack_pause.keeps_rules)
qed

lemma keeps_pause_frames: "slack_pause.keeps (sl_frames wsr fs)"
  by (induction fs) (auto intro!: slack_pause.keeps_rules keeps_pause_frame)

lemma sl_delay_bounds:
  assumes "sl_round net wsr open_socket s = (r, s')" "pause_ok s"
  shows "pause_ok s'"
proof -
  have "slack_pause.keeps (sl_get_wss_url net)"
    unfolding sl_get_wss_url_def by (intro slack_pause.keeps_rules keeps_pause_requests)
  moreover have "slack_pause.keeps (emod (\<lambda>s. s\<lparr>sl_ws_connected := True, sl_delay := 1\<rparr>))"
    "slack_pause.keeps (emod (\<lambda>s. s\<lparr>sl_ws_connected := False, sl_delay := min (sl_delay s * 2) 60\<rparr>))"
    by (rule slack_pause.keeps_mod, simp add: pause_ok_def)+
  ultimately have "slack_pause.keeps (sl_round net wsr open_socket)"
    unfolding sl_round_def
    by (intro slack_pause.keeps_rules keeps_pause_frames)
  from slack_pause.keepsD [OF this assms(1)] assms(2) show ?thesis by simp
qed

end
