(* ===== verification/Bitrix.thy ===== *)
theory Bitrix
  imports Adapters
begin

text \<open>
  The Bitrix24 adapter (\<open>src/services/bitrix.py\<close>): outgoing calls through a webhook URL, which is the
  credential. Incoming messages come by a webhook of the application.
\<close>

record bitrix = http_client +
  bx_webhook_url :: string
  bx_bot_id :: int
  bx_running :: bool
  bx_closed :: bool
  bx_on_message :: bool

type_synonym 'a bx = "(bitrix, 'a) eff"

definition new_bitrix :: "string \<Rightarrow> int \<Rightarrow> bitrix" where
  "new_bitrix webhook_url bot_id = \<lparr>hc_sent = [], bx_webhook_url = rstrip_by (\<lambda>c. c = CHR ''/'') webhook_url,
     bx_bot_id = bot_id, bx_running = False, bx_closed = False, bx_on_message = False\<rparr>"

definition bx_is_connected :: "bitrix \<Rightarrow> bool" where
  "bx_is_connected s \<longleftrightarrow> bx_running s \<and> bx_webhook_url s \<noteq> []"

definition bx_start :: "unit bx" where
  "bx_start = emod (\<lambda>s. s\<lparr>bx_on_message := True, bx_running := True\<rparr>)"

definition bx_stop :: "unit bx" where
  "bx_stop = emod (\<lambda>s. s\<lparr>bx_running := False, bx_closed := True\<rparr>)"

text \<open>The payload, with the bot's id when one is configured.\<close>

definition bx_post :: "string \<Rightarrow> (string \<times> json) list \<Rightarrow> bitrix \<Rightarrow> http_request" where
  "bx_post api_method flds s =
     post_request (bx_webhook_url s @ api_method)
       (JObj (flds @ (if bx_bot_id s \<noteq> 0 then [(''BOT_ID'', JInt (bx_bot_id s))] else [])))"

definition bx_send_reply :: "net \<Rightarrow> string \<Rightarrow> string \<Rightarrow> string \<Rightarrow> string bx" where
  "bx_send_reply net channel_id message root_id =
     ebind (eget (bx_post ''/imbot.message.add.json'' [(''DIALOG_ID'', JStr channel_id), (''MESSAGE'', JStr message)])) (\<lambda>rq.
     ebind (http_json net rq) (\<lambda>res.
     ebind (elift (jget_or res ''result'' jempty)) (\<lambda>i. eret (py_str i))))"

definition bx_update_reply :: "net \<Rightarrow> string \<Rightarrow> string \<Rightarrow> string \<Rightarrow> unit bx" where
  "bx_update_reply net post_id message channel_id =
     (if post_id = [] then eret ()
      else
        ebind (eget (bx_post ''/imbot.message.update.json''
          [(''MESSAGE_ID'', jnumber post_id), (''MESSAGE'', JStr message)])) (\<lambda>rq.
        ecatch is_http_error (http_done net rq) (\<lambda>_. eret ())))"

definition bx_send_typing :: "net \<Rightarrow> string \<Rightarrow> string \<Rightarrow> unit bx" where
  "bx_send_typing net channel_id parent_id =
     ebind (eget (bx_post ''/imbot.chat.startWriting.json'' [(''DIALOG_ID'', JStr channel_id)])) (\<lambda>rq.
     etry (ebind (http net rq) (\<lambda>_. eret ())) (\<lambda>_. eret ()))"

text \<open>The note follows the text also when there is no file.\<close>

definition bx_send_post_with_files :: "net \<Rightarrow> string \<Rightarrow> string \<Rightarrow> string list \<Rightarrow> string \<Rightarrow> string bx" where
  "bx_send_post_with_files net channel_id message fs root_id =
     (let notes = file_note ''File'' fs
      in bx_send_reply net channel_id (if message \<noteq> [] then message @ [CHR 0x0A, CHR 0x0A] @ notes else notes) root_id)"

definition bx_get_or_create_dm_channel :: "string \<Rightarrow> string bx" where
  "bx_get_or_create_dm_channel user_id = eret user_id"

definition bitrix_ops :: "net \<Rightarrow> bitrix chat_ops" where
  "bitrix_ops net = \<lparr>co_send_reply = bx_send_reply net, co_update_reply = bx_update_reply net,
     co_send_typing = bx_send_typing net, co_send_post_with_files = bx_send_post_with_files net,
     co_get_or_create_dm_channel = bx_get_or_create_dm_channel\<rparr>"

section \<open>The contract\<close>

definition bx_own :: "string \<Rightarrow> http_request \<Rightarrow> bool" where
  "bx_own url rq \<longleftrightarrow> startswith (rq_url rq) (url @ ''/imbot.'') \<and> rq_headers rq = []"

interpretation bitrix_requests: own_requests "bx_own url" "\<lambda>s :: bitrix. bx_webhook_url s = url" for url
  by unfold_locales simp

lemma bx_own_post: "bx_webhook_url s = url \<Longrightarrow> bx_own url (bx_post (''/imbot.'' @ api_method) flds s)"
  by (simp add: bx_own_def bx_post_def startswith_iff)

lemma keeps_bx_send_reply: "bitrix_requests.keeps url (bx_send_reply net ch m rid)"
  unfolding bx_send_reply_def
  by (intro bitrix_requests.keeps_get bitrix_requests.keeps_rules bitrix_requests.keeps_requests
      bx_own_post [of _ _ "''message.add.json''", simplified])

interpretation bitrix: chat_adapter "bx_own url" "\<lambda>s. bx_webhook_url s = url" "bitrix_ops net" for url net
proof unfold_locales
  fix ch m rid p u e r fs and s s' :: bitrix
  show "bitrix_requests.keeps url (co_send_reply (bitrix_ops net) ch m rid)"
    "bitrix_requests.keeps url (co_send_post_with_files (bitrix_ops net) ch m fs rid)"
    by (simp_all add: bitrix_ops_def keeps_bx_send_reply bx_send_post_with_files_def Let_def)
  show "bitrix_requests.keeps url (co_update_reply (bitrix_ops net) p m ch)"
    unfolding bitrix_ops_def chat_ops.select_convs bx_update_reply_def
    by (intro bitrix_requests.keeps_get bitrix_requests.keeps_rules bitrix_requests.keeps_requests
        bx_own_post [of _ _ "''message.update.json''", simplified])
  show "bitrix_requests.keeps url (co_send_typing (bitrix_ops net) ch rid)"
    unfolding bitrix_ops_def chat_ops.select_convs bx_send_typing_def
    by (intro bitrix_requests.keeps_get bitrix_requests.keeps_rules bitrix_requests.keeps_requests
        bx_own_post [of _ _ "''chat.startWriting.json''", simplified])
  show "bitrix_requests.keeps url (co_get_or_create_dm_channel (bitrix_ops net) u)"
    by (simp add: bitrix_ops_def bx_get_or_create_dm_channel_def)
  show "co_update_reply (bitrix_ops net) [] m ch s = (Ok (), s)"
    by (simp add: bitrix_ops_def bx_update_reply_def eret_def)
  show "co_update_reply (bitrix_ops net) p m ch s = (Inl e, s') \<Longrightarrow> \<not> is_http_error e"
    by (auto simp: bitrix_ops_def bx_update_reply_def ebind_def ecatch_def eff_simps
        split: if_split_asm prod.splits sum.splits)
  show "co_send_typing (bitrix_ops net) ch rid s = (r, s') \<Longrightarrow> r = Ok ()"
    by (auto simp: bitrix_ops_def bx_send_typing_def ebind_def etry_def ecatch_def eff_simps
        split: prod.splits sum.splits)
qed

end
