(* ===== verification/Mattermost.thy ===== *)
theory Mattermost
  imports Adapters Settings
begin

text \<open>
  The Mattermost adapter (\<open>src/services/mattermost.py\<close>): login, sessions of the event websocket, the
  translation of a \<open>posted\<close> event, and the calls of the HTTP API, each with the bot's token in a
  header the client adds. \<open>loads\<close> is \<open>json.loads\<close> (\<open>None\<close>: a decoding error).
\<close>

section \<open>State\<close>

record mattermost = http_client +
  mm_api_url :: string
  mm_token :: string
  mm_bot_user_id :: "json option"
  mm_ws :: "bool option"
  mm_running :: bool
  mm_closed :: bool
  mm_ws_seq :: int
  mm_on_message :: bool
  mm_events :: "channel_event list"
  mm_ws_sent :: "json list"

type_synonym 'a mm = "(mattermost, 'a) eff"

text \<open>\<open>mm_ws\<close>: no socket yet, or whether the last one is open.\<close>

definition new_mattermost :: "settings \<Rightarrow> mattermost" where
  "new_mattermost cfg = \<lparr>hc_sent = [], mm_api_url = rstrip_by (\<lambda>c. c = CHR ''/'') (mattermost_url cfg) @ ''/api/v4'',
     mm_token = mattermost_token cfg, mm_bot_user_id = None, mm_ws = None, mm_running = False, mm_closed = False,
     mm_ws_seq = 1, mm_on_message = False, mm_events = [], mm_ws_sent = []\<rparr>"

definition mm_is_connected :: "mattermost \<Rightarrow> bool" where
  "mm_is_connected s \<longleftrightarrow> mm_running s \<and> mm_ws s = Some True"

definition mm_auth :: "mattermost \<Rightarrow> http_request \<Rightarrow> http_request" where
  "mm_auth s rq = with_headers [(''Authorization'', ''Bearer '' @ mm_token s)] rq"

definition mm_post :: "string \<Rightarrow> json \<Rightarrow> mattermost \<Rightarrow> http_request" where
  "mm_post path body s = mm_auth s (post_request (mm_api_url s @ path) body)"

section \<open>Events\<close>

definition mm_parse :: "(string \<Rightarrow> json option) \<Rightarrow> json option \<Rightarrow> json \<Rightarrow> channel_event option result" where
  "mm_parse loads bot_id data =
     bind_result (jget data ''event'') (\<lambda>event_type.
     if event_type \<noteq> JStr ''posted'' then Ok None
     else
       bind_result (jget_or data ''data'' (JObj [])) (\<lambda>event_data.
       bind_result (jget event_data ''post'') (\<lambda>post_str.
       if \<not> truthy post_str then Ok None
       else case post_str of
         JStr raw \<Rightarrow>
           (case loads raw of
              None \<Rightarrow> Ok None
            | Some post \<Rightarrow>
                bind_result (jget_or post ''user_id'' jempty) (\<lambda>user_id.
                bind_result (jget_or post ''channel_id'' jempty) (\<lambda>channel_id.
                bind_result (jget_or post ''message'' jempty) (\<lambda>t.
                bind_result (jget_or post ''id'' jempty) (\<lambda>post_id.
                bind_result (jget_or post ''root_id'' jempty) (\<lambda>root_id.
                bind_result (jget post ''file_ids'') (\<lambda>files0.
                if Some user_id = bot_id then Ok None
                else
                  bind_result (jiter (jor files0 (JList []))) (\<lambda>files.
                  bind_result (jstrip t) (\<lambda>stripped.
                  if stripped = [] \<and> files = [] then Ok None
                  else Ok (Some \<lparr>ev_user_id = jtext user_id, ev_channel_id = jtext channel_id,
                    ev_text = jtext t, ev_post_id = jtext post_id, ev_file_ids = map jtext files,
                    ev_provider = ''mattermost'', ev_root_id = jtext root_id\<rparr>)))))))))
              )
       | _ \<Rightarrow> Raise PyTypeError)))"

definition mm_handle_ws_event :: "(string \<Rightarrow> json option) \<Rightarrow> json \<Rightarrow> unit mm" where
  "mm_handle_ws_event loads data =
     ebind (eget mm_bot_user_id) (\<lambda>bot_id.
     ebind (elift (mm_parse loads bot_id data)) (\<lambda>event_opt.
     case event_opt of
       None \<Rightarrow> eret ()
     | Some ev \<Rightarrow> emod (\<lambda>s. if mm_on_message s then s\<lparr>mm_events := mm_events s @ [ev]\<rparr> else s)))"

text \<open>A message on the socket, with the next sequence number; sending can fail.\<close>

definition mm_ws_send :: "(nat \<Rightarrow> unit result) \<Rightarrow> string \<Rightarrow> (string \<times> json) list \<Rightarrow> unit mm" where
  "mm_ws_send wsr action data =
     eseq (emod (\<lambda>s. s\<lparr>mm_ws_seq := mm_ws_seq s + 1\<rparr>))
    (ebind (eget (\<lambda>s. wsr (length (mm_ws_sent s)))) (\<lambda>r.
     eseq (elift r)
       (emod (\<lambda>s. s\<lparr>mm_ws_sent := mm_ws_sent s @ [JObj [(''seq'', JInt (mm_ws_seq s)), (''action'', JStr action),
          (''data'', JObj data)]]\<rparr>))))"

fun mm_frames :: "(string \<Rightarrow> json option) \<Rightarrow> string list \<Rightarrow> unit mm" where
  "mm_frames loads [] = eret ()"
| "mm_frames loads (raw # raws) = ebind (eget mm_running) (\<lambda>running.
     if \<not> running then eret ()
     else eseq
       (case loads raw of None \<Rightarrow> eret () | Some data \<Rightarrow> etry (mm_handle_ws_event loads data) (\<lambda>_. eret ()))
       (mm_frames loads raws))"

text \<open>A session: whether the socket opens, the frames that arrive, the error it ends with.\<close>

record mm_session =
  ms_opened :: "unit result"
  ms_frames :: "string list"
  ms_broken :: "exn option"

definition mm_ws_listen_loop :: "(string \<Rightarrow> json option) \<Rightarrow> (nat \<Rightarrow> unit result) \<Rightarrow> mm_session \<Rightarrow> unit mm" where
  "mm_ws_listen_loop loads wsr ses =
     eseq (elift (ms_opened ses))
    (eseq (emod (\<lambda>s. s\<lparr>mm_ws := Some True\<rparr>))
      (efinally
        (ebind (eget mm_token) (\<lambda>token.
         eseq (mm_ws_send wsr ''authentication_challenge'' [(''token'', JStr token)])
        (eseq (mm_frames loads (ms_frames ses))
          (case ms_broken ses of None \<Rightarrow> eret () | Some e \<Rightarrow> eraise e))))
        (\<lambda>s. s\<lparr>mm_ws := Some False\<rparr>)))"

fun mm_sessions :: "(string \<Rightarrow> json option) \<Rightarrow> (nat \<Rightarrow> unit result) \<Rightarrow> mm_session list \<Rightarrow> unit mm" where
  "mm_sessions loads wsr [] = eret ()"
| "mm_sessions loads wsr (x # xs) = ebind (eget mm_running) (\<lambda>running.
     if \<not> running then eret ()
     else eseq (etry (mm_ws_listen_loop loads wsr x) (\<lambda>_. eret ())) (mm_sessions loads wsr xs))"

definition mm_start :: "net \<Rightarrow> (string \<Rightarrow> json option) \<Rightarrow> (nat \<Rightarrow> unit result) \<Rightarrow> mm_session list \<Rightarrow> unit mm" where
  "mm_start net loads wsr sessions =
     eseq (emod (\<lambda>s. s\<lparr>mm_on_message := True, mm_running := True\<rparr>))
    (ebind (eget (\<lambda>s. mm_auth s (get_request (mm_api_url s @ ''/users/me'') []))) (\<lambda>rq.
     ebind (http_json net rq) (\<lambda>me.
     ebind (elift (jindex me ''id'')) (\<lambda>i.
     eseq (emod (\<lambda>s. s\<lparr>mm_bot_user_id := Some i\<rparr>))
       (mm_sessions loads wsr sessions)))))"

definition mm_stop :: "unit mm" where
  "mm_stop = emod (\<lambda>s. s\<lparr>mm_running := False, mm_ws := map_option (\<lambda>_. False) (mm_ws s), mm_closed := True\<rparr>)"

section \<open>Outgoing calls\<close>

definition mm_send_typing :: "(nat \<Rightarrow> unit result) \<Rightarrow> string \<Rightarrow> string \<Rightarrow> unit mm" where
  "mm_send_typing wsr channel_id parent_id =
     ebind (eget mm_ws) (\<lambda>ws.
     if ws \<noteq> Some True then eret ()
     else etry (mm_ws_send wsr ''user_typing'' [(''channel_id'', JStr channel_id), (''parent_id'', JStr parent_id)])
       (\<lambda>_. eret ()))"

definition mm_post_id :: "json \<Rightarrow> string result" where
  "mm_post_id post = bind_result (jget_or post ''id'' jempty) (\<lambda>i. Ok (jtext i))"

definition root_field :: "string \<Rightarrow> (string \<times> json) list" where
  "root_field root_id = (if root_id \<noteq> [] then [(''root_id'', JStr root_id)] else [])"

definition mm_send_reply :: "net \<Rightarrow> string \<Rightarrow> string \<Rightarrow> string \<Rightarrow> string mm" where
  "mm_send_reply net channel_id message root_id =
     ebind (eget (mm_post ''/posts'' (JObj ([(''channel_id'', JStr channel_id), (''message'', JStr message)] @
       root_field root_id)))) (\<lambda>rq.
     ebind (http_json net rq) (\<lambda>post. elift (mm_post_id post)))"

definition mm_send_post_with_files :: "net \<Rightarrow> string \<Rightarrow> string \<Rightarrow> string list \<Rightarrow> string \<Rightarrow> string mm" where
  "mm_send_post_with_files net channel_id message file_ids root_id =
     ebind (eget (mm_post ''/posts'' (JObj ([(''channel_id'', JStr channel_id), (''message'', JStr message),
       (''file_ids'', JList (map JStr file_ids))] @ root_field root_id)))) (\<lambda>rq.
     ebind (http_json net rq) (\<lambda>post. elift (mm_post_id post)))"

definition mm_update_reply :: "net \<Rightarrow> string \<Rightarrow> string \<Rightarrow> string \<Rightarrow> unit mm" where
  "mm_update_reply net post_id message channel_id =
     (if post_id = [] then eret ()
      else
        ebind (eget (\<lambda>s. mm_auth s (put_request (mm_api_url s @ ''/posts/'' @ post_id)
          (JObj [(''id'', JStr post_id), (''message'', JStr message)])))) (\<lambda>rq.
        ecatch is_http_error (http_done net rq) (\<lambda>_. eret ())))"

definition mm_get_or_create_dm_channel :: "net \<Rightarrow> string \<Rightarrow> string mm" where
  "mm_get_or_create_dm_channel net user_id =
     ebind (eget mm_bot_user_id) (\<lambda>bot_id.
     case bot_id of
       None \<Rightarrow> eret []
     | Some b \<Rightarrow>
         if \<not> truthy b then eret []
         else
           ebind (eget (mm_post ''/channels/direct'' (JList [b, JStr user_id]))) (\<lambda>rq.
           ecatch is_http_error (ebind (http_json net rq) (\<lambda>channel. elift (mm_post_id channel))) (\<lambda>_. eret [])))"

text \<open>The interface's call names its list \<open>file_ids_or_paths\<close>, which this adapter's method does not take.\<close>

definition mattermost_ops :: "net \<Rightarrow> (nat \<Rightarrow> unit result) \<Rightarrow> mattermost chat_ops" where
  "mattermost_ops net wsr = \<lparr>co_send_reply = mm_send_reply net, co_update_reply = mm_update_reply net,
     co_send_typing = mm_send_typing wsr,
     co_send_post_with_files = (\<lambda>ch m fs rid. if files_parameter MattermostClient = ''file_ids_or_paths''
       then mm_send_post_with_files net ch m fs rid else eraise PyTypeError),
     co_get_or_create_dm_channel = mm_get_or_create_dm_channel net\<rparr>"

section \<open>The contract\<close>

definition mm_own :: "string \<Rightarrow> string \<Rightarrow> http_request \<Rightarrow> bool" where
  "mm_own url token rq \<longleftrightarrow> startswith (rq_url rq) (url @ ''/'') \<and> rq_headers rq = [(''Authorization'', ''Bearer '' @ token)]"

definition mm_config :: "string \<Rightarrow> string \<Rightarrow> mattermost \<Rightarrow> bool" where
  "mm_config url token s \<longleftrightarrow> mm_api_url s = url \<and> mm_token s = token"

interpretation mattermost_requests: own_requests "mm_own url token" "mm_config url token" for url token
  by unfold_locales (simp add: mm_config_def)

lemma mm_own_requests:
  "mm_config url token s \<Longrightarrow> mm_own url token (mm_post (CHR ''/'' # path) body s)"
  "mm_config url token s \<Longrightarrow> mm_own url token (mm_auth s (put_request (mm_api_url s @ CHR ''/'' # path) body))"
  by (simp_all add: mm_own_def mm_config_def mm_post_def mm_auth_def startswith_iff)

lemma keeps_mm_ws_send: "mattermost_requests.keeps url token (mm_ws_send wsr action data)"
proof -
  have m: "mattermost_requests.keeps url token (emod f)"
    if "\<And>s. hc_sent (f s) = hc_sent s \<and> mm_api_url (f s) = mm_api_url s \<and> mm_token (f s) = mm_token s" for f
    by (rule mattermost_requests.keeps_mod) (simp add: that mm_config_def sends_only_def)
  show ?thesis unfolding mm_ws_send_def by (intro mattermost_requests.keeps_rules m) simp_all
qed

interpretation mattermost: chat_adapter "mm_own url token" "mm_config url token" "mattermost_ops net wsr"
  for url token net wsr
proof unfold_locales
  fix ch m rid p u e r fs and s s' :: mattermost
  show "mattermost_requests.keeps url token (co_send_reply (mattermost_ops net wsr) ch m rid)"
    unfolding mattermost_ops_def chat_ops.select_convs mm_send_reply_def
    by (intro mattermost_requests.keeps_get mattermost_requests.keeps_rules mattermost_requests.keeps_requests mm_own_requests)
  show "mattermost_requests.keeps url token (co_send_post_with_files (mattermost_ops net wsr) ch m fs rid)"
    by (simp add: mattermost_ops_def)
  show "mattermost_requests.keeps url token (co_update_reply (mattermost_ops net wsr) p m ch)"
    unfolding mattermost_ops_def chat_ops.select_convs mm_update_reply_def
    by (intro mattermost_requests.keeps_get mattermost_requests.keeps_rules mattermost_requests.keeps_requests)
      (use mm_own_requests(2) [of url token _ "''posts/'' @ p"] in auto)
  show "mattermost_requests.keeps url token (co_get_or_create_dm_channel (mattermost_ops net wsr) u)"
    unfolding mattermost_ops_def chat_ops.select_convs mm_get_or_create_dm_channel_def
    by (intro mattermost_requests.keeps_get mattermost_requests.keeps_rules mattermost_requests.keeps_requests mm_own_requests)
  show "mattermost_requests.keeps url token (co_send_typing (mattermost_ops net wsr) ch rid)"
    unfolding mattermost_ops_def chat_ops.select_convs mm_send_typing_def
    by (intro mattermost_requests.keeps_rules keeps_mm_ws_send)
  show "co_update_reply (mattermost_ops net wsr) [] m ch s = (Ok (), s)"
    by (simp add: mattermost_ops_def mm_update_reply_def eret_def)
  show "co_update_reply (mattermost_ops net wsr) p m ch s = (Inl e, s') \<Longrightarrow> \<not> is_http_error e"
    by (auto simp: mattermost_ops_def mm_update_reply_def ebind_def ecatch_def eff_simps
        split: if_split_asm prod.splits sum.splits)
  show "co_send_typing (mattermost_ops net wsr) ch rid s = (r, s') \<Longrightarrow> r = Ok ()"
    by (auto simp: mattermost_ops_def mm_send_typing_def ebind_def etry_def ecatch_def eff_simps
        split: if_split_asm prod.splits sum.splits)
qed

end
