(* ===== verification/Teams.thy ===== *)
theory Teams
  imports Adapters Urls
begin

text \<open>
  The Microsoft Teams adapter (\<open>src/services/teams.py\<close>): the OAuth token with its cache, the service
  URL of each conversation in a table bounded by least recent use, and the outgoing calls, which carry
  the token to the conversation's service URL. \<open>now\<close> is the reading of the clock at the start of
  an operation; white lists and Unicode tables are those of the webhook's guard.
\<close>

section \<open>State\<close>

definition MAX_SERVICE_URLS :: nat where
  "MAX_SERVICE_URLS = 10000"

record teams = http_client +
  tm_app_id :: string
  tm_app_password :: string
  tm_oauth_url :: string
  tm_access_token :: json
  tm_token_expires_at :: rat
  tm_running :: bool
  tm_closed :: bool
  tm_service_urls :: "(string, string) dict"
  tm_on_message :: bool

type_synonym 'a tm = "(teams, 'a) eff"

definition new_teams :: "string \<Rightarrow> string \<Rightarrow> string \<Rightarrow> teams" where
  "new_teams app_id app_password oauth_url = \<lparr>hc_sent = [], tm_app_id = py_strip app_id,
     tm_app_password = py_strip app_password, tm_oauth_url = oauth_url, tm_access_token = jempty,
     tm_token_expires_at = 0, tm_running = False, tm_closed = False, tm_service_urls = [], tm_on_message = False\<rparr>"

definition tm_is_connected :: "teams \<Rightarrow> bool" where
  "tm_is_connected s \<longleftrightarrow> tm_running s \<and> tm_app_id s \<noteq> []"

section \<open>Token\<close>

definition token_request :: "teams \<Rightarrow> http_request" where
  "token_request s = post_request (tm_oauth_url s) (JObj [(''grant_type'', JStr ''client_credentials''),
     (''client_id'', JStr (tm_app_id s)), (''client_secret'', JStr (tm_app_password s)),
     (''scope'', JStr ''https://api.botframework.com/.default'')])"

definition get_access_token :: "net \<Rightarrow> rat \<Rightarrow> json tm" where
  "get_access_token net now =
     ebind (eget (\<lambda>s. truthy (tm_access_token s) \<and> now < tm_token_expires_at s - 60)) (\<lambda>cached.
     if cached then eget tm_access_token
     else
       ebind (eget token_request) (\<lambda>rq.
       ebind (http_json net rq) (\<lambda>token_info.
       ebind (elift (jget_or token_info ''access_token'' jempty)) (\<lambda>token.
       eseq (emod (\<lambda>s. s\<lparr>tm_access_token := token\<rparr>))
      (ebind (elift (bind_result (jget_or token_info ''expires_in'' (JInt 3600)) py_int)) (\<lambda>expires_in.
       eseq (emod (\<lambda>s. s\<lparr>tm_token_expires_at := now + of_int expires_in\<rparr>))
         (eget tm_access_token)))))))"

definition tm_start :: "net \<Rightarrow> rat \<Rightarrow> unit tm" where
  "tm_start net now =
     eseq (emod (\<lambda>s. s\<lparr>tm_on_message := True, tm_running := True\<rparr>))
    (ebind (eget (\<lambda>s. tm_app_id s \<noteq> [] \<and> tm_app_password s \<noteq> [])) (\<lambda>configured.
     if configured then etry (ebind (get_access_token net now) (\<lambda>_. eret ())) (\<lambda>_. eret ()) else eret ()))"

definition tm_stop :: "unit tm" where
  "tm_stop = emod (\<lambda>s. s\<lparr>tm_running := False, tm_closed := True\<rparr>)"

section \<open>Service URLs\<close>

text \<open>\<open>OrderedDict\<close>: moving an entry to the end, and dropping the first ones.\<close>

definition move_to_end :: "(string, string) dict \<Rightarrow> string \<Rightarrow> (string, string) dict" where
  "move_to_end d k = (case dict_get d k of None \<Rightarrow> d | Some v \<Rightarrow> dict_pop d k @ [(k, v)])"

fun evict :: "nat \<Rightarrow> (string, string) dict \<Rightarrow> (string, string) dict" where
  "evict n [] = []"
| "evict n (x # xs) = (if length (x # xs) > n then evict n xs else x # xs)"

definition register_service_url :: "settings \<Rightarrow> (string \<Rightarrow> bool) \<Rightarrow> string \<Rightarrow> string \<Rightarrow> unit tm" where
  "register_service_url cfg nfkc_ok conversation_id service_url =
     ebind (elift (is_allowed_service_url cfg nfkc_ok service_url)) (\<lambda>allowed.
     if \<not> allowed then eret ()
     else emod (\<lambda>s. s\<lparr>tm_service_urls := evict MAX_SERVICE_URLS (move_to_end
       (dict_set (tm_service_urls s) conversation_id (rstrip_by (\<lambda>c. c = CHR ''/'') service_url)) conversation_id)\<rparr>))"

definition DEFAULT_SERVICE_URL :: string where
  "DEFAULT_SERVICE_URL = ''https://smba.trafficmanager.net/teams''"

definition get_service_url :: "string \<Rightarrow> string tm" where
  "get_service_url conversation_id s =
     (case dict_get (tm_service_urls s) conversation_id of
        None \<Rightarrow> (Ok DEFAULT_SERVICE_URL, s)
      | Some url \<Rightarrow> (Ok url, s\<lparr>tm_service_urls := move_to_end (tm_service_urls s) conversation_id\<rparr>))"

section \<open>Outgoing calls\<close>

definition tm_headers :: "json \<Rightarrow> (string \<times> string) list" where
  "tm_headers token = [(''Authorization'', ''Bearer '' @ py_str token)]"

definition json_content :: "(string \<times> string) list" where
  "json_content = [(''Content-Type'', ''application/json'')]"

definition activities_url :: "string \<Rightarrow> string \<Rightarrow> string" where
  "activities_url service_url channel_id = service_url @ ''/v3/conversations/'' @ channel_id @ ''/activities''"

definition tm_send_reply :: "net \<Rightarrow> rat \<Rightarrow> string \<Rightarrow> string \<Rightarrow> string \<Rightarrow> string tm" where
  "tm_send_reply net now channel_id message root_id =
     etry
       (ebind (get_access_token net now) (\<lambda>token.
        ebind (get_service_url channel_id) (\<lambda>service_url.
        ebind (http_json net (with_headers (tm_headers token @ json_content)
          (post_request (activities_url service_url channel_id)
            (JObj ([(''type'', JStr ''message''), (''text'', JStr message)] @
              (if root_id \<noteq> [] then [(''replyToId'', JStr root_id)] else [])))))) (\<lambda>res_data.
        ebind (elift (jget res_data ''id'')) (\<lambda>i. eret (py_str (jor i jempty)))))))
       (\<lambda>_. eret [])"

definition tm_update_reply :: "net \<Rightarrow> rat \<Rightarrow> string \<Rightarrow> string \<Rightarrow> string \<Rightarrow> unit tm" where
  "tm_update_reply net now post_id message channel_id =
     (if post_id = [] \<or> channel_id = [] then eret ()
      else etry
        (ebind (get_access_token net now) (\<lambda>token.
         ebind (get_service_url channel_id) (\<lambda>service_url.
         http_done net (with_headers (tm_headers token @ json_content)
           (put_request (activities_url service_url channel_id @ ''/'' @ post_id)
             (JObj [(''type'', JStr ''message''), (''text'', JStr message)]))))))
        (\<lambda>_. eret ()))"

definition tm_send_typing :: "net \<Rightarrow> rat \<Rightarrow> string \<Rightarrow> string \<Rightarrow> unit tm" where
  "tm_send_typing net now channel_id parent_id =
     etry
       (ebind (get_access_token net now) (\<lambda>token.
        ebind (get_service_url channel_id) (\<lambda>service_url.
        ebind (http net (with_headers (tm_headers token)
          (post_request (activities_url service_url channel_id) (JObj [(''type'', JStr ''typing'')])))) (\<lambda>_. eret ()))))
       (\<lambda>_. eret ())"

definition tm_send_post_with_files :: "net \<Rightarrow> rat \<Rightarrow> string \<Rightarrow> string \<Rightarrow> string list \<Rightarrow> string \<Rightarrow> string tm" where
  "tm_send_post_with_files net now channel_id message fs root_id =
     tm_send_reply net now channel_id (text_with_files message fs) root_id"

definition tm_get_or_create_dm_channel :: "string \<Rightarrow> string tm" where
  "tm_get_or_create_dm_channel user_id = eret user_id"

definition teams_ops :: "net \<Rightarrow> rat \<Rightarrow> teams chat_ops" where
  "teams_ops net now = \<lparr>co_send_reply = tm_send_reply net now, co_update_reply = tm_update_reply net now,
     co_send_typing = tm_send_typing net now, co_send_post_with_files = tm_send_post_with_files net now,
     co_get_or_create_dm_channel = tm_get_or_create_dm_channel\<rparr>"

section \<open>The table of service URLs\<close>

definition whitelisted :: "settings \<Rightarrow> (string \<Rightarrow> bool) \<Rightarrow> string \<Rightarrow> bool" where
  "whitelisted cfg nfkc_ok base \<longleftrightarrow> base = DEFAULT_SERVICE_URL \<or>
     (\<exists>url. is_allowed_service_url cfg nfkc_ok url = Ok True \<and> base = rstrip_by (\<lambda>c. c = CHR ''/'') url)"

definition teams_ok :: "settings \<Rightarrow> (string \<Rightarrow> bool) \<Rightarrow> string \<Rightarrow> teams \<Rightarrow> bool" where
  "teams_ok cfg nfkc_ok oauth s \<longleftrightarrow> tm_oauth_url s = oauth \<and> list_all (\<lambda>(k, u). whitelisted cfg nfkc_ok u) (tm_service_urls s) \<and>
     length (tm_service_urls s) \<le> MAX_SERVICE_URLS"

text \<open>A request with the token goes to a whitelisted base; the app's password only to the OAuth server.\<close>

definition tm_own :: "settings \<Rightarrow> (string \<Rightarrow> bool) \<Rightarrow> string \<Rightarrow> http_request \<Rightarrow> bool" where
  "tm_own cfg nfkc_ok oauth rq \<longleftrightarrow>
     (if rq_headers rq = [] then rq_url rq = oauth
      else \<exists>base rest. whitelisted cfg nfkc_ok base \<and> rq_url rq = base @ ''/v3/conversations/'' @ rest)"

lemma evict_suffix: "\<exists>xs. d = xs @ evict n d"
  by (induction n d rule: evict.induct) (auto intro: exI [of _ "[]"] simp: Cons_eq_append_conv)

lemma length_evict: "length (evict n d) \<le> n"
  by (induction n d rule: evict.induct) auto

lemma list_all_evict: "list_all P d \<Longrightarrow> list_all P (evict n d)"
  using evict_suffix [of d n] by (metis list_all_append)

lemma list_all_dict_set:
  "list_all (\<lambda>(k, v). P v) d \<Longrightarrow> P v \<Longrightarrow> list_all (\<lambda>(k, v). P v) (dict_set d k v)"
  by (auto simp: list_all_iff dest!: dict_set_mem)

lemma list_all_move:
  "list_all (\<lambda>(k, v). P v) d \<Longrightarrow> list_all (\<lambda>(k, v). P v) (move_to_end d k)"
  by (auto simp: move_to_end_def list_all_iff dest!: dict_pop_mem dict_get_in_set split: option.splits)

lemma length_move: "length (move_to_end d k) \<le> length d"
proof (cases "dict_get d k")
  case (Some v)
  then have "(k, v) \<in> set d" by (rule dict_get_in_set)
  then have "length (dict_pop d k) < length d"
    by (induction d) (auto simp: dict_pop_def intro: le_imp_less_Suc length_delete_le less_SucI)
  with Some show ?thesis by (simp add: move_to_end_def)
qed (simp add: move_to_end_def)

lemma evict_last: "0 < n \<Longrightarrow> \<exists>ys. evict n (xs @ [x]) = ys @ [x]"
  by (induction xs) (auto split: if_split)

text \<open>Just after its registration a conversation has its URL, however full the table is.\<close>

lemma registered_url:
  "dict_get (evict MAX_SERVICE_URLS (move_to_end (dict_set d k v) k)) k = Some v"
proof -
  let ?d = "dict_pop (dict_set d k v) k"
  obtain ys where ys: "evict MAX_SERVICE_URLS (?d @ [(k, v)]) = ys @ [(k, v)]"
    using evict_last [of MAX_SERVICE_URLS ?d "(k, v)"] by (auto simp: MAX_SERVICE_URLS_def)
  obtain zs where "?d @ [(k, v)] = zs @ ys @ [(k, v)]" using evict_suffix ys by metis
  then have "set ys \<subseteq> set ?d" by auto
  then have "\<forall>(a, b) \<in> set ys. a \<noteq> k" by (auto dest!: subsetD dict_pop_mem)
  then have "map_of ys k = None" by (auto simp: map_of_eq_None_iff)
  then have "dict_get (ys @ [(k, v)]) k = Some v" by (simp add: dict_get_def map_add_def)
  moreover have "move_to_end (dict_set d k v) k = ?d @ [(k, v)]" by (simp add: move_to_end_def)
  ultimately show ?thesis using ys by simp
qed

section \<open>The contract\<close>

interpretation teams_requests: own_requests "tm_own cfg nfkc_ok oauth" "teams_ok cfg nfkc_ok oauth" for cfg nfkc_ok oauth
  by unfold_locales (simp add: teams_ok_def)

lemma keeps_get_access_token: "teams_requests.keeps cfg nfkc_ok oauth (get_access_token net now)"
proof -
  have m: "teams_requests.keeps cfg nfkc_ok oauth (emod f)"
    if "\<And>s. hc_sent (f s) = hc_sent s \<and> tm_service_urls (f s) = tm_service_urls s \<and> tm_oauth_url (f s) = tm_oauth_url s" for f
    by (rule teams_requests.keeps_mod) (simp add: that teams_ok_def sends_only_def)
  have own: "teams_ok cfg nfkc_ok oauth s \<Longrightarrow> tm_own cfg nfkc_ok oauth (token_request s)" for s
    by (simp add: teams_ok_def tm_own_def token_request_def)
  show ?thesis unfolding get_access_token_def
    by (intro teams_requests.keeps_bind teams_requests.keeps_basic teams_requests.keeps_if
        teams_requests.keeps_get [where g = token_request]
        teams_requests.keeps_http_json teams_requests.keeps_seq m own) simp_all
qed

lemma service_url_post:
  "get_service_url ch s = (Ok u, s') \<Longrightarrow> teams_ok cfg nfkc_ok oauth s \<Longrightarrow> whitelisted cfg nfkc_ok u"
  by (auto simp: get_service_url_def teams_ok_def whitelisted_def list_all_iff dest!: dict_get_in_set split: option.splits)

lemma keeps_get_service_url: "teams_requests.keeps cfg nfkc_ok oauth (get_service_url ch)"
  by (rule teams_requests.keepsI)
    (auto simp: get_service_url_def teams_ok_def sends_only_def intro: list_all_move le_trans [OF length_move] split: option.splits)

text \<open>An operation that takes the token to the conversation's service URL.\<close>

lemma keeps_at_service_url:
  assumes "\<And>token u. whitelisted cfg nfkc_ok u \<Longrightarrow> teams_requests.keeps cfg nfkc_ok oauth (f token u)"
  shows "teams_requests.keeps cfg nfkc_ok oauth
    (ebind (get_access_token net now) (\<lambda>token. ebind (get_service_url ch) (f token)))"
proof (rule teams_requests.keeps_bind [OF keeps_get_access_token], rule teams_requests.keepsI)
  fix token s r s'
  assume s: "teams_ok cfg nfkc_ok oauth s" and run: "ebind (get_service_url ch) (f token) s = (r, s')"
  obtain u s1 where u: "get_service_url ch s = (Ok u, s1)"
    by (cases "dict_get (tm_service_urls s) ch") (auto simp: get_service_url_def)
  from teams_requests.keepsD [OF keeps_get_service_url u s]
  have 1: "sends_only (tm_own cfg nfkc_ok oauth) s s1" "teams_ok cfg nfkc_ok oauth s1" using s by auto
  have "f token u s1 = (r, s')" using run u by (simp add: ebind_def)
  from teams_requests.keepsD [OF assms [OF service_url_post [OF u s]] this 1(2)] 1
  show "sends_only (tm_own cfg nfkc_ok oauth) s s' \<and> (teams_ok cfg nfkc_ok oauth s \<longrightarrow> teams_ok cfg nfkc_ok oauth s')"
    by (auto intro: sends_only_trans)
qed

lemma tm_own_activity:
  "whitelisted cfg nfkc_ok u \<Longrightarrow> tm_own cfg nfkc_ok oauth (with_headers (tm_headers token @ hs) (post_request (activities_url u ch) body))"
  "whitelisted cfg nfkc_ok u \<Longrightarrow> tm_own cfg nfkc_ok oauth (with_headers (tm_headers token) (post_request (activities_url u ch) body))"
  "whitelisted cfg nfkc_ok u \<Longrightarrow> tm_own cfg nfkc_ok oauth (with_headers (tm_headers token @ hs) (put_request (activities_url u ch @ t) body))"
  by (auto simp: tm_own_def tm_headers_def activities_url_def)

lemma keeps_tm_send_reply: "teams_requests.keeps cfg nfkc_ok oauth (tm_send_reply net now ch m rid)"
  unfolding tm_send_reply_def
  by (intro teams_requests.keeps_try teams_requests.keeps_basic keeps_at_service_url teams_requests.keeps_bind
      teams_requests.keeps_requests tm_own_activity)

interpretation teams: chat_adapter "tm_own cfg nfkc_ok oauth" "teams_ok cfg nfkc_ok oauth" "teams_ops net now"
  for cfg nfkc_ok oauth net now
proof unfold_locales
  fix ch m rid p u e r fs and s s' :: teams
  show "teams_requests.keeps cfg nfkc_ok oauth (co_send_reply (teams_ops net now) ch m rid)"
    "teams_requests.keeps cfg nfkc_ok oauth (co_send_post_with_files (teams_ops net now) ch m fs rid)"
    by (simp_all add: teams_ops_def keeps_tm_send_reply tm_send_post_with_files_def)
  show "teams_requests.keeps cfg nfkc_ok oauth (co_update_reply (teams_ops net now) p m ch)"
    unfolding teams_ops_def chat_ops.select_convs tm_update_reply_def
    by (intro teams_requests.keeps_if teams_requests.keeps_try teams_requests.keeps_basic keeps_at_service_url
        teams_requests.keeps_requests tm_own_activity)
  show "teams_requests.keeps cfg nfkc_ok oauth (co_send_typing (teams_ops net now) ch rid)"
    unfolding teams_ops_def chat_ops.select_convs tm_send_typing_def
    by (intro teams_requests.keeps_try teams_requests.keeps_basic keeps_at_service_url teams_requests.keeps_bind
        teams_requests.keeps_requests tm_own_activity)
  show "teams_requests.keeps cfg nfkc_ok oauth (co_get_or_create_dm_channel (teams_ops net now) u)"
    by (simp add: teams_ops_def tm_get_or_create_dm_channel_def)
  show "co_update_reply (teams_ops net now) [] m ch s = (Ok (), s)"
    by (simp add: teams_ops_def tm_update_reply_def eret_def)
  show "co_update_reply (teams_ops net now) p m ch s = (Inl e, s') \<Longrightarrow> \<not> is_http_error e"
    by (auto simp: teams_ops_def tm_update_reply_def etry_def ecatch_def eff_simps
        split: if_split_asm prod.splits sum.splits)
  show "co_send_typing (teams_ops net now) ch rid s = (r, s') \<Longrightarrow> r = Ok ()"
    by (auto simp: teams_ops_def tm_send_typing_def etry_def ecatch_def eff_simps
        split: prod.splits sum.splits)
qed

section \<open>Where the token goes\<close>

text \<open>What happens to the adapter in a process: calls of the router and registrations by the webhook.\<close>

datatype teams_event = CallAt rat chat_call | Register string string

fun teams_step :: "settings \<Rightarrow> (string \<Rightarrow> bool) \<Rightarrow> net \<Rightarrow> teams_event \<Rightarrow> unit tm" where
  "teams_step cfg nfkc_ok net (CallAt now c) = run_calls (teams_ops net now) [c]"
| "teams_step cfg nfkc_ok net (Register conv url) = etry (register_service_url cfg nfkc_ok conv url) (\<lambda>_. eret ())"

lemma keeps_register: "teams_requests.keeps cfg nfkc_ok oauth (register_service_url cfg nfkc_ok conv url)"
proof (rule teams_requests.keepsI)
  fix s r s'
  assume s: "teams_ok cfg nfkc_ok oauth s" and run: "register_service_url cfg nfkc_ok conv url s = (r, s')"
  let ?u = "rstrip_by (\<lambda>c. c = CHR ''/'') url"
  consider "s' = s" | "is_allowed_service_url cfg nfkc_ok url = Ok True"
    "s' = s\<lparr>tm_service_urls := evict MAX_SERVICE_URLS (move_to_end (dict_set (tm_service_urls s) conv ?u) conv)\<rparr>"
    using run by (auto simp: register_service_url_def ebind_def eff_simps split: sum.splits if_split_asm)
  then show "sends_only (tm_own cfg nfkc_ok oauth) s s' \<and> (teams_ok cfg nfkc_ok oauth s \<longrightarrow> teams_ok cfg nfkc_ok oauth s')"
  proof cases
    case 2
    then have "whitelisted cfg nfkc_ok ?u" by (auto simp: whitelisted_def)
    then have "list_all (\<lambda>(k, u). whitelisted cfg nfkc_ok u) (tm_service_urls s')"
      using s 2 by (auto simp: teams_ok_def intro!: list_all_evict list_all_move list_all_dict_set)
    then show ?thesis using s 2 length_evict by (simp add: teams_ok_def sends_only_def)
  qed simp
qed


definition toy_teams_net :: net where
  "toy_teams_net n rq = Ok \<lparr>rs_status = 200, 
     rs_json = Ok (JObj [(''access_token'', JStr ''tok''), (''expires_in'', JInt 3600), (''id'', JStr ''a1'')]),
     rs_message = []\<rparr>"


end
