(* ===== verification/Api.thy ===== *)
theory Api
  imports Router Teams
begin

text \<open>
  The HTTP endpoints (\<open>src/api/\<close>): the control plane (trigger, notify, reload of the mapping caches), the
  Mattermost button proxy, and the webhooks of Bitrix24 and Teams. A request holds what the framework has
  parsed; an endpoint is an effect on the application's components and ends in a reply or an exception,
  which the framework answers. Work left to the background (\<open>fire_and_forget\<close>) is a queue of tasks.
\<close>

section \<open>The application\<close>

datatype task =
    HandleEvent channel_event
  | HandleProactive string string string
  | TriggerMessage string instance_info string "string option" string

record app = http_client +
  ap_router :: router
  ap_teams :: "teams option"
  ap_tasks :: "task list"

type_synonym 'a ep = "(app, 'a) eff"

record reply =
  rp_status :: nat
  rp_body :: json

definition ok_reply :: "json \<Rightarrow> reply" where
  "ok_reply body = \<lparr>rp_status = 200, rp_body = body\<rparr>"

definition status_body :: "string \<Rightarrow> json" where
  "status_body s = JObj [(''status'', JStr s)]"

definition on_router :: "'a rt \<Rightarrow> 'a ep" where
  "on_router m s = (case m (ap_router s) of (r, rt) \<Rightarrow> (r, s\<lparr>ap_router := rt\<rparr>))"

definition fire_and_forget :: "task \<Rightarrow> unit ep" where
  "fire_and_forget t = emod (\<lambda>s. s\<lparr>ap_tasks := ap_tasks s @ [t]\<rparr>)"

text \<open>The framework: an \<open>HTTPException\<close> is its status, anything else a server error.\<close>

definition exception_reply :: "exn \<Rightarrow> reply" where
  "exception_reply e = (case e of
       HTTPException st detail \<Rightarrow> \<lparr>rp_status = st, rp_body = JObj [(''detail'', JStr detail)]\<rparr>
     | _ \<Rightarrow> \<lparr>rp_status = 500, rp_body = JStr ''Internal Server Error''\<rparr>)"

definition serve :: "reply ep \<Rightarrow> app \<Rightarrow> reply \<times> app" where
  "serve m s = (case m s of (Inr rp, s') \<Rightarrow> (rp, s') | (Inl e, s') \<Rightarrow> (exception_reply e, s'))"

text \<open>A background task: its exception is logged.\<close>

fun task_effect :: "settings \<Rightarrow> router_env \<Rightarrow> task \<Rightarrow> unit rt" where
  "task_effect cfg env (HandleEvent ev) = handle_event cfg env ev"
| "task_effect cfg env (HandleProactive user text provider) = handle_proactive env user text provider"
| "task_effect cfg env (TriggerMessage user info text sk provider) = trigger_message cfg env user info text sk provider"

definition run_next_task :: "settings \<Rightarrow> router_env \<Rightarrow> app \<Rightarrow> app" where
  "run_next_task cfg env s =
     (case ap_tasks s of
        [] \<Rightarrow> s
      | t # ts \<Rightarrow> snd (on_router (etry (task_effect cfg env t) (\<lambda>_. eret ())) (s\<lparr>ap_tasks := ts\<rparr>)))"

section \<open>Guards\<close>

text \<open>\<open>secrets.compare_digest\<close> on texts: only ASCII.\<close>

definition is_ascii :: "string \<Rightarrow> bool" where
  "is_ascii s \<longleftrightarrow> list_all (\<lambda>c. code c < 128) s"

definition compare_digest :: "string \<Rightarrow> string \<Rightarrow> bool result" where
  "compare_digest a b = (if is_ascii a \<and> is_ascii b then Ok (a = b) else Raise PyTypeError)"

text \<open>The token header is required: without it the framework refuses the request.\<close>

definition check_api_token :: "settings \<Rightarrow> string option \<Rightarrow> unit ep" where
  "check_api_token cfg x_api_token =
     (case x_api_token of
        None \<Rightarrow> eraise (HTTPException 422 ''Field required'')
      | Some token \<Rightarrow>
          if api_token cfg = [] then eraise (HTTPException 401 ''Invalid or missing API token'')
          else ebind (elift (compare_digest token (api_token cfg))) (\<lambda>same.
            if same then eret () else eraise (HTTPException 401 ''Invalid or missing API token'')))"

section \<open>Control plane\<close>

record api_call =
  ac_token :: "string option"
  ac_external_user_id :: string
  ac_provider :: string
  ac_text :: string
  ac_session_key :: "string option"

definition resolve_external :: "settings \<Rightarrow> router_env \<Rightarrow> string \<Rightarrow> string \<Rightarrow> string \<Rightarrow> (string \<times> instance_info) ep" where
  "resolve_external cfg env ext provider missing =
     ebind (on_router (ebind (tick (re_clock env)) (\<lambda>now.
       db_call env (\<lambda>s. case get_instance_by_external_id cfg now (rt_db s) ext provider (rt_mapping s) of
         (r, m) \<Rightarrow> (Ok r, s\<lparr>rt_mapping := m\<rparr>))))) (\<lambda>r.
     case r of
       Inr x \<Rightarrow> eret x
     | Inl (UnsupportedProviderError p) \<Rightarrow>
         eraise (HTTPException 400 (''Provider is not enabled: '' @ repr_str p))
     | Inl (InstanceNotFoundError m) \<Rightarrow>
         eraise (HTTPException 404 (missing @ repr_str ext))
     | Inl e \<Rightarrow> eraise e)"

definition trigger :: "settings \<Rightarrow> router_env \<Rightarrow> api_call \<Rightarrow> reply ep" where
  "trigger cfg env rq =
     eseq (check_api_token cfg (ac_token rq))
    (ebind (on_router (tick (re_uuid4 env))) (\<lambda>request_id.
     let provider = py_lower (py_strip (ac_provider rq)) in
     ebind (resolve_external cfg env (ac_external_user_id rq) provider
       ''No OpenClaw instance configured for external_user_id='') (\<lambda>(provider_user_id, info).
     eseq (fire_and_forget (TriggerMessage provider_user_id info (ac_text rq) (ac_session_key rq) provider))
       (eret (ok_reply (JObj [(''status'', JStr ''sent''), (''request_id'', JStr request_id)]))))))"

definition notify :: "settings \<Rightarrow> router_env \<Rightarrow> api_call \<Rightarrow> reply ep" where
  "notify cfg env rq =
     eseq (check_api_token cfg (ac_token rq))
    (let provider = py_lower (py_strip (ac_provider rq)) in
     ebind (resolve_external cfg env (ac_external_user_id rq) provider ''No mapping for external_user_id='')
       (\<lambda>(provider_user_id, info).
     eseq (fire_and_forget (HandleProactive provider_user_id (ac_text rq) provider))
       (eret (ok_reply (status_body ''sent'')))))"

definition reload_mappings :: "settings \<Rightarrow> router_env \<Rightarrow> string option \<Rightarrow> reply ep" where
  "reload_mappings cfg env x_api_token =
     eseq (check_api_token cfg x_api_token)
    (ebind (on_router (db_call env (\<lambda>s. case reload_cache_version (rt_db s) (rt_mapping s) of
         (r, m) \<Rightarrow> (r, s\<lparr>rt_mapping := m\<rparr>)))) (\<lambda>version.
     eret (ok_reply (JObj [(''status'', JStr ''ok''), (''message'', JStr ''mapping cache invalidated'')]))))"

section \<open>Mattermost buttons\<close>

text \<open>\<open>None\<close>: the body is not JSON.\<close>

record mm_call =
  mc_secret_header :: string
  mc_query :: "(string, string) dict"
  mc_body :: "json option"

definition mm_provided :: "mm_call \<Rightarrow> string" where
  "mm_provided rq = (if mc_secret_header rq \<noteq> [] then mc_secret_header rq
     else case dict_get (mc_query rq) ''secret'' of Some s \<Rightarrow> s | None \<Rightarrow> [])"

definition backend_unavailable :: json where
  "backend_unavailable = JObj [(''update'', JObj [(''message'',
     JStr ([CHR 0xE2, CHR 0x9A, CHR 0xA0, CHR 0xEF, CHR 0xB8, CHR 0x8F] @
       '' Processing error (backend unavailable). Please try replying with text.''))])]"

definition proxy_mm_action :: "settings \<Rightarrow> net \<Rightarrow> mm_call \<Rightarrow> reply ep" where
  "proxy_mm_action cfg net rq =
     ebind (if mm_action_shared_secret cfg = [] \<or> mm_provided rq = [] then eret False
            else elift (compare_digest (mm_provided rq) (mm_action_shared_secret cfg))) (\<lambda>same.
     if \<not> same then eraise (HTTPException 401 ''Invalid or missing action secret'')
     else case mc_body rq of
       None \<Rightarrow> eraise (HTTPException 400 ''Invalid JSON'')
     | Some payload \<Rightarrow>
         ebind (elift (jget_or payload ''context'' (JObj []))) (\<lambda>context.
         ebind (elift (jget context ''task_id'')) (\<lambda>_.
         etry (ebind (http_json net (post_request (mm_action_proxy_url cfg) payload)) (\<lambda>j. eret (ok_reply j)))
           (\<lambda>_. eret (ok_reply backend_unavailable)))))"

section \<open>Bitrix24\<close>

record bx_call =
  bc_is_json :: bool
  bc_body :: "json option"
  bc_form :: "(string, string) dict"
  bc_query :: "(string, string) dict"

definition form_payload :: "(string, string) dict \<Rightarrow> json" where
  "form_payload form = JObj (map (\<lambda>(k, v). (k, JStr v)) form)"

fun first_param :: "(string, string) dict \<Rightarrow> string list \<Rightarrow> string" where
  "first_param query [] = []"
| "first_param query (k # ks) =
     (case dict_get query k of Some v \<Rightarrow> if v \<noteq> [] then v else first_param query ks | None \<Rightarrow> first_param query ks)"

definition extract_inbound_token :: "bx_call \<Rightarrow> json \<Rightarrow> string result" where
  "extract_inbound_token rq payload =
     bind_result (jget payload ''auth'') (\<lambda>auth.
     Ok (let from_auth = (case auth of
             JObj d \<Rightarrow> (case dict_get d ''access_token'' of Some (JStr t) \<Rightarrow> t | _ \<Rightarrow> [])
           | _ \<Rightarrow> [])
         in if from_auth \<noteq> [] then from_auth else first_param (bc_query rq) [''secure'', ''access_token'', ''code'']))"

definition or_empty :: "json \<Rightarrow> string" where
  "or_empty j = py_str (jor j jempty)"

text \<open>The event of a payload; the reply for a message that is ignored.\<close>

definition bx_parse :: "settings \<Rightarrow> json \<Rightarrow> (string + channel_event) result" where
  "bx_parse cfg payload =
     bind_result (jget payload ''data'') (\<lambda>d1.
     bind_result (jget payload ''DATA'') (\<lambda>d2.
     let data = jor (jor d1 d2) (JObj []) in
     bind_result (jget data ''PARAMS'') (\<lambda>p1.
     bind_result (jget payload ''PARAMS'') (\<lambda>p2.
     let params = jor (jor p1 p2) data in
     bind_result (jget params ''FROM_USER_ID'') (\<lambda>u.
     bind_result (jget params ''DIALOG_ID'') (\<lambda>d.
     bind_result (jget params ''MESSAGE'') (\<lambda>m.
     bind_result (jget params ''MESSAGE_ID'') (\<lambda>i.
     let from_user_id = or_empty u; dialog_id = or_empty d; message_text = py_strip (or_empty m);
         message_id = or_empty i
     in Ok (if bitrix_bot_id cfg \<noteq> 0 \<and> from_user_id = str_int (bitrix_bot_id cfg) then Inl ''ignored_bot_own_message''
        else if message_text = [] \<or> from_user_id = [] \<or> dialog_id = [] then Inl ''ignored_empty''
        else Inr \<lparr>ev_user_id = from_user_id, ev_channel_id = dialog_id, ev_text = message_text,
          ev_post_id = message_id, ev_file_ids = [], ev_provider = ''bitrix'', ev_root_id = []\<rparr>)))))))))"

definition bitrix_webhook_event :: "settings \<Rightarrow> bx_call \<Rightarrow> reply ep" where
  "bitrix_webhook_event cfg rq =
     ebind (elift (if bc_is_json rq then (case bc_body rq of Some j \<Rightarrow> Ok j | None \<Rightarrow> Raise PyValueError)
            else Ok (form_payload (bc_form rq)))) (\<lambda>payload.
     if bitrix_inbound_secret cfg = [] then eraise (HTTPException 401 ''Bitrix webhook is disabled'')
     else
       ebind (elift (extract_inbound_token rq payload)) (\<lambda>inbound_token.
       ebind (if inbound_token = [] then eret False
              else elift (compare_digest inbound_token (bitrix_inbound_secret cfg))) (\<lambda>same.
       if \<not> same then eraise (HTTPException 401 ''Invalid webhook token'')
       else
         ebind (elift (bx_parse cfg payload)) (\<lambda>parsed.
         case parsed of
           Inl st \<Rightarrow> eret (ok_reply (status_body st))
         | Inr ev \<Rightarrow> eseq (fire_and_forget (HandleEvent ev)) (eret (ok_reply (status_body ''received'')))))))"

section \<open>Teams\<close>

record tm_call =
  tc_authorization :: "string option"
  tc_body :: "json option"

text \<open>\<open>[str(a.get("name", i)) for i, a in enumerate(attachments)]\<close>.\<close>

fun attachment_names :: "nat \<Rightarrow> json list \<Rightarrow> string list result" where
  "attachment_names i [] = Ok []"
| "attachment_names i (a # as) =
     bind_result (jget_or a ''name'' (JInt (int i))) (\<lambda>n.
     bind_result (attachment_names (Suc i) as) (\<lambda>ns. Ok (py_str n # ns)))"

definition empty_reply :: "nat \<Rightarrow> reply" where
  "empty_reply st = \<lparr>rp_status = st, rp_body = JNull\<rparr>"

definition on_teams :: "unit tm \<Rightarrow> unit ep" where
  "on_teams m s =
     (case ap_teams s of
        None \<Rightarrow> (Ok (), s)
      | Some t \<Rightarrow> (case m t of (r, t') \<Rightarrow> (r, s\<lparr>ap_teams := Some t'\<rparr>)))"

definition teams_webhook_messages :: "settings \<Rightarrow> jwt_lib \<Rightarrow> (string \<Rightarrow> bool) \<Rightarrow> tm_call \<Rightarrow> reply ep" where
  "teams_webhook_messages cfg jwt nfkc_ok rq =
     (case verify_inbound_token cfg jwt (tc_authorization rq) of
        Inl (TeamsAuthError m) \<Rightarrow> eraise (HTTPException 401 ''Unauthorized activity'')
      | Inl e \<Rightarrow> eraise e
      | Inr u \<Rightarrow>
         (case tc_body rq of
            None \<Rightarrow> eret (empty_reply 400)
          | Some activity \<Rightarrow>
              ebind (elift (jget activity ''type'')) (\<lambda>activity_type.
              if activity_type \<noteq> JStr ''message'' then eret (empty_reply 200)
              else
                ebind (elift (jget_or activity ''from'' (JObj []))) (\<lambda>from_user.
                ebind (elift (jget from_user ''id'')) (\<lambda>uid.
                ebind (elift (jget_or activity ''conversation'' (JObj []))) (\<lambda>conversation.
                ebind (elift (jget conversation ''id'')) (\<lambda>cid.
                ebind (elift (jget activity ''text'')) (\<lambda>t.
                ebind (elift (jget activity ''id'')) (\<lambda>mid.
                ebind (elift (jget activity ''replyToId'')) (\<lambda>rid.
                ebind (elift (jget activity ''serviceUrl'')) (\<lambda>su.
                let user_id = or_empty uid; conversation_id = or_empty cid; txt0 = py_strip (or_empty t);
                    service_url = or_empty su
                in if user_id = [] \<or> conversation_id = [] \<or> txt0 = [] then eret (empty_reply 200)
                   else
                     ebind (elift (is_allowed_service_url cfg nfkc_ok service_url)) (\<lambda>allowed.
                     if \<not> allowed then eraise (HTTPException 403 ''serviceUrl host is not allowed'')
                     else
                       eseq (on_teams (register_service_url cfg nfkc_ok conversation_id service_url))
                      (ebind (elift (jget_or activity ''attachments'' (JList []))) (\<lambda>attachments0.
                       ebind (elift (jiter attachments0)) (\<lambda>attachments.
                       ebind (elift (attachment_names 0 attachments)) (\<lambda>file_ids.
                       eseq (fire_and_forget (HandleEvent \<lparr>ev_user_id = user_id, ev_channel_id = conversation_id,
                           ev_text = txt0, ev_post_id = or_empty mid, ev_file_ids = file_ids,
                           ev_provider = ''teams'', ev_root_id = or_empty rid\<rparr>))
                         (eret (empty_reply 200))))))))))))))))))"

section \<open>All requests\<close>

datatype api_request =
    TriggerReq api_call
  | NotifyReq api_call
  | ReloadReq "string option"
  | MmActionReq mm_call
  | BitrixReq bx_call
  | TeamsReq tm_call

record api_env =
  ae_router :: router_env
  ae_net :: net
  ae_jwt :: jwt_lib
  ae_nfkc :: "string \<Rightarrow> bool"

fun endpoint :: "settings \<Rightarrow> api_env \<Rightarrow> api_request \<Rightarrow> reply ep" where
  "endpoint cfg env (TriggerReq rq) = trigger cfg (ae_router env) rq"
| "endpoint cfg env (NotifyReq rq) = notify cfg (ae_router env) rq"
| "endpoint cfg env (ReloadReq tok) = reload_mappings cfg (ae_router env) tok"
| "endpoint cfg env (MmActionReq rq) = proxy_mm_action cfg (ae_net env) rq"
| "endpoint cfg env (BitrixReq rq) = bitrix_webhook_event cfg rq"
| "endpoint cfg env (TeamsReq rq) = teams_webhook_messages cfg (ae_jwt env) (ae_nfkc env) rq"

fun serve_all :: "settings \<Rightarrow> api_env \<Rightarrow> api_request list \<Rightarrow> app \<Rightarrow> reply list \<times> app" where
  "serve_all cfg env [] s = ([], s)"
| "serve_all cfg env (rq # rqs) s =
     (case serve (endpoint cfg env rq) s of (rp, s1) \<Rightarrow>
      case serve_all cfg env rqs s1 of (rps, s2) \<Rightarrow> (rp # rps, s2))"

end
