(* ===== verification/ApiLaws.thy ===== *)
theory ApiLaws
  imports Api RouterDemo
begin

text \<open>
  What the HTTP endpoints promise: a request without the credentials of its endpoint changes nothing, the
  tasks left to the background are well typed, and what a control-plane call queues. The guard
  of an endpoint is a contract (\<open>guarded_endpoint\<close>) that all six fulfil.
\<close>

section \<open>Guarded endpoints\<close>

locale guarded_endpoint =
  fixes handler :: "'q \<Rightarrow> reply ep" and authorised :: "'q \<Rightarrow> bool"
  assumes refused: "\<not> authorised q \<Longrightarrow> \<exists>e. handler q s = (Inl e, s) \<and> 400 \<le> rp_status (exception_reply e)"
begin

lemma refuses: "\<not> authorised q \<Longrightarrow> \<exists>rp. serve (handler q) s = (rp, s) \<and> 400 \<le> rp_status rp"
  using refused [of q s] by (auto simp: serve_def)

end

definition token_ok :: "settings \<Rightarrow> string option \<Rightarrow> bool" where
  "token_ok cfg tok \<longleftrightarrow> api_token cfg \<noteq> [] \<and> tok = Some (api_token cfg)"

definition mm_action_ok :: "settings \<Rightarrow> mm_call \<Rightarrow> bool" where
  "mm_action_ok cfg rq \<longleftrightarrow> mm_action_shared_secret cfg \<noteq> [] \<and>
     (mc_secret_header rq = mm_action_shared_secret cfg \<or>
      mc_secret_header rq = [] \<and> dict_get (mc_query rq) ''secret'' = Some (mm_action_shared_secret cfg))"

text \<open>The secret comes in the JSON body or, whatever the body, in one of three query parameters.\<close>

definition bitrix_ok :: "settings \<Rightarrow> bx_call \<Rightarrow> bool" where
  "bitrix_ok cfg rq \<longleftrightarrow> bitrix_inbound_secret cfg \<noteq> [] \<and>
     ((\<exists>payload auth. bc_is_json rq \<and> bc_body rq = Some (JObj payload) \<and> dict_get payload ''auth'' = Some (JObj auth) \<and>
         dict_get auth ''access_token'' = Some (JStr (bitrix_inbound_secret cfg))) \<or>
      (\<exists>k \<in> {''secure'', ''access_token'', ''code''}. dict_get (bc_query rq) k = Some (bitrix_inbound_secret cfg)))"

definition teams_activity_ok :: "settings \<Rightarrow> jwt_lib \<Rightarrow> tm_call \<Rightarrow> bool" where
  "teams_activity_ok cfg jwt rq \<longleftrightarrow> verify_inbound_token cfg jwt (tc_authorization rq) = Ok ()"

lemma exception_statuses [simp]:
  "rp_status (exception_reply (HTTPException st d)) = st"
  "rp_status (exception_reply PyTypeError) = 500" "rp_status (exception_reply PyValueError) = 500"
  "rp_status (exception_reply PyAttributeError) = 500"
  by (simp_all add: exception_reply_def)

lemma eseq_raise: "m s = (Inl e, s') \<Longrightarrow> eseq m n s = (Inl e, s')"
  by (simp add: eseq_def ebind_def)

lemma check_api_token_refuses:
  "\<not> token_ok cfg tok \<Longrightarrow> \<exists>e. check_api_token cfg tok s = (Inl e, s) \<and> 400 \<le> rp_status (exception_reply e)"
  by (cases tok) (auto simp: check_api_token_def token_ok_def compare_digest_def ebind_def elift_def eret_def eraise_def)

interpretation trigger_guard: guarded_endpoint "trigger cfg env" "\<lambda>rq. token_ok cfg (ac_token rq)" for cfg env
  by unfold_locales (auto simp: trigger_def dest!: check_api_token_refuses intro!: eseq_raise)

interpretation notify_guard: guarded_endpoint "notify cfg env" "\<lambda>rq. token_ok cfg (ac_token rq)" for cfg env
  by unfold_locales (auto simp: notify_def dest!: check_api_token_refuses intro!: eseq_raise)

interpretation reload_guard: guarded_endpoint "reload_mappings cfg env" "token_ok cfg" for cfg env
  by unfold_locales (auto simp: reload_mappings_def dest!: check_api_token_refuses intro!: eseq_raise)

interpretation mm_action_guard: guarded_endpoint "proxy_mm_action cfg net" "mm_action_ok cfg" for cfg net
  by unfold_locales
    (auto simp: proxy_mm_action_def mm_action_ok_def mm_provided_def compare_digest_def ebind_def elift_def eret_def
      eraise_def split: option.splits if_split_asm)

lemma jget_error: "jget j k = Inl e \<Longrightarrow> e = PyAttributeError"
  by (cases j) (auto split: option.splits)

lemma first_param_found:
  "first_param query ks \<noteq> [] \<Longrightarrow> \<exists>k \<in> set ks. dict_get query k = Some (first_param query ks)"
  by (induction query ks rule: first_param.induct) (auto split: option.splits)

lemma form_payload_text: "form_payload form = JObj d \<Longrightarrow> dict_get d k = Some v \<Longrightarrow> is_str v"
  by (auto simp: form_payload_def dict_get_def dest!: map_of_SomeD)

lemma extract_inbound_token_ok:
  assumes "extract_inbound_token rq payload = Ok t" "t \<noteq> []"
  shows "(\<exists>d auth. payload = JObj d \<and> dict_get d ''auth'' = Some (JObj auth) \<and> dict_get auth ''access_token'' = Some (JStr t)) \<or>
    (\<exists>k \<in> {''secure'', ''access_token'', ''code''}. dict_get (bc_query rq) k = Some t)"
proof -
  let ?q = "first_param (bc_query rq) [''secure'', ''access_token'', ''code'']"
  obtain auth where a: "jget payload ''auth'' = Ok auth"
    using assms(1) by (cases "jget payload ''auth''") (auto simp: extract_inbound_token_def)
  then obtain d where d: "payload = JObj d" by (cases payload) auto
  show ?thesis
  proof (cases "t = ?q")
    case True
    with first_param_found [of "bc_query rq" "[''secure'', ''access_token'', ''code'']"] assms(2) show ?thesis by auto
  next
    case False
    with assms(1) a obtain d' where "auth = JObj d'" "dict_get d' ''access_token'' = Some (JStr t)"
      by (cases auth) (auto simp del: first_param.simps simp: extract_inbound_token_def Let_def
          split: option.splits json.splits if_split_asm)
    with a d assms(2) show ?thesis by (auto split: option.splits)
  qed
qed

definition bx_payload :: "bx_call \<Rightarrow> json result" where
  "bx_payload rq = (if bc_is_json rq then (case bc_body rq of Some j \<Rightarrow> Ok j | None \<Rightarrow> Raise PyValueError)
     else Ok (form_payload (bc_form rq)))"

lemma bx_token_authorises:
  assumes "bx_payload rq = Ok payload" "extract_inbound_token rq payload = Ok (bitrix_inbound_secret cfg)"
    "bitrix_inbound_secret cfg \<noteq> []"
  shows "bitrix_ok cfg rq"
  using extract_inbound_token_ok [OF assms(2,3)] form_payload_text [of "bc_form rq" _ "''auth''"] assms(1,3)
  by (fastforce simp: bitrix_ok_def bx_payload_def split: if_split_asm option.splits)

interpretation bitrix_guard: guarded_endpoint "bitrix_webhook_event cfg" "bitrix_ok cfg" for cfg
proof unfold_locales
  fix rq s
  assume no: "\<not> bitrix_ok cfg rq"
  have run: "bitrix_webhook_event cfg rq s = (case bx_payload rq of Inl e \<Rightarrow> (Inl e, s) | Inr p \<Rightarrow>
      if bitrix_inbound_secret cfg = [] then (Raise (HTTPException 401 ''Bitrix webhook is disabled''), s)
      else case extract_inbound_token rq p of Inl e \<Rightarrow> (Inl e, s) | Inr t \<Rightarrow>
        if t = [] then (Raise (HTTPException 401 ''Invalid webhook token''), s)
        else case compare_digest t (bitrix_inbound_secret cfg) of Inl e \<Rightarrow> (Inl e, s)
          | Inr False \<Rightarrow> (Raise (HTTPException 401 ''Invalid webhook token''), s)
          | Inr True \<Rightarrow> bitrix_webhook_event cfg rq s)"
    by (auto simp: bitrix_webhook_event_def bx_payload_def ebind_def elift_def eret_def eraise_def
        split: sum.splits option.splits bool.splits)
  show "\<exists>e. bitrix_webhook_event cfg rq s = (Inl e, s) \<and> 400 \<le> rp_status (exception_reply e)"
  proof (cases "bx_payload rq")
    case (Inl e)
    then have "e = PyValueError" by (auto simp: bx_payload_def split: if_split_asm option.splits)
    with run Inl show ?thesis by simp
  next
    case (Inr p)
    show ?thesis
    proof (cases "extract_inbound_token rq p")
      case (Inl e)
      then have "e = PyAttributeError"
        by (cases "jget p ''auth''") (auto simp: extract_inbound_token_def dest: jget_error)
      with run Inr Inl show ?thesis by (simp split: if_split_asm)
    next
      case t: (Inr t)
      show ?thesis
      proof (cases "bitrix_inbound_secret cfg = [] \<or> t = []")
        case False
        then have "t \<noteq> bitrix_inbound_secret cfg" using bx_token_authorises [OF Inr] t no by auto
        then show ?thesis using run Inr t False by (simp add: compare_digest_def split: if_split_asm)
      qed (use run Inr t in \<open>auto split: if_split_asm\<close>)
    qed
  qed
qed


lemma try_jwks_error: "try_jwks jwt t aud iss urls = Inl e \<Longrightarrow> \<exists>m. e = TeamsAuthError m"
  by (induction urls) (auto split: sum.splits)

lemma verify_error: "verify_inbound_token cfg jwt auth = Inl e \<Longrightarrow> \<exists>m. e = TeamsAuthError m"
  by (auto simp: verify_inbound_token_def Let_def dest: try_jwks_error split: option.splits if_split_asm)

interpretation teams_guard: guarded_endpoint "teams_webhook_messages cfg jwt nfkc_ok" "teams_activity_ok cfg jwt"
  for cfg jwt nfkc_ok
proof unfold_locales
  fix rq s
  assume "\<not> teams_activity_ok cfg jwt rq"
  then obtain e where e: "verify_inbound_token cfg jwt (tc_authorization rq) = Inl e"
    by (cases "verify_inbound_token cfg jwt (tc_authorization rq)") (auto simp: teams_activity_ok_def)
  with verify_error obtain m where "e = TeamsAuthError m" by blast
  with e show "\<exists>e. teams_webhook_messages cfg jwt nfkc_ok rq s = (Inl e, s) \<and> 400 \<le> rp_status (exception_reply e)"
    by (simp add: teams_webhook_messages_def eraise_def)
qed

fun request_ok :: "settings \<Rightarrow> api_env \<Rightarrow> api_request \<Rightarrow> bool" where
  "request_ok cfg env (TriggerReq rq) = token_ok cfg (ac_token rq)"
| "request_ok cfg env (NotifyReq rq) = token_ok cfg (ac_token rq)"
| "request_ok cfg env (ReloadReq tok) = token_ok cfg tok"
| "request_ok cfg env (MmActionReq rq) = mm_action_ok cfg rq"
| "request_ok cfg env (BitrixReq rq) = bitrix_ok cfg rq"
| "request_ok cfg env (TeamsReq rq) = teams_activity_ok cfg (ae_jwt env) rq"

interpretation api_guard: guarded_endpoint "endpoint cfg env" "request_ok cfg env" for cfg env
proof unfold_locales
  fix rq s
  show "\<not> request_ok cfg env rq \<Longrightarrow>
    \<exists>e. endpoint cfg env rq s = (Inl e, s) \<and> 400 \<le> rp_status (exception_reply e)"
    using trigger_guard.refused notify_guard.refused reload_guard.refused mm_action_guard.refused
      bitrix_guard.refused teams_guard.refused
    by (cases rq) simp_all
qed

text \<open>
  Property C6. Requests without their endpoint's credentials change nothing: serving any sequence of requests
  to the six endpoints leaves the application exactly as serving the authorised ones alone does (no
  task queued, no chat call, no request to the tools server, no cache or service URL touched),
  and every other request is answered with an error status.
\<close>

theorem unauthorised_requests_change_nothing:
  "snd (serve_all cfg env rqs s) = snd (serve_all cfg env (filter (request_ok cfg env) rqs) s) \<and>
   list_all (\<lambda>(rq, rp). request_ok cfg env rq \<or> 400 \<le> rp_status rp) (zip rqs (fst (serve_all cfg env rqs s)))"
proof (induction rqs arbitrary: s)
  case (Cons rq rqs)
  show ?case
  proof (cases "request_ok cfg env rq")
    case True
    obtain rp t where "serve (endpoint cfg env rq) s = (rp, t)" by fastforce
    with Cons [of t] True show ?thesis by (auto split: prod.split)
  next
    case False
    from api_guard.refuses [OF this, of s] obtain rp where "serve (endpoint cfg env rq) s = (rp, s)" "400 \<le> rp_status rp"
      by blast
    with Cons [of s] False show ?thesis by (auto split: prod.split)
  qed
qed simp


section \<open>Queued tasks\<close>

text \<open>A step that appends tasks with a property to the queue, and makes no chat call itself.\<close>

definition no_calls :: "router \<Rightarrow> router \<Rightarrow> bool" where
  "no_calls s t \<longleftrightarrow> rt_registry t = rt_registry s \<and> rt_mattermost t = rt_mattermost s \<and> rt_calls t = rt_calls s"

definition queues :: "(task \<Rightarrow> bool) \<Rightarrow> app \<Rightarrow> app \<Rightarrow> bool" where
  "queues P s t \<longleftrightarrow> no_calls (ap_router s) (ap_router t) \<and> (\<exists>ts. ap_tasks t = ap_tasks s @ ts \<and> list_all P ts)"

lemma queues_same: "ap_tasks t = ap_tasks s \<Longrightarrow> no_calls (ap_router s) (ap_router t) \<Longrightarrow> queues P s t"
  by (simp add: queues_def)

lemma no_calls_refl [simp]: "no_calls s s"
  by (simp add: no_calls_def)

interpretation queue_frame: frame "queues P" "\<lambda>_. True" for P
  by unfold_locales (auto simp: queues_def no_calls_def)

lemma keeps_on_router: "(\<And>s r s'. m s = (r, s') \<Longrightarrow> no_calls s s') \<Longrightarrow> queue_frame.keeps P (on_router m)"
  by (rule queue_frame.keepsI) (auto simp: on_router_def split: prod.splits intro: queues_same)

lemma tick_no_calls: "tick f s = (r, s') \<Longrightarrow> no_calls s s'"
  by (auto simp: tick_def no_calls_def)

lemma keeps_mapping_call:
  "queue_frame.keeps P (on_router (db_call env (\<lambda>s. case f s of (r, m) \<Rightarrow> (g r, s\<lparr>rt_mapping := m\<rparr>))))"
  by (rule keeps_on_router) (auto simp: db_call_def eraise_def no_calls_def split: if_split_asm prod.splits)

lemma keeps_mapping_lookup:
  "queue_frame.keeps P (on_router (ebind (tick h) (\<lambda>now.
     db_call env (\<lambda>s. case f now s of (r, m) \<Rightarrow> (g r, s\<lparr>rt_mapping := m\<rparr>)))))"
  by (rule keeps_on_router)
    (auto simp: db_call_def eraise_def no_calls_def tick_def ebind_def split: if_split_asm prod.splits)

lemma keeps_on_teams: "queue_frame.keeps P (on_teams m)"
  by (rule queue_frame.keepsI) (auto simp: on_teams_def split: prod.splits option.splits intro: queues_same)

lemma keeps_fire: "P t \<Longrightarrow> queue_frame.keeps P (fire_and_forget t)"
  by (rule queue_frame.keepsI) (auto simp: fire_and_forget_def emod_def queues_def)

lemma keeps_api_http: "queue_frame.keeps P (http_json net rq)"
  unfolding http_json_def
  by (intro queue_frame.keeps_rules, rule queue_frame.keepsI) (auto simp: http_def intro: queues_same)

lemma keeps_check_api_token: "queue_frame.keeps P (check_api_token cfg tok)"
  unfolding check_api_token_def by (intro queue_frame.keeps_rules)

lemma keeps_resolve_external: "queue_frame.keeps P (resolve_external cfg env ext provider missing)"
  unfolding resolve_external_def
  by (intro queue_frame.keeps_bind keeps_mapping_lookup) (auto split: sum.split exn.split)

lemmas keeps_api = keeps_on_router [OF tick_no_calls] keeps_mapping_call [where g = "\<lambda>r. r"] keeps_on_teams keeps_api_http
  keeps_check_api_token keeps_resolve_external

text \<open>What an API task is.\<close>

fun task_ok :: "task \<Rightarrow> bool" where
  "task_ok (HandleEvent ev) \<longleftrightarrow> ev_provider ev \<in> {''bitrix'', ''teams''} \<and> ev_user_id ev \<noteq> [] \<and>
     ev_channel_id ev \<noteq> [] \<and> py_strip (ev_text ev) \<noteq> []"
| "task_ok (HandleProactive user text provider) \<longleftrightarrow> provider \<in> set SUPPORTED_PROVIDERS"
| "task_ok (TriggerMessage user info text session_key provider) \<longleftrightarrow> provider \<in> set SUPPORTED_PROVIDERS"

lemma strip_lower: "py_strip (py_lower s) = py_lower (py_strip s)"
proof -
  have "is_ws (lower_char c) = is_ws c" for c
    by (auto simp: is_ws_def lower_char_def)
  then have "is_ws \<circ> lower_char = is_ws" by (simp add: fun_eq_iff)
  then show ?thesis
    by (simp add: py_strip_def py_lower_def strip_by_def lstrip_by_def rstrip_by_def dropWhile_map rev_map)
qed

lemma validate_canonical:
  "validate_provider (py_lower (py_strip p)) = Ok q \<Longrightarrow> py_lower (py_strip p) \<in> set SUPPORTED_PROVIDERS"
  by (auto simp: validate_provider_def Let_def strip_lower split: if_split_asm)

lemma resolve_external_supported:
  "resolve_external cfg env ext (py_lower (py_strip p)) missing s = (Inr x, s') \<Longrightarrow>
   py_lower (py_strip p) \<in> set SUPPORTED_PROVIDERS"
  by (cases "validate_provider (py_lower (py_strip p))")
    (auto simp: resolve_external_def on_router_def ebind_def tick_def db_call_def get_instance_by_external_id_def
      eraise_def intro: validate_canonical split: prod.splits sum.splits if_split_asm exn.splits)

lemma keeps_trigger: "queue_frame.keeps task_ok (trigger cfg env rq)"
  unfolding trigger_def Let_def
  by (intro queue_frame.keeps_seq queue_frame.keeps_bind keeps_api queue_frame.keeps_bind_post [OF keeps_resolve_external])
    (auto intro!: queue_frame.keeps_seq keeps_fire dest!: resolve_external_supported)

lemma keeps_notify: "queue_frame.keeps task_ok (notify cfg env rq)"
  unfolding notify_def Let_def
  by (intro queue_frame.keeps_seq keeps_api queue_frame.keeps_bind_post [OF keeps_resolve_external])
    (auto intro!: queue_frame.keeps_seq keeps_fire dest!: resolve_external_supported)

lemma keeps_reload: "queue_frame.keeps P (reload_mappings cfg env tok)"
  unfolding reload_mappings_def by (intro queue_frame.keeps_rules keeps_api)

lemma keeps_mm_action: "queue_frame.keeps P (proxy_mm_action cfg net rq)"
  unfolding proxy_mm_action_def by (intro queue_frame.keeps_rules keeps_api)

lemma bx_parse_typed:
  "bx_parse cfg payload = Ok (Inr ev) \<Longrightarrow> task_ok (HandleEvent ev)"
  by (cases payload) (auto simp: bx_parse_def Let_def bind_result_def split: sum.splits if_split_asm)

lemma keeps_bx_event:
  "queue_frame.keeps task_ok (ebind (elift (bx_parse cfg payload)) (\<lambda>parsed.
     case parsed of Inl st \<Rightarrow> eret (ok_reply (status_body st))
     | Inr ev \<Rightarrow> eseq (fire_and_forget (HandleEvent ev)) (eret (ok_reply (status_body ''received'')))))"
  by (rule queue_frame.keeps_bind_post)
    (auto simp: elift_def simp del: task_ok.simps intro!: queue_frame.keeps_seq keeps_fire dest!: bx_parse_typed split: sum.split)

lemma keeps_bitrix: "queue_frame.keeps task_ok (bitrix_webhook_event cfg rq)"
  unfolding bitrix_webhook_event_def
  by (intro keeps_bx_event queue_frame.keeps_bind queue_frame.keeps_if queue_frame.keeps_basic)

lemma keeps_teams: "queue_frame.keeps task_ok (teams_webhook_messages cfg jwt nfkc_ok rq)"
  unfolding teams_webhook_messages_def Let_def
  by (auto intro!: queue_frame.keeps_rules keeps_api keeps_fire split: sum.split exn.split option.split)


lemma keeps_endpoint: "queue_frame.keeps task_ok (endpoint cfg env rq)"
  by (cases rq) (simp_all add: keeps_trigger keeps_notify keeps_reload keeps_mm_action keeps_bitrix keeps_teams)

lemma served_tasks: "queues task_ok s (snd (serve_all cfg env rqs s))"
proof (induction rqs arbitrary: s)
  case Nil
  show ?case by (simp add: queues_same)
next
  case (Cons rq rqs)
  obtain r t where r: "endpoint cfg env rq s = (r, t)" by fastforce
  then have "queues task_ok s t" using queue_frame.keepsD [OF keeps_endpoint r] by simp
  from queue_frame.trans [OF this Cons [of t]] r show ?case by (auto simp: serve_def split: prod.splits sum.splits)
qed

section \<open>Running the tasks\<close>

text \<open>The calls a task may make on the adapter \<open>a\<close> of its provider.\<close>

fun task_provider :: "task \<Rightarrow> string" where
  "task_provider (HandleEvent ev) = ev_provider ev"
| "task_provider (HandleProactive user text provider) = provider"
| "task_provider (TriggerMessage user info text session_key provider) = provider"

fun direct_call :: "adapter \<Rightarrow> string \<Rightarrow> (string \<Rightarrow> bool) \<Rightarrow> chat_call \<Rightarrow> bool" where
  "direct_call a user F (SendReply b ch m rid) \<longleftrightarrow> b = a \<and> ch \<noteq> [] \<and> m \<noteq> [] \<and> F m \<and> rid = []"
| "direct_call a user F (GetOrCreateDm b u) \<longleftrightarrow> b = a \<and> u = user"
| "direct_call a user F _ \<longleftrightarrow> False"

fun task_call :: "task \<Rightarrow> adapter \<Rightarrow> chat_call \<Rightarrow> bool" where
  "task_call (HandleEvent ev) a c = event_call ev a (\<lambda>_. True) c"
| "task_call (HandleProactive user text provider) a c =
     direct_call a (provider_user_id (normalize_identity_key provider user) provider) (\<lambda>m. m = text) c"
| "task_call (TriggerMessage user info text session_key provider) a c = direct_call a user (\<lambda>_. True) c"

definition calls_within :: "(chat_call \<Rightarrow> bool) \<Rightarrow> router \<Rightarrow> router \<Rightarrow> bool" where
  "calls_within P s t \<longleftrightarrow> rt_registry t = rt_registry s \<and> rt_mattermost t = rt_mattermost s \<and>
     (\<exists>cs. rt_calls t = rt_calls s @ cs \<and> list_all P cs)"

definition adapter_of :: "string \<Rightarrow> adapter option \<Rightarrow> router \<Rightarrow> bool" where
  "adapter_of provider a_opt s \<longleftrightarrow> get_adapter s provider = a_opt"

lemma calls_same:
  "rt_registry t = rt_registry s \<Longrightarrow> rt_mattermost t = rt_mattermost s \<Longrightarrow> rt_calls t = rt_calls s \<Longrightarrow> calls_within P s t"
  by (simp add: calls_within_def)

interpretation direct: frame "calls_within P" "adapter_of provider a_opt" for P provider a_opt
  by unfold_locales
    (auto simp: calls_within_def adapter_of_def get_adapter_def split: option.splits)

lemma direct_call_keeps: "P c \<Longrightarrow> direct.keeps P p ao (call_adapter env c)"
  by (rule direct.keepsI) (auto simp: call_adapter_def calls_within_def)

lemma direct_same:
  "(\<And>s r s'. m s = (r, s') \<Longrightarrow> rt_registry s' = rt_registry s \<and> rt_mattermost s' = rt_mattermost s \<and> rt_calls s' = rt_calls s) \<Longrightarrow>
   direct.keeps P p ao m"
  by (rule direct.keepsI) (auto simp: calls_within_def)

lemma direct_remember: "direct.keeps P p ao (remember_channel_rt env key provider puid ch)"
proof (rule direct_same)
  fix s r s'
  assume run: "remember_channel_rt env key provider puid ch s = (r, s')"
  obtain d where "remember_channel_rt env key provider puid ch s =
    (Ok (), s\<lparr>rt_user_channels := dict_set (rt_user_channels s) key ch, rt_db := d\<rparr>)"
    by (rule remember_channel_rt_run)
  with run show "rt_registry s' = rt_registry s \<and> rt_mattermost s' = rt_mattermost s \<and> rt_calls s' = rt_calls s" by auto
qed

lemma direct_lookup: "direct.keeps P p ao (lookup_channel env provider puid)"
  by (rule direct_same)
    (auto simp: lookup_channel_def etry_def ecatch_def db_call_def eret_def eraise_def split: prod.splits sum.splits if_split_asm)


text \<open>A call on the adapter that is registered, if one is.\<close>

fun on_adapter :: "adapter option \<Rightarrow> (adapter \<Rightarrow> chat_call \<Rightarrow> bool) \<Rightarrow> chat_call \<Rightarrow> bool" where
  "on_adapter None Q c \<longleftrightarrow> False"
| "on_adapter (Some a) Q c \<longleftrightarrow> Q a c"

abbreviation "direct_to ao user F \<equiv> on_adapter ao (\<lambda>a. direct_call a user F)"

lemma direct_open_dm: "direct.keeps (direct_to ao user F) p ao (open_dm env key user p)"
  unfolding open_dm_def
  by (rule direct.keeps_get)
    (auto simp: adapter_of_def intro!: direct.keeps_bind direct.keeps_seq direct.keeps_when direct_call_keeps direct_remember
      split: option.split)

lemma direct_channel: "direct.keeps (direct_to ao user F) p ao (get_or_create_channel env key user p)"
proof -
  have "direct.keeps (direct_to ao user F) p ao (emod (\<lambda>s. s\<lparr>rt_user_channels := f s\<rparr>))" for f
    by (rule direct.keeps_mod) (simp add: calls_same)
  then show ?thesis unfolding get_or_create_channel_def
    by (intro direct.keeps_bind direct.keeps_if direct.keeps_seq direct.keeps_basic direct_lookup direct_open_dm)
qed

lemma direct_reply:
  "ch \<noteq> [] \<Longrightarrow> m \<noteq> [] \<Longrightarrow> F m \<Longrightarrow> direct.keeps (direct_to (Some a) user F) p ao (send_reply env a ch m [])"
  unfolding send_reply_def by (rule direct_call_keeps) simp

lemma direct_reply_if:
  "m \<noteq> [] \<Longrightarrow> F m \<Longrightarrow> direct.keeps (direct_to ao user F) p ao' (reply_if env ao ch m)"
  by (cases ao) (auto simp: reply_if_def intro!: direct.keeps_if direct.keeps_seq direct_reply)

lemma direct_ws_send: "direct.keeps P p ao (ws_send cfg env user info m sk None)"
  by (rule direct_same) (auto simp: ws_send_def Let_def split: prod.splits)

lemma direct_proactive:
  "direct.keeps (on_adapter ao (task_call (HandleProactive user text provider))) provider ao
     (handle_proactive env user text provider)"
proof -
  let ?u = "provider_user_id (normalize_identity_key provider user) provider"
  have "direct.keeps (direct_to ao ?u (\<lambda>m. m = text)) provider ao (handle_proactive env user text provider)"
    unfolding handle_proactive_def Let_def
    by (rule direct.keeps_get)
      (auto simp: adapter_of_def intro!: direct.keeps_bind direct.keeps_try direct.keeps_seq direct_channel direct_reply
        split: option.split)
  moreover have "on_adapter ao (task_call (HandleProactive user text provider)) = direct_to ao ?u (\<lambda>m. m = text)"
    by (rule ext) (cases ao; simp)
  ultimately show ?thesis by simp
qed

lemma direct_trigger:
  "direct.keeps (on_adapter ao (task_call (TriggerMessage user info text sk provider))) provider ao
     (trigger_message cfg env user info text sk provider)"
proof -
  have "TASK_ERROR_TEXT \<noteq> []" by (simp add: TASK_ERROR_TEXT_def)
  then have k: "direct.keeps (direct_to ao user (\<lambda>_. True)) provider ao
    (etry (ebind (ws_send cfg env key info text k None) (\<lambda>(response, media).
            if response \<noteq> [] then reply_if env ao ch response else eret ()))
           (\<lambda>_. reply_if env ao ch TASK_ERROR_TEXT))" for key k ch
    by (intro direct.keeps_try direct.keeps_bind direct.keeps_prod direct.keeps_if direct_ws_send direct_reply_if
        direct.keeps_basic) simp_all
  have "direct.keeps (direct_to ao user (\<lambda>_. True)) provider ao (trigger_message cfg env user info text sk provider)"
    unfolding trigger_message_def Let_def
    by (rule direct.keeps_bind [OF direct_channel], rule direct.keeps_get) (simp only: adapter_of_def k)
  moreover have "on_adapter ao (task_call (TriggerMessage user info text sk provider)) = direct_to ao user (\<lambda>_. True)"
    by (rule ext) (cases ao; simp)
  ultimately show ?thesis by simp
qed

lemma direct_event:
  "direct.keeps (on_adapter ao (task_call (HandleEvent ev))) (ev_provider ev) ao (handle_event cfg env ev)"
proof (rule direct.keepsI)
  fix s r s'
  assume ao: "adapter_of (ev_provider ev) ao s" and run: "handle_event cfg env ev s = (r, s')"
  show "calls_within (on_adapter ao (task_call (HandleEvent ev))) s s'"
  proof (cases ao)
    case None
    then have "s' = s" using ao run by (simp add: handle_event_def ebind_def eget_def adapter_of_def eret_def)
    then show ?thesis by (simp add: calls_same)
  next
    case (Some a)
    with ao have a: "get_adapter s (ev_provider ev) = Some a" by (simp add: adapter_of_def)
    show ?thesis
      by (rule event_run [OF run a, of "\<lambda>_. True"]) (auto simp: only_calls_def calls_within_def Some elim!: list.pred_mono_strong)
  qed
qed

lemma direct_task:
  "direct.keeps (on_adapter ao (task_call t)) (task_provider t) ao (task_effect cfg env t)"
  by (cases t) (simp_all del: task_call.simps add: direct_proactive direct_trigger direct_event)


section \<open>From a request to the chat\<close>

definition run_tasks :: "settings \<Rightarrow> router_env \<Rightarrow> nat \<Rightarrow> app \<Rightarrow> app" where
  "run_tasks cfg env n = (run_next_task cfg env ^^ n)"

text \<open>The calls a queue of tasks may make, with the adapters that are registered.\<close>

definition tasks_call :: "router \<Rightarrow> task list \<Rightarrow> chat_call \<Rightarrow> bool" where
  "tasks_call rt ts c \<longleftrightarrow> list_ex (\<lambda>t. on_adapter (get_adapter rt (task_provider t)) (task_call t) c) ts"

lemma run_next_task_calls:
  assumes "ap_tasks s = t # ts"
  shows "ap_tasks (run_next_task cfg env s) = ts \<and>
    calls_within (tasks_call (ap_router s) [t]) (ap_router s) (ap_router (run_next_task cfg env s))"
proof -
  let ?ao = "get_adapter (ap_router s) (task_provider t)"
  obtain r rt where run: "task_effect cfg env t (ap_router s) = (r, rt)" by fastforce
  have "calls_within (on_adapter ?ao (task_call t)) (ap_router s) rt"
    using direct.keepsD [OF direct_task run] by (simp add: adapter_of_def)
  moreover have "run_next_task cfg env s = s\<lparr>ap_tasks := ts, ap_router := rt\<rparr>"
    using assms run by (auto simp: run_next_task_def on_router_def etry_def ecatch_def eret_def split: sum.split)
  ultimately show ?thesis by (simp add: tasks_call_def [abs_def])
qed

lemma tasks_call_cong:
  "rt_registry t = rt_registry s \<Longrightarrow> rt_mattermost t = rt_mattermost s \<Longrightarrow> tasks_call t ts = tasks_call s ts"
  by (simp add: tasks_call_def [abs_def] get_adapter_def cong: if_cong option.case_cong)

lemma run_tasks_calls: "calls_within (tasks_call (ap_router s) (ap_tasks s)) (ap_router s) (ap_router (run_tasks cfg env n s))"
proof (induction n arbitrary: s)
  case 0
  show ?case by (simp add: run_tasks_def calls_same)
next
  case (Suc n)
  let ?t = "run_next_task cfg env s"
  have run: "run_tasks cfg env (Suc n) s = run_tasks cfg env n ?t" by (simp add: run_tasks_def funpow_swap1)
  show ?case
  proof (cases "ap_tasks s")
    case Nil
    then have "?t = s" by (simp add: run_next_task_def)
    with Suc [of s] run show ?thesis by simp
  next
    case (Cons x ts)
    from run_next_task_calls [OF Cons, of cfg env] have t: "ap_tasks ?t = ts"
      "calls_within (tasks_call (ap_router s) [x]) (ap_router s) (ap_router ?t)" by auto
    then have same: "tasks_call (ap_router ?t) ts = tasks_call (ap_router s) ts"
      by (intro tasks_call_cong) (simp_all add: calls_within_def)
    have mono: "calls_within P u v \<Longrightarrow> (\<And>c. P c \<Longrightarrow> Q c) \<Longrightarrow> calls_within Q u v" for P Q u v
      by (auto simp: calls_within_def elim!: list.pred_mono_strong)
    have "calls_within (tasks_call (ap_router s) (x # ts)) (ap_router ?t) (ap_router (run_tasks cfg env n ?t))"
      using Suc [of ?t] unfolding t(1) same by (rule mono) (simp add: tasks_call_def)
    moreover have "calls_within (tasks_call (ap_router s) (x # ts)) (ap_router s) (ap_router ?t)"
      using t(2) by (rule mono) (simp add: tasks_call_def)
    ultimately show ?thesis unfolding run Cons using direct.trans by blast
  qed
qed


text \<open>
  Property C16. What the endpoints leave to the background is well typed: any requests only append tasks to
  the queue, and each of them either handles an event of Bitrix24 or Teams with a user, a
  conversation and a text that is not blank, or names a supported provider by its canonical name; no
  endpoint makes a chat call itself or touches the registered adapters.
\<close>

theorem queued_tasks_are_typed:
  "\<exists>ts. ap_tasks (snd (serve_all cfg env rqs s)) = ap_tasks s @ ts \<and> list_all task_ok ts \<and>
     no_calls (ap_router s) (ap_router (snd (serve_all cfg env rqs s)))"
  using served_tasks [of s cfg env rqs] by (auto simp: queues_def)


definition demo_app :: app where
  "demo_app = \<lparr>hc_sent = [], ap_router = demo_router SlackAdapter, ap_teams = None, ap_tasks = []\<rparr>"

definition demo_settings :: settings where
  "demo_settings = default_settings\<lparr>api_token := ''t0ken''\<rparr>"

definition demo_api :: api_env where
  "demo_api = \<lparr>ae_router = demo_env, ae_net = (\<lambda>n rq. Raise (HTTPError ''down'')),
     ae_jwt = (\<lambda>u t a i. Raise PyValueError), ae_nfkc = (\<lambda>_. True)\<rparr>"

definition demo_notify :: "string \<Rightarrow> api_request" where
  "demo_notify tok = NotifyReq \<lparr>ac_token = Some tok, ac_external_user_id = ''slack:U1'', ac_provider = '' Slack'',
     ac_text = ''Reminder'', ac_session_key = None\<rparr>"

abbreviation "demo_served \<equiv> serve_all demo_settings demo_api [demo_notify ''guess'', demo_notify ''t0ken''] demo_app"


section \<open>Outcomes of a control-plane call\<close>

lemma lookup_errors:
  assumes "fst (get_instance_by_external_id cfg now d ext provider m) = Inl e"
  shows "\<nexists>st detail. e = HTTPException st detail"
proof -
  have v: "validate_provider p = Inl e' \<Longrightarrow> \<exists>q. e' = UnsupportedProviderError q" for p e'
    by (auto simp: validate_provider_def Let_def split: if_split_asm)
  have c: "cache_version d' = Inl e' \<Longrightarrow> e' = PyTypeError \<or> (\<exists>m. e' = PyRuntimeError m)" for d' e'
    by (auto simp: cache_version_def state_upsert_def bind_result_def split: option.splits sum.splits if_split_asm)
  have o: "one_or_none xs = Inl e' \<Longrightarrow> \<exists>m. e' = PyException m" for xs :: "(string \<times> instance_row) list" and e'
    by (auto simp: one_or_none_def split: list.splits)
  from assms show ?thesis
    by (auto simp: get_instance_by_external_id_def Let_def dest: v c o split: sum.splits prod.splits option.splits)
qed

text \<open>The lookup a control-plane call makes, with the \<open>k\<close>-th reading of the clock.\<close>

definition external_lookup ::
    "settings \<Rightarrow> router_env \<Rightarrow> nat \<Rightarrow> router \<Rightarrow> string \<Rightarrow> string \<Rightarrow> (string \<times> instance_info) result" where
  "external_lookup cfg env k rt ext provider =
     (if re_db_up env then fst (get_instance_by_external_id cfg (re_clock env k) (rt_db rt) ext provider (rt_mapping rt))
      else Raise (PyException ''database unavailable''))"

definition lookup_status :: "'a result \<Rightarrow> nat" where
  "lookup_status r = (case r of Inr _ \<Rightarrow> 200 | Inl (UnsupportedProviderError _) \<Rightarrow> 400
     | Inl (InstanceNotFoundError _) \<Rightarrow> 404 | Inl _ \<Rightarrow> 500)"

lemma resolve_external_run:
  assumes "external_lookup cfg env (rt_ticks (ap_router s)) (ap_router s) ext p = r"
  obtains s1 where "ap_tasks s1 = ap_tasks s"
    "case r of Inr x \<Rightarrow> resolve_external cfg env ext p missing s = (Ok x, s1)
     | Inl e \<Rightarrow> (\<exists>e'. resolve_external cfg env ext p missing s = (Inl e', s1) \<and> rp_status (exception_reply e') = lookup_status r)"
proof -
  obtain q m where q: "get_instance_by_external_id cfg (re_clock env (rt_ticks (ap_router s))) (rt_db (ap_router s)) ext p
      (rt_mapping (ap_router s)) = (q, m)" by fastforce
  let ?rt = "ap_router s\<lparr>rt_ticks := Suc (rt_ticks (ap_router s))\<rparr>"
  let ?s1 = "s\<lparr>ap_router := if re_db_up env then ?rt\<lparr>rt_mapping := m\<rparr> else ?rt\<rparr>"
  have r: "r = (if re_db_up env then q else Raise (PyException ''database unavailable''))"
    using assms q by (auto simp: external_lookup_def)
  have run: "resolve_external cfg env ext p missing s = (case r of
       Inr x \<Rightarrow> (Ok x, ?s1)
     | Inl (UnsupportedProviderError p) \<Rightarrow> (Raise (HTTPException 400 (''Provider is not enabled: '' @ repr_str p)), ?s1)
     | Inl (InstanceNotFoundError m) \<Rightarrow> (Raise (HTTPException 404 (missing @ repr_str ext)), ?s1)
     | Inl e \<Rightarrow> (Inl e, ?s1))"
    using q unfolding r
    by (auto simp: resolve_external_def on_router_def ebind_def tick_def db_call_def eret_def eraise_def
        split: sum.splits exn.splits)
  show thesis
  proof (rule that [of ?s1])
    show "case r of Inr x \<Rightarrow> resolve_external cfg env ext p missing s = (Ok x, ?s1)
     | Inl e \<Rightarrow> (\<exists>e'. resolve_external cfg env ext p missing s = (Inl e', ?s1) \<and> rp_status (exception_reply e') = lookup_status r)"
    proof (cases r)
      case (Inl e)
      have "\<nexists>st detail. e = HTTPException st detail"
      proof (cases "re_db_up env")
        case True
        with q Inl r have "fst (get_instance_by_external_id cfg (re_clock env (rt_ticks (ap_router s))) (rt_db (ap_router s)) ext p
          (rt_mapping (ap_router s))) = Inl e" by simp
        then show ?thesis by (rule lookup_errors)
      qed (use Inl r in auto)
      with Inl run show ?thesis by (cases e) (simp_all add: lookup_status_def exception_reply_def)
    qed (simp add: run)
  qed simp
qed

lemma check_api_token_passes:
  "token_ok cfg tok \<Longrightarrow> is_ascii (api_token cfg) \<Longrightarrow> check_api_token cfg tok s = (Ok (), s)"
  by (auto simp: check_api_token_def token_ok_def compare_digest_def ebind_def elift_def eret_def)



definition demo_call :: api_call where
  "demo_call = \<lparr>ac_token = Some ''t0ken'', ac_external_user_id = ''slack:U1'', ac_provider = '' Slack'',
     ac_text = ''Report'', ac_session_key = None\<rparr>"


section \<open>What the endpoints miss\<close>

lemma jor_texts:
  "a = JNull \<or> is_str a \<Longrightarrow> b = JNull \<or> is_str b \<Longrightarrow> jor (jor a b) (JObj []) = JObj [] \<or> is_str (jor (jor a b) (JObj []))"
  by (auto simp: jor_def)

lemma bx_parse_form: "bx_parse cfg (form_payload form) \<noteq> Ok (Inr ev)"
proof
  assume run: "bx_parse cfg (form_payload form) = Ok (Inr ev)"
  obtain d where d: "form_payload form = JObj d" by (simp add: form_payload_def)
  let ?g = "\<lambda>k. case dict_get d k of None \<Rightarrow> JNull | Some v \<Rightarrow> v"
  have str: "?g k = JNull \<or> is_str (?g k)" for k
    using form_payload_text [OF d, of k] by (cases "dict_get d k") auto
  have no: "jget j k = Ok v \<Longrightarrow> \<not> is_str j" for j k v by (cases j) auto
  obtain p1 where p1: "jget (jor (jor (?g ''data'') (?g ''DATA'')) (JObj [])) ''PARAMS'' = Ok p1"
    using run d by (auto simp: bx_parse_def Let_def bind_result_def split: sum.splits)
  then have "jor (jor (?g ''data'') (?g ''DATA'')) (JObj []) = JObj []"
    using jor_texts [OF str str, of "''data''" "''DATA''"] no by blast
  with p1 run d obtain u where u: "p1 = JNull" "jget (jor (jor p1 (?g ''PARAMS'')) (JObj [])) ''FROM_USER_ID'' = Ok u"
    and run': "Ok (Inr ev) = bx_parse cfg (form_payload form)"
    "jor (jor (?g ''data'') (?g ''DATA'')) (JObj []) = JObj []"
    by (auto simp: bx_parse_def Let_def bind_result_def dict_get_def split: sum.splits)
  then have "jor (jor p1 (?g ''PARAMS'')) (JObj []) = JObj []"
    using jor_texts [OF _ str, of JNull "''PARAMS''"] no by blast
  with run' u d show False
    by (simp add: bx_parse_def Let_def dict_get_def or_empty_def jor_def jempty_def split: if_split_asm)
qed

text \<open>
  A form-encoded Bitrix24 event is never handled: its fields are texts under the keys of the form, and
  the handler looks for nested objects, so whatever the form holds no task is queued.
\<close>

theorem form_events_are_ignored:
  assumes "\<not> bc_is_json rq"
  shows "ap_tasks (snd (serve (bitrix_webhook_event cfg rq) s)) = ap_tasks s"
proof -
  note none = bx_parse_form [of cfg "bc_form rq"]
  show ?thesis using assms none
    by (auto simp: serve_def bitrix_webhook_event_def ebind_def elift_def eret_def eraise_def eseq_def
        split: sum.splits prod.splits if_split_asm)
qed

text \<open>
  The reload endpoint does not bring in an external edit of the database: it drops the entries of
  older versions only, and an edit made with plain SQL leaves the version as it was. Here the URL
  of an instance is changed, the reload is acknowledged, and the old URL is still what is found.
\<close>

definition edited_app :: app where
  "edited_app = (let rt = demo_router SlackAdapter;
       m = snd (get_instance_by_identity default_settings 5 (rt_db rt) ''slack'' ''U1'' (rt_mapping rt));
       d = (rt_db rt)\<lparr>instances := map (\<lambda>(i, row). (i, row\<lparr>row_instance_url := ''ws://new:1''\<rparr>)) (instances (rt_db rt))\<rparr>
     in demo_app\<lparr>ap_router := rt\<lparr>rt_db := d, rt_mapping := m\<rparr>\<rparr>)"

theorem reload_keeps_stale_entries:
  "\<exists>s. rp_status (fst s) = 200 \<and> s = serve (reload_mappings demo_settings demo_env (Some ''t0ken'')) edited_app \<and>
     map row_instance_url (query_by_identity (rt_db (ap_router (snd s))) ''slack'' ''U1'') = [''ws://new:1''] \<and>
     fst (get_instance_by_identity default_settings 6 (rt_db (ap_router (snd s))) ''slack'' ''U1''
       (rt_mapping (ap_router (snd s)))) = Ok demo_info"
  by (rule exI [of _ "serve (reload_mappings demo_settings demo_env (Some ''t0ken'')) edited_app"], intro conjI, code_simp, rule refl,
      code_simp, code_simp)


end
