(* ===== verification/Sync.thy ===== *)
theory Sync
  imports Effects Provisioner
begin

text \<open>
  The maintenance script that brings the workspace template to existing instances
  (\<open>scripts/sync_workspace_templates.py\<close>). The volume is the disk with its directories and the shell
  commands that were run; the template is what \<open>os.walk\<close> yields, directory by directory. What the
  script prints is left out.
\<close>

section \<open>The volume\<close>

record volume = disk +
  vol_dirs :: "string list"
  vol_commands :: "string list"

type_synonym 'a vol = "(volume, 'a) eff"

text \<open>A directory exists when it was made, or by what lies in it.\<close>

definition under :: "string \<Rightarrow> string \<Rightarrow> bool" where
  "under dir p \<longleftrightarrow> startswith p (path_join dir '''')"

definition is_dir :: "volume \<Rightarrow> string \<Rightarrow> bool" where
  "is_dir v p \<longleftrightarrow> list_ex (\<lambda>d. d = p \<or> under p d) (vol_dirs v) \<or> list_ex (\<lambda>(f, _). under p f) (contents v)"

definition path_exists :: "volume \<Rightarrow> string \<Rightarrow> bool" where
  "path_exists v p \<longleftrightarrow> is_dir v p \<or> dict_has (contents v) p"

text \<open>\<open>os.makedirs(p, exist_ok=True)\<close>: a file in the place of it or of a parent is an error.\<close>

definition make_dirs :: "string \<Rightarrow> unit vol" where
  "make_dirs p v =
     (if is_dir v p then (Ok (), v)
      else if list_ex (\<lambda>(f, _). f = p \<or> under f p) (contents v) then (Raise (OSErr p), v)
      else (Ok (), v\<lparr>vol_dirs := p # vol_dirs v\<rparr>))"

text \<open>Opening a directory for writing fails too.\<close>

definition write_file :: "string \<Rightarrow> string \<Rightarrow> unit vol" where
  "write_file p body v =
     (if p \<in> set (unwritable v) \<or> is_dir v p then (Raise (OSErr p), v)
      else (Ok (), v\<lparr>contents := dict_set (contents v) p body\<rparr>))"

text \<open>
  \<open>shutil.copytree\<close> of a directory to a new one: the files that cannot be written are left out (and
  the copy raises at the end).
\<close>

definition copy_tree :: "string \<Rightarrow> string \<Rightarrow> unit vol" where
  "copy_tree src dst v =
     (if \<not> is_dir v src then (Raise (OSErr src), v)
      else if path_exists v dst then (Raise (OSErr dst), v)
      else
        let moved = (\<lambda>p. dst @ drop (length src) p);
            copied = map (\<lambda>(p, c). (moved p, c)) (filter (\<lambda>(p, c). under src p) (contents v));
            ok = list_all (\<lambda>(p, c). p \<notin> set (unwritable v)) copied
        in (if ok then Ok () else Raise (OSErr dst),
            v\<lparr>contents := foldl (\<lambda>d (p, c). if p \<in> set (unwritable v) then d else dict_set d p c) (contents v) copied,
              vol_dirs := dst # map moved (filter (under src) (vol_dirs v)) @ vol_dirs v\<rparr>))"

section \<open>One instance\<close>

type_synonym walk = "(string \<times> template_file list) list"

definition sync_body :: "string \<Rightarrow> template_file \<Rightarrow> string" where
  "sync_body uuid f = (if tf_is_text f then py_replace (tf_body f) ''{{UUID}}'' uuid else tf_body f)"

definition sync_dir :: "string \<Rightarrow> string \<Rightarrow> string \<times> template_file list \<Rightarrow> nat vol" where
  "sync_dir uuid ws = (\<lambda>(rel_path, files).
     let target_dir = (if rel_path \<noteq> ''.'' then path_join ws rel_path else ws) in
     eseq (make_dirs target_dir)
      (ebind (emap (\<lambda>f. write_file (path_join target_dir (tf_name f)) (sync_body uuid f)) files) (\<lambda>us.
       eret (length us))))"

definition instance_workspace :: "string \<Rightarrow> string \<Rightarrow> string" where
  "instance_workspace base uuid = path_join (path_join base uuid) ''workspace''"

definition backup_dir :: "string \<Rightarrow> string \<Rightarrow> string \<Rightarrow> string" where
  "backup_dir base uuid timestamp = path_join (path_join base uuid) (''backups_'' @ timestamp)"

definition sync_instance_workspace :: "walk \<Rightarrow> string \<Rightarrow> string \<Rightarrow> bool \<Rightarrow> bool \<Rightarrow> string \<Rightarrow> nat vol" where
  "sync_instance_workspace template uuid base dry_run backup timestamp =
     (let ws = instance_workspace base uuid in
      if dry_run then eret 0
      else
        ebind (eget (\<lambda>v. path_exists v ws)) (\<lambda>found.
        eseq (if found then eret () else make_dirs ws)
       (eseq (if backup then etry (copy_tree ws (backup_dir base uuid timestamp)) (\<lambda>_. eret ()) else eret ())
         (ebind (emap (sync_dir uuid ws) template) (\<lambda>ns. eret (sum_list ns))))))"

section \<open>All instances\<close>

text \<open>\<open>os.listdir\<close>, in some order.\<close>

definition list_dir :: "string \<Rightarrow> string list vol" where
  "list_dir p v =
     (if is_dir v p then
        (Ok (remdups (map (\<lambda>q. takeWhile (\<lambda>c. c \<noteq> slash) (drop (length (path_join p '''')) q))
           (filter (under p) (vol_dirs v @ map fst (contents v))))), v)
      else (Raise (OSErr p), v))"

definition discover_instance_uuids :: "string \<Rightarrow> string list vol" where
  "discover_instance_uuids base =
     ebind (eget (\<lambda>v. path_exists v base)) (\<lambda>found.
     if \<not> found then eret []
     else
       ebind (list_dir base) (\<lambda>entries.
       eget (\<lambda>v. filter (\<lambda>e. is_dir v (path_join base e) \<and> \<not> startswith e ''.'' \<and> \<not> startswith e ''backups'') entries)))"

record sync_args =
  sa_all :: bool
  sa_instance_uuid :: string
  sa_template_dir :: string
  sa_base_path :: string
  sa_dry_run :: bool
  sa_no_backup :: bool
  sa_restart_containers :: bool
  sa_container_prefix :: string

definition restart_command :: "sync_args \<Rightarrow> string \<Rightarrow> string" where
  "restart_command args uuid = ''docker restart '' @ sa_container_prefix args @ uuid @ '' >/dev/null 2>&1''"

fun sync_all :: "sync_args \<Rightarrow> walk \<Rightarrow> string \<Rightarrow> (nat \<Rightarrow> string) \<Rightarrow> nat \<Rightarrow> string list \<Rightarrow> nat vol" where
  "sync_all args template base clock n [] = eret 0"
| "sync_all args template base clock n (uuid # uuids) =
     eseq (sync_instance_workspace template uuid base (sa_dry_run args) (\<not> sa_no_backup args) (clock n))
    (eseq (if sa_restart_containers args \<and> \<not> sa_dry_run args
           then emod (\<lambda>v. v\<lparr>vol_commands := vol_commands v @ [restart_command args uuid]\<rparr>) else eret ())
      (ebind (sync_all args template base clock (Suc n) uuids) (\<lambda>count. eret (Suc count))))"

text \<open>The number of instances, or the exit status 1; \<open>walk_of\<close> is the template tree at a path, if any.\<close>

definition sync_main :: "string \<Rightarrow> (string \<Rightarrow> walk option) \<Rightarrow> (nat \<Rightarrow> string) \<Rightarrow> sync_args \<Rightarrow> (nat + nat) vol" where
  "sync_main cwd walk_of clock args =
     (if \<not> sa_all args \<and> sa_instance_uuid args = [] then eret (Inl 1)
      else
        let template_dir = normpath (path_join cwd (sa_template_dir args));
            base = normpath (path_join cwd (sa_base_path args))
        in case walk_of template_dir of
             None \<Rightarrow> eret (Inl 1)
           | Some template \<Rightarrow>
               ebind (if sa_instance_uuid args \<noteq> [] then eret [sa_instance_uuid args]
                      else discover_instance_uuids base) (\<lambda>uuids.
               ebind (sync_all args template base clock 0 uuids) (\<lambda>count. eret (Inr count))))"


section \<open>What a sync writes\<close>

text \<open>Outside the given directories every file keeps its content.\<close>

definition outside :: "string set \<Rightarrow> volume \<Rightarrow> volume \<Rightarrow> bool" where
  "outside ds v v' \<longleftrightarrow> (\<forall>p. (\<forall>d\<in>ds. \<not> under d p) \<longrightarrow> dict_get (contents v') p = dict_get (contents v) p)"

interpretation sync: frame "outside ds" "\<lambda>_. True" for ds
  by unfold_locales (simp_all add: outside_def)

lemma path_join_assoc: "\<not> startswith c ''/'' \<Longrightarrow> under (path_join b c) p \<Longrightarrow> under b p"
  by (auto simp: under_def path_join_def startswith_iff endswith_iff split: if_splits)

lemma under_workspace: "under (instance_workspace base uuid) p \<Longrightarrow> under (path_join base uuid) p"
  unfolding instance_workspace_def by (erule path_join_assoc [rotated]) (simp add: startswith_iff)

lemma under_backup: "under (backup_dir base uuid ts) p \<Longrightarrow> under (path_join base uuid) p"
  unfolding backup_dir_def by (erule path_join_assoc [rotated]) (simp add: startswith_iff)

lemma make_dirs_contents: "make_dirs p v = (r, v') \<Longrightarrow> contents v' = contents v"
  by (auto simp: make_dirs_def split: if_splits)

lemma keeps_make_dirs: "sync.keeps ds (make_dirs p)"
  by (rule sync.keepsI) (simp add: outside_def make_dirs_contents)

lemma keeps_write_file:
  assumes "d \<in> ds" "under d p"
  shows "sync.keeps ds (write_file p body)"
  using assms by (intro sync.keepsI) (auto simp: outside_def write_file_def split: if_splits)

lemma copied_other:
  "q \<notin> fst ` set cs \<Longrightarrow>
   dict_get (foldl (\<lambda>d (p, c). if p \<in> U then d else dict_set d p c) d cs) q = dict_get d q"
  by (induction cs arbitrary: d) (auto split: prod.splits)

lemma copied_entry:
  assumes "distinct (map fst cs)" "(q, c) \<in> set cs" "q \<notin> U"
  shows "dict_get (foldl (\<lambda>d (p, c). if p \<in> U then d else dict_set d p c) d cs) q = Some c"
  using assms
proof (induction cs arbitrary: d)
  case (Cons x cs)
  obtain p b where x: "x = (p, b)" by fastforce
  show ?case
  proof (cases "(q, c) = x")
    case True
    then show ?thesis using Cons.prems x by (auto simp: copied_other)
  next
    case False
    then show ?thesis using Cons x by auto
  qed
qed simp

text \<open>Moving a path from one directory to another keeps it apart from other paths of its directory.\<close>

lemma moved_under:
  assumes "\<not> endswith src ''/''" "\<not> endswith dst ''/''" "src \<noteq> []" "dst \<noteq> []" "under src p"
  obtains r where "p = src @ ''/'' @ r" "dst @ drop (length src) p = dst @ ''/'' @ r"
    "under dst (dst @ drop (length src) p)"
  using assms by (auto simp: under_def path_join_def startswith_iff)

lemma copy_tree_spec:
  assumes run: "copy_tree src dst v = (r, v')"
    and ends: "\<not> endswith src ''/''" "\<not> endswith dst ''/''" "src \<noteq> []" "dst \<noteq> []"
  shows "outside {dst} v v' \<and> unwritable v' = unwritable v"
    and "is_dir v src \<Longrightarrow> \<not> path_exists v dst \<Longrightarrow> dict_ok (contents v) \<Longrightarrow> under src p \<Longrightarrow>
      dict_get (contents v) p = Some c \<Longrightarrow> dst @ drop (length src) p \<notin> set (unwritable v) \<Longrightarrow>
      dict_get (contents v') (dst @ drop (length src) p) = Some c"
proof -
  define copied where "copied = map (\<lambda>(p, c). (dst @ drop (length src) p, c)) (filter (\<lambda>(p, c). under src p) (contents v))"
  have v': "v' = v \<or> (contents v' = foldl (\<lambda>d (p, c). if p \<in> set (unwritable v) then d else dict_set d p c) (contents v) copied
      \<and> unwritable v' = unwritable v)"
    using run by (auto simp: copy_tree_def copied_def Let_def split: if_splits)
  have "q \<notin> fst ` set copied" if "\<not> under dst q" for q
    using that moved_under [OF ends] by (force simp: copied_def)
  then show "outside {dst} v v' \<and> unwritable v' = unwritable v"
    using v' unfolding outside_def by (auto simp: copied_other)
  assume new: "is_dir v src" "\<not> path_exists v dst" and ok: "dict_ok (contents v)"
    and p: "under src p" "dict_get (contents v) p = Some c" "dst @ drop (length src) p \<notin> set (unwritable v)"
  have c': "contents v' = foldl (\<lambda>d (p, c). if p \<in> set (unwritable v) then d else dict_set d p c) (contents v) copied"
    using run new by (auto simp: copy_tree_def copied_def Let_def)
  have "inj_on (\<lambda>p. dst @ drop (length src) p) (fst ` set (filter (\<lambda>(p, c). under src p) (contents v)))"
  proof (rule inj_onI)
    fix x y assume xy: "x \<in> fst ` set (filter (\<lambda>(p, c). under src p) (contents v))"
      "y \<in> fst ` set (filter (\<lambda>(p, c). under src p) (contents v))"
      "dst @ drop (length src) x = dst @ drop (length src) y"
    then obtain a b where "x = src @ ''/'' @ a" "y = src @ ''/'' @ b"
      using moved_under [OF ends, of x] moved_under [OF ends, of y] by force
    then show "x = y" using xy(3) by simp
  qed
  moreover have "distinct (map fst (filter (\<lambda>(p, c). under src p) (contents v)))"
    using ok by (simp add: dict_ok_def distinct_map_filter)
  ultimately have "distinct (map (\<lambda>p. dst @ drop (length src) p) (map fst (filter (\<lambda>(p, c). under src p) (contents v))))"
    by (simp only: distinct_map set_map)
  then have "distinct (map fst copied)"
    by (simp add: copied_def comp_def case_prod_beta)
  moreover have "(dst @ drop (length src) p, c) \<in> set copied"
    using p(1) dict_get_in_set [OF p(2)] by (force simp: copied_def)
  ultimately show "dict_get (contents v') (dst @ drop (length src) p) = Some c"
    using p(3) unfolding c' by (intro copied_entry) auto
qed

text \<open>What \<open>os.walk\<close> yields: every file in the entry of its directory, with plain names.\<close>

definition walk_ok :: "walk \<Rightarrow> bool" where
  "walk_ok template = list_all (\<lambda>(rel, fs). list_all (\<lambda>f. walked f \<and> tf_dir f = rel) fs) template"

lemma instance_workspace_end: "instance_workspace base uuid \<noteq> [] \<and> \<not> endswith (instance_workspace base uuid) ''/''"
  using workspace_dir_end [of "default_settings\<lparr>workspace_base_path := base\<rparr>"]
  by (simp add: workspace_dir_def instance_workspace_def)

lemma backup_dir_end:
  assumes "slash \<notin> set ts"
  shows "backup_dir base uuid ts \<noteq> [] \<and> \<not> endswith (backup_dir base uuid ts) ''/''"
proof -
  have "\<exists>a. backup_dir base uuid ts = a @ ''backups_'' @ ts"
    unfolding backup_dir_def path_join_def [of "path_join base uuid"]
    by (auto simp: startswith_iff intro: exI [of _ "[]"] exI [of _ "path_join base uuid @ ''/''"])
  then obtain a where a: "backup_dir base uuid ts = a @ ''backups_'' @ ts" by blast
  have "last (''backups_'' @ ts) \<in> set (''backups_'' @ ts)" by (rule last_in_set) simp
  then have "last (''backups_'' @ ts) \<noteq> slash" using assms by (auto simp: slash_def)
  moreover have "last (backup_dir base uuid ts) = last (''backups_'' @ ts)" unfolding a by (rule last_appendR) simp
  ultimately have "last (backup_dir base uuid ts) \<noteq> slash" by metis
  then have "\<not> endswith (backup_dir base uuid ts) ''/''" by (auto simp: endswith_iff slash_def)
  then show ?thesis unfolding a by simp
qed

lemma below_under: "below dir p \<Longrightarrow> dir \<noteq> [] \<Longrightarrow> \<not> endswith dir ''/'' \<Longrightarrow> under dir p"
  by (auto simp: below_def under_def path_join_def startswith_iff)

lemma keeps_sync_dir:
  assumes "list_all (\<lambda>f. walked f \<and> tf_dir f = rel) fs" "ws \<noteq> []" "\<not> endswith ws ''/''" "ws \<in> ds"
  shows "sync.keeps ds (sync_dir uuid ws (rel, fs))"
proof -
  have "under ws (path_join (if rel \<noteq> ''.'' then path_join ws rel else ws) (tf_name f))" if "f \<in> set fs" for f
    using assms(1-3) that walked_path [of f ws] by (auto simp: list_all_iff intro!: below_under)
  then show ?thesis
    unfolding sync_dir_def Let_def prod.case
    using assms(4) by (intro sync.keeps_rules keeps_make_dirs) (blast intro: keeps_write_file)
qed

lemma keeps_sync_dirs:
  assumes "walk_ok template"
  shows "sync.keeps {instance_workspace base uuid} (emap (sync_dir uuid (instance_workspace base uuid)) template)"
proof (rule sync.keeps_map)
  fix x assume x: "x \<in> set template"
  obtain rel fs where eq: "x = (rel, fs)" by fastforce
  have "list_all (\<lambda>f. walked f \<and> tf_dir f = rel) fs" using assms x eq by (auto simp: walk_ok_def list_all_iff)
  then show "sync.keeps {instance_workspace base uuid} (sync_dir uuid (instance_workspace base uuid) x)"
    unfolding eq using keeps_sync_dir instance_workspace_end by blast
qed

lemma outside_mono: "outside ds v v' \<Longrightarrow> ds \<subseteq> ds' \<Longrightarrow> outside ds' v v'"
  by (auto simp: outside_def)

text \<open>
  A sync that is not a dry run: the workspace is there afterwards, then the backup is made, then the
  template is copied.
\<close>

lemma sync_instance_cases:
  assumes "sync_instance_workspace template uuid base False backup ts v = (r, v')"
  obtains (no_dir) "\<not> path_exists v (instance_workspace base uuid)" "contents v' = contents v" "\<exists>e. r = Inl e"
  | (copied) v1 v2 r1 r2 where
      "v1 = v \<and> path_exists v (instance_workspace base uuid) \<or>
       \<not> path_exists v (instance_workspace base uuid) \<and> make_dirs (instance_workspace base uuid) v = (Ok (), v1)"
      "(if backup then copy_tree (instance_workspace base uuid) (backup_dir base uuid ts) v1 = (r1, v2) else v2 = v1)"
      "emap (sync_dir uuid (instance_workspace base uuid)) template v2 = (r2, v')"
      "r = (case r2 of Inl e \<Rightarrow> Inl e | Inr ns \<Rightarrow> Inr (sum_list ns))"
proof -
  let ?ws = "instance_workspace base uuid"
  let ?rest = "\<lambda>w. ebind (emap (sync_dir uuid ?ws) template) (\<lambda>ns. eret (sum_list ns)) w"
  obtain r0 v1 where m: "(if path_exists v ?ws then eret () else make_dirs ?ws) v = (r0, v1)" by fastforce
  obtain r1 v2 where c: "copy_tree ?ws (backup_dir base uuid ts) v1 = (r1, v2)" by fastforce
  show thesis
  proof (cases r0)
    case (Inl e)
    then have "\<not> path_exists v ?ws" "contents v1 = contents v" "r = Inl e" "v' = v1"
      using assms m make_dirs_contents [of ?ws v r0 v1]
      by (auto simp: sync_instance_workspace_def Let_def ebind_def eget_def eseq_def eret_def split: if_splits)
    then show thesis by (intro no_dir) simp_all
  next
    case (Inr u)
    then have rest: "?rest (if backup then v2 else v1) = (r, v')"
      using assms m c
      by (auto simp: sync_instance_workspace_def Let_def ebind_def eget_def eseq_def eret_def etry_def ecatch_def
          split: if_splits sum.splits prod.splits)
    obtain r2 v3 where e: "emap (sync_dir uuid ?ws) template (if backup then v2 else v1) = (r2, v3)" by fastforce
    have "v3 = v'" "r = (case r2 of Inl e \<Rightarrow> Inl e | Inr ns \<Rightarrow> Inr (sum_list ns))"
      using rest e by (auto simp: ebind_def eret_def split: sum.splits)
    moreover have "v1 = v \<and> path_exists v ?ws \<or> \<not> path_exists v ?ws \<and> make_dirs ?ws v = (Ok (), v1)"
      using m Inr by (auto simp: eret_def split: if_splits)
    ultimately show thesis using c e by (intro copied [of v1 r1 "if backup then v2 else v1" r2]) auto
  qed
qed

lemma made_dir_state:
  assumes "v1 = v \<and> b \<or> b' \<and> make_dirs p v = (Ok (), v1)"
  shows "contents v1 = contents v \<and> unwritable v1 = unwritable v"
  using assms by (auto simp: make_dirs_def split: if_splits)

lemma sync_instance_outside:
  assumes run: "sync_instance_workspace template uuid base dry_run backup ts v = (r, v')"
    and walk: "walk_ok template" and ts: "slash \<notin> set ts"
  shows "if dry_run then v' = v
    else outside (insert (instance_workspace base uuid) (if backup then {backup_dir base uuid ts} else {})) v v'"
proof (cases dry_run)
  case True
  then show ?thesis using run by (simp add: sync_instance_workspace_def eret_def)
next
  case False
  let ?D = "insert (instance_workspace base uuid) (if backup then {backup_dir base uuid ts} else {})"
  have "sync_instance_workspace template uuid base False backup ts v = (r, v')" using run False by simp
  then have "outside ?D v v'"
  proof (cases rule: sync_instance_cases)
    case no_dir
    then show ?thesis by (simp add: outside_def)
  next
    case (copied v1 v2 r1 r2)
    have "outside ?D v v1" using made_dir_state [OF copied(1)] by (simp add: outside_def)
    moreover have "outside ?D v1 v2"
    proof (cases backup)
      case True
      then show ?thesis
        using copied(2) copy_tree_spec(1) [of "instance_workspace base uuid" "backup_dir base uuid ts" v1 r1 v2]
          instance_workspace_end backup_dir_end [OF ts]
        by (auto intro: outside_mono)
    next
      case False
      then show ?thesis using copied(2) by (simp add: outside_def)
    qed
    moreover have "outside ?D v2 v'"
      using sync.keepsD [OF keeps_sync_dirs [OF walk] copied(3)] outside_mono by blast
    ultimately show ?thesis using sync.trans [of ?D v v1 v2] sync.trans [of ?D v v2 v'] by blast
  qed
  with False show ?thesis by simp
qed

text \<open>The backup directory lies beside the workspace.\<close>

lemma backup_not_in_workspace: "\<not> under (instance_workspace base uuid) (backup_dir base uuid ts @ s)"
proof
  assume u: "under (instance_workspace base uuid) (backup_dir base uuid ts @ s)"
  have "\<exists>a. instance_workspace base uuid = a @ ''workspace'' \<and> backup_dir base uuid ts = a @ ''backups_'' @ ts"
    unfolding instance_workspace_def backup_dir_def path_join_def [of "path_join base uuid"]
    by (auto simp: startswith_iff intro: exI [of _ "[]"] exI [of _ "path_join base uuid @ ''/''"])
  then obtain a where "instance_workspace base uuid = a @ ''workspace''" "backup_dir base uuid ts = a @ ''backups_'' @ ts"
    by blast
  with u show False
    using instance_workspace_end [of base uuid] by (auto simp: under_def path_join_def startswith_iff)
qed

text \<open>The files of the template as \<open>copy_template\<close> writes them when nothing is in the way.\<close>

definition target :: "string \<Rightarrow> template_file \<Rightarrow> string" where
  "target ws f = path_join (if tf_dir f = ''.'' then ws else path_join ws (tf_dir f)) (tf_name f)"

definition pasted ::
    "(string \<Rightarrow> string) \<Rightarrow> string \<Rightarrow> template_file list \<Rightarrow> (string, string) dict \<Rightarrow> (string, string) dict" where
  "pasted subst ws fs c =
     foldl (\<lambda>c f. dict_set c (target ws f) (if tf_is_text f then subst (tf_body f) else tf_body f)) c fs"

lemma pasted_simps [simp]:
  "pasted subst ws [] c = c"
  "pasted subst ws (f # fs) c =
    pasted subst ws fs (dict_set c (target ws f) (if tf_is_text f then subst (tf_body f) else tf_body f))"
  "pasted subst ws (fs @ gs) c = pasted subst ws gs (pasted subst ws fs c)"
  by (simp_all add: pasted_def)

lemma copy_template_pasted:
  "list_all (\<lambda>f. target ws f \<notin> set (unwritable dk)) fs \<Longrightarrow>
   copy_template subst ws fs dk = dk\<lparr>contents := pasted subst ws fs (contents dk)\<rparr>"
  by (induction subst ws fs dk rule: copy_template.induct) (simp_all add: target_def Let_def)

abbreviation with_uuid :: "string \<Rightarrow> string \<Rightarrow> string" where
  "with_uuid uuid b \<equiv> py_replace b ''{{UUID}}'' uuid"

lemma write_files_pasted:
  assumes "emap (\<lambda>f. write_file (path_join (if rel \<noteq> ''.'' then path_join ws rel else ws) (tf_name f)) (sync_body uuid f)) fs v
      = (Inr us, v')" "list_all (\<lambda>f. walked f \<and> tf_dir f = rel) fs"
  shows "contents v' = pasted (with_uuid uuid) ws fs (contents v) \<and> unwritable v' = unwritable v \<and>
    length us = length fs \<and> list_all (\<lambda>f. target ws f \<notin> set (unwritable v)) fs"
  using assms
proof (induction fs arbitrary: v us)
  case (Cons f fs)
  let ?m = "\<lambda>f. write_file (path_join (if rel \<noteq> ''.'' then path_join ws rel else ws) (tf_name f)) (sync_body uuid f)"
  have rel: "tf_dir f = rel" using Cons.prems(2) by simp
  obtain v1 us' where w: "?m f v = (Inr (), v1)" "emap ?m fs v1 = (Inr us', v')" "length us = Suc (length us')"
    using Cons.prems(1) by (auto simp: ebind_def eret_def split: prod.splits sum.splits)
  have v1: "v1 = v\<lparr>contents := dict_set (contents v) (target ws f) (sync_body uuid f)\<rparr>"
      "target ws f \<notin> set (unwritable v)"
    using w(1) rel by (auto simp: write_file_def target_def split: if_splits)
  show ?case using Cons.IH [OF w(2)] Cons.prems(2) v1 w(3) by (auto simp: sync_body_def)
qed (simp add: eret_def)

lemma sync_dirs_pasted:
  assumes "emap (sync_dir uuid ws) template v = (Inr ns, v')" "walk_ok template"
  shows "contents v' = pasted (with_uuid uuid) ws (concat (map snd template)) (contents v) \<and>
    unwritable v' = unwritable v \<and> sum_list ns = length (concat (map snd template)) \<and>
    list_all (\<lambda>f. target ws f \<notin> set (unwritable v)) (concat (map snd template))"
  using assms
proof (induction template arbitrary: v ns)
  case (Cons x template)
  obtain rel fs where x: "x = (rel, fs)" by fastforce
  have ok: "list_all (\<lambda>f. walked f \<and> tf_dir f = rel) fs" "walk_ok template" using Cons.prems(2) x by (auto simp: walk_ok_def)
  obtain n ms v1 where d: "sync_dir uuid ws (rel, fs) v = (Inr n, v1)" "emap (sync_dir uuid ws) template v1 = (Inr ms, v')"
      "ns = n # ms"
    using Cons.prems(1) x by (auto simp: ebind_def eret_def split: prod.splits sum.splits)
  obtain v0 us where w: "make_dirs (if rel \<noteq> ''.'' then path_join ws rel else ws) v = (Inr (), v0)" "n = length us"
      "emap (\<lambda>f. write_file (path_join (if rel \<noteq> ''.'' then path_join ws rel else ws) (tf_name f)) (sync_body uuid f)) fs v0
        = (Inr us, v1)"
    using d(1) by (auto simp: sync_dir_def Let_def eseq_def ebind_def eret_def split: prod.splits sum.splits)
  have v0: "contents v0 = contents v" "unwritable v0 = unwritable v"
    using w(1) by (auto simp: make_dirs_def split: if_splits)
  show ?case
    using write_files_pasted [OF w(3) ok(1)] Cons.IH [OF d(2) ok(2)] v0 w(2) d(3) x by simp
qed (simp add: eret_def)

text \<open>Replacing a text by itself.\<close>

lemma py_replace_self: "py_replace s old old = s"
proof (induction "length s" arbitrary: s rule: less_induct)
  case less
  show ?case
  proof (cases s)
    case (Cons c cs)
    show ?thesis
    proof (cases "old \<noteq> [] \<and> startswith s old")
      case True
      then have "length (drop (length old) s) < length s" by (cases old) (auto simp: Cons)
      with less True Cons startswith_drop [of s old] show ?thesis by (simp add: py_replace_Cons)
    next
      case False
      with less [of cs] Cons show ?thesis by (auto simp: py_replace_Cons)
    qed
  qed simp
qed

text \<open>A run over several instances changes only these.\<close>

definition in_instance :: "string \<Rightarrow> string \<Rightarrow> bool \<Rightarrow> string \<Rightarrow> bool" where
  "in_instance base uuid backup p \<longleftrightarrow> under (instance_workspace base uuid) p \<or>
     backup \<and> (\<exists>ts. slash \<notin> set ts \<and> under (backup_dir base uuid ts) p)"

lemma sync_all_changes:
  assumes "sync_all args template base clock n uuids v = (r, v')" "walk_ok template" "\<And>n. slash \<notin> set (clock n)"
  shows "if sa_dry_run args then v' = v
    else dict_get (contents v') p \<noteq> dict_get (contents v) p \<longrightarrow>
      (\<exists>uuid\<in>set uuids. in_instance base uuid (\<not> sa_no_backup args) p)"
  using assms(1)
proof (induction uuids arbitrary: n v r)
  case (Cons uuid uuids)
  obtain r1 v1 where s: "sync_instance_workspace template uuid base (sa_dry_run args) (\<not> sa_no_backup args) (clock n) v = (r1, v1)"
    by fastforce
  note one = sync_instance_outside [OF s assms(2,3)]
  have first: "if sa_dry_run args then v1 = v
      else dict_get (contents v1) p \<noteq> dict_get (contents v) p \<longrightarrow> in_instance base uuid (\<not> sa_no_backup args) p"
    using one assms(3) [of n] by (auto simp: outside_def in_instance_def split: if_splits)
  show ?case
  proof (cases r1)
    case (Inl e)
    then have "v' = v1" using Cons.prems s by (simp add: eseq_def ebind_def)
    with first show ?thesis by auto
  next
    case (Inr k)
    define v2 where "v2 = (if sa_restart_containers args \<and> \<not> sa_dry_run args
      then v1\<lparr>vol_commands := vol_commands v1 @ [restart_command args uuid]\<rparr> else v1)"
    obtain r2 v3 where rest: "sync_all args template base clock (Suc n) uuids v2 = (r2, v3)" by fastforce
    have "v3 = v'" using Cons.prems s Inr rest
      by (auto simp: eseq_def ebind_def eret_def emod_def v2_def split: if_splits sum.splits)
    moreover have "contents v2 = contents v1 \<and> (sa_dry_run args \<longrightarrow> v2 = v1)" by (simp add: v2_def)
    ultimately show ?thesis using Cons.IH [of "Suc n" v2 r2] rest first by (auto split: if_splits)
  qed
qed (simp add: eret_def)

lemma discover_names:
  assumes "discover_instance_uuids base v = (Inr uuids, v')"
  shows "v' = v \<and> (\<forall>u\<in>set uuids. slash \<notin> set u \<and> is_dir v (path_join base u) \<and>
    \<not> startswith u ''.'' \<and> \<not> startswith u ''backups'')"
proof -
  have "slash \<notin> set (takeWhile (\<lambda>c. c \<noteq> slash) q)" for q by (auto dest: set_takeWhileD)
  then show ?thesis using assms
    by (auto simp: discover_instance_uuids_def list_dir_def ebind_def eget_def eret_def split: if_splits)
qed

lemma discover_state: "snd (discover_instance_uuids base v) = v"
  by (simp add: discover_instance_uuids_def list_dir_def ebind_def eget_def eret_def)

section \<open>Properties of a sync\<close>

text \<open>
  A sync with backup into a new backup directory: whatever fails later, every file of
  the old workspace is in the backup with its old content, and every file that changed lies in the
  workspace or the backup of this instance.
\<close>

theorem sync_keeps_a_copy:
  assumes run: "sync_instance_workspace template uuid base False True ts v = (r, v')"
    and walk: "walk_ok template" and ts: "slash \<notin> set ts"
    and new: "\<not> path_exists v (backup_dir base uuid ts)" and ok: "dict_ok (contents v)"
    and p: "under (instance_workspace base uuid) p" "dict_get (contents v) p = Some c"
      "backup_dir base uuid ts @ drop (length (instance_workspace base uuid)) p \<notin> set (unwritable v)"
  shows "dict_get (contents v') (backup_dir base uuid ts @ drop (length (instance_workspace base uuid)) p) = Some c \<and>
    (dict_get (contents v') q \<noteq> dict_get (contents v) q \<longrightarrow>
       under (instance_workspace base uuid) q \<or> under (backup_dir base uuid ts) q)"
proof
  let ?ws = "instance_workspace base uuid"
  let ?bk = "backup_dir base uuid ts"
  show "dict_get (contents v') q \<noteq> dict_get (contents v) q \<longrightarrow> under ?ws q \<or> under ?bk q"
    using sync_instance_outside [OF run walk ts] by (auto simp: outside_def)
  have dir: "is_dir v ?ws"
    using p(1) dict_get_in_set [OF p(2)] by (auto simp: is_dir_def list_ex_iff)
  from run show "dict_get (contents v') (?bk @ drop (length ?ws) p) = Some c"
  proof (cases rule: sync_instance_cases)
    case no_dir
    then show ?thesis using dir by (simp add: path_exists_def)
  next
    case (copied v1 v2 r1 r2)
    have v1: "v1 = v" using copied(1) dir by (simp add: path_exists_def)
    have "dict_get (contents v2) (?bk @ drop (length ?ws) p) = Some c"
      using copied(2) v1 copy_tree_spec(2) instance_workspace_end backup_dir_end [OF ts] dir new ok p
      by (metis (full_types))
    moreover have "outside {?ws} v2 v'"
      using sync.keepsD [OF keeps_sync_dirs [OF walk] copied(3)] by blast
    ultimately show ?thesis using backup_not_in_workspace by (simp add: outside_def)
  qed
qed

text \<open>
  Property C33. A run of the script changes nothing in a dry run; otherwise every file that changed
  lies in the workspace, or with backups on in a backup directory, of the instance named on the
  command line, or of a directory of the base path that is neither hidden nor a backup.
\<close>

theorem sync_changes_only_instances:
  assumes run: "sync_main cwd walk_of clock args v = (r, v')"
    and walk: "\<And>dir. pred_option walk_ok (walk_of dir)" and clock: "\<And>n. slash \<notin> set (clock n)"
  shows "(sa_dry_run args \<longrightarrow> v' = v) \<and>
    (dict_get (contents v') p \<noteq> dict_get (contents v) p \<longrightarrow>
      (\<exists>uuid. in_instance (normpath (path_join cwd (sa_base_path args))) uuid (\<not> sa_no_backup args) p \<and>
        (if sa_instance_uuid args \<noteq> [] then uuid = sa_instance_uuid args
         else sa_all args \<and> slash \<notin> set uuid \<and> is_dir v (path_join (normpath (path_join cwd (sa_base_path args))) uuid) \<and>
           \<not> startswith uuid ''.'' \<and> \<not> startswith uuid ''backups'')))"
proof -
  let ?base = "normpath (path_join cwd (sa_base_path args))"
  let ?named = "sa_instance_uuid args \<noteq> []"
  consider (stop) "v' = v"
    | (go) template uuids r' where "walk_of (normpath (path_join cwd (sa_template_dir args))) = Some template"
        "sync_all args template ?base clock 0 uuids v = (r', v')" "?named \<or> sa_all args"
        "if ?named then uuids = [sa_instance_uuid args] else discover_instance_uuids ?base v = (Inr uuids, v)"
    using run discover_state [of ?base v]
    by (auto simp: sync_main_def Let_def ebind_def eret_def split: if_splits option.splits prod.splits sum.splits)
  then show ?thesis
  proof cases
    case go
    have "walk_ok template" using walk [of "normpath (path_join cwd (sa_template_dir args))"] go(1) by simp
    note changes = sync_all_changes [OF go(2) this clock, of p]
    show ?thesis
    proof (cases ?named)
      case True
      then show ?thesis using changes go(4) by (auto split: if_splits)
    next
      case False
      then have "discover_instance_uuids ?base v = (Inr uuids, v)" using go(4) by simp
      from discover_names [OF this] False changes go(3) show ?thesis by (auto split: if_splits)
    qed
  qed simp
qed

text \<open>
  Property C34. What a sync writes is what seeding would write for a user named \<open>{{USER_ID}}\<close> of a
  provider named \<open>{{PROVIDER}}\<close>: the placeholders that provisioning had filled in come back.
\<close>

theorem sync_reseeds_without_user:
  assumes run: "sync_instance_workspace template uuid (workspace_base_path cfg) False False ts v = (Inr n, v')"
    and walk: "walk_ok template" and env: "pv_template env = Some (concat (map snd template))"
  shows "contents v' = contents (seed_workspace_template cfg env uuid ''{{PROVIDER}}'' ''{{USER_ID}}'' (disk.truncate v)) \<and>
    n = length (concat (map snd template))"
  using run
proof (cases rule: sync_instance_cases)
  case (copied v1 v2 r1 r2)
  let ?ws = "instance_workspace (workspace_base_path cfg) uuid"
  obtain ns where ns: "r2 = Inr ns" "n = sum_list ns" using copied(4) by (cases r2) auto
  have v2: "contents v2 = contents v" "unwritable v2 = unwritable v"
    using made_dir_state [OF copied(1)] copied(2) by simp_all
  have subst: "substitute ''{{USER_ID}}'' uuid ''{{PROVIDER}}'' = with_uuid uuid"
    by (rule ext) (simp add: substitute_def py_replace_self)
  have dk: "contents (disk.truncate v) = contents v" "unwritable (disk.truncate v) = unwritable v"
    by (simp_all add: disk.truncate_def)
  from sync_dirs_pasted [OF copied(3) [unfolded ns(1)] walk] v2 dk ns(2) show ?thesis
    unfolding seed_workspace_template_def env option.case subst
    by (subst copy_template_pasted) (simp_all add: workspace_dir_def instance_workspace_def)
qed simp

section \<open>An instance brought up to date\<close>

text \<open>Two instances; the template's configuration has the three placeholders.\<close>

definition toy_walk :: walk where
  "toy_walk = [(''.'', [\<lparr>tf_dir = ''.'', tf_name = ''openclaw.json'', tf_body = ''{{UUID}} {{USER_ID}} {{PROVIDER}}'', tf_is_text = True\<rparr>]),
     (''mcp'', [\<lparr>tf_dir = ''mcp'', tf_name = ''a.json'', tf_body = ''{}'', tf_is_text = True\<rparr>])]"

definition toy_tree :: "string \<Rightarrow> walk option" where
  "toy_tree dir = (if dir = ''/tpl'' then Some toy_walk else None)"

definition toy_volume :: volume where
  "toy_volume = \<lparr>contents = [(''/w/a1/workspace/openclaw.json'', ''a1 ann slack''), (''/w/b2/workspace/openclaw.json'', ''b2 bob teams''),
     (''/w/.git/workspace/x'', ''y'')], unwritable = [], vol_dirs = [], vol_commands = []\<rparr>"

definition toy_args :: sync_args where
  "toy_args = \<lparr>sa_all = True, sa_instance_uuid = [], sa_template_dir = ''tpl'', sa_base_path = ''/w/'', sa_dry_run = False,
     sa_no_backup = False, sa_restart_containers = True, sa_container_prefix = ''openclaw-''\<rparr>"

lemma toy_walk_ok: "walk_ok toy_walk"
  by code_simp

theorem sync_keeps_a_copy_witness:
  "case sync_instance_workspace toy_walk ''a1'' ''/w'' False True ''1_2'' toy_volume of
     (r, v') \<Rightarrow> r = Ok 2 \<and> dict_get (contents v') ''/w/a1/workspace/openclaw.json'' = Some ''a1 {{USER_ID}} {{PROVIDER}}'' \<and>
       dict_get (contents v') ''/w/a1/backups_1_2/openclaw.json'' = Some ''a1 ann slack''"
proof -
  obtain r v' where run: "sync_instance_workspace toy_walk ''a1'' ''/w'' False True ''1_2'' toy_volume = (r, v')" by fastforce
  have facts: "slash \<notin> set ''1_2''" "\<not> path_exists toy_volume (backup_dir ''/w'' ''a1'' ''1_2'')" "dict_ok (contents toy_volume)"
    "under (instance_workspace ''/w'' ''a1'') ''/w/a1/workspace/openclaw.json''"
    "dict_get (contents toy_volume) ''/w/a1/workspace/openclaw.json'' = Some ''a1 ann slack''"
    "backup_dir ''/w'' ''a1'' ''1_2'' @ drop (length (instance_workspace ''/w'' ''a1'')) ''/w/a1/workspace/openclaw.json''
      \<notin> set (unwritable toy_volume)"
    "backup_dir ''/w'' ''a1'' ''1_2'' @ drop (length (instance_workspace ''/w'' ''a1'')) ''/w/a1/workspace/openclaw.json''
      = ''/w/a1/backups_1_2/openclaw.json''"
    "case sync_instance_workspace toy_walk ''a1'' ''/w'' False True ''1_2'' toy_volume of (r, v') \<Rightarrow>
      r = Ok 2 \<and> dict_get (contents v') ''/w/a1/workspace/openclaw.json'' = Some ''a1 {{USER_ID}} {{PROVIDER}}''"
    by (atomize (full), code_simp)
  from sync_keeps_a_copy [OF run toy_walk_ok facts(1-6), where q = "[]"] facts(7,8) show ?thesis
    unfolding run by simp
qed

theorem sync_changes_only_instances_witness:
  "case sync_main ''/'' toy_tree (\<lambda>_. ''1_2'') toy_args toy_volume of
     (r, v') \<Rightarrow> r = Ok (Inr 2) \<and> dict_get (contents v') ''/w/.git/workspace/x'' = Some ''y'' \<and>
       vol_commands v' = [''docker restart openclaw-a1 >/dev/null 2>&1'', ''docker restart openclaw-b2 >/dev/null 2>&1''] \<and>
       dict_get (contents v') ''/w/b2/workspace/mcp/a.json'' = Some ''{}'' \<and>
       (\<exists>uuid. in_instance ''/w'' uuid True ''/w/b2/workspace/mcp/a.json'' \<and> is_dir toy_volume (path_join ''/w'' uuid))"
proof -
  obtain r v' where run: "sync_main ''/'' toy_tree (\<lambda>_. ''1_2'') toy_args toy_volume = (r, v')" by fastforce
  have facts: "slash \<notin> set ''1_2''" "\<not> sa_no_backup toy_args" "sa_instance_uuid toy_args = []"
    "normpath (path_join ''/'' (sa_base_path toy_args)) = ''/w''"
    "dict_get (contents toy_volume) ''/w/b2/workspace/mcp/a.json'' = None"
    "case sync_main ''/'' toy_tree (\<lambda>_. ''1_2'') toy_args toy_volume of (r, v') \<Rightarrow>
      r = Ok (Inr 2) \<and> dict_get (contents v') ''/w/.git/workspace/x'' = Some ''y'' \<and>
       vol_commands v' = [''docker restart openclaw-a1 >/dev/null 2>&1'', ''docker restart openclaw-b2 >/dev/null 2>&1''] \<and>
       dict_get (contents v') ''/w/b2/workspace/mcp/a.json'' = Some ''{}''"
    by (atomize (full), code_simp)
  have walks: "pred_option walk_ok (toy_tree d)" for d by (simp add: toy_tree_def toy_walk_ok)
  from sync_changes_only_instances [OF run walks facts(1), where p = "''/w/b2/workspace/mcp/a.json''"] facts(2-6)
  show ?thesis unfolding run by auto
qed

theorem sync_reseeds_without_user_witness:
  "case sync_instance_workspace toy_walk ''a1'' (workspace_base_path default_settings) False False ''1_2'' toy_volume of
     (r, v') \<Rightarrow> r = Ok 2 \<and> contents v' = contents (seed_workspace_template default_settings
       \<lparr>pv_uuid4 = [], pv_post = \<lambda>_ _ _. Raise IntegrityError, pv_template = Some (concat (map snd toy_walk)), pv_nfkc = \<lambda>_. True\<rparr>
       ''a1'' ''{{PROVIDER}}'' ''{{USER_ID}}'' (disk.truncate toy_volume))"
proof -
  let ?env = "\<lparr>pv_uuid4 = [], pv_post = \<lambda>_ _ _. Raise IntegrityError, pv_template = Some (concat (map snd toy_walk)), pv_nfkc = \<lambda>_. True\<rparr>"
  obtain r v' where run: "sync_instance_workspace toy_walk ''a1'' (workspace_base_path default_settings) False False ''1_2'' toy_volume
    = (r, v')" by fastforce
  have "fst (sync_instance_workspace toy_walk ''a1'' (workspace_base_path default_settings) False False ''1_2'' toy_volume) = Ok 2"
    by code_simp
  then have r: "r = Inr 2" using run by simp
  show ?thesis
    using sync_reseeds_without_user [OF run [unfolded r] toy_walk_ok, of ?env] r unfolding run by simp
qed
end
