(* ===== verification/PoolTasks.thy ===== *)
theory PoolTasks
  imports WsManager
begin

text \<open>
  The tasks of the connection pool (\<open>src/services/ws_manager.py\<close>) interleaved at their \<open>await\<close> points:
  sends with their reconnect, the guardian of each user, the idle cleanup and the shutdown. A task is
  a number with a program counter; an action lets one task go on, gives the outcome of the call
  it waits for, or lets a peer hang up. Connecting with its retries is one call that succeeds or fails.
\<close>

section \<open>Tasks\<close>

datatype task_pc =
    Done
  | WantSend string instance_info nat
  | WantConn string instance_info bool nat nat
  | Connecting string instance_info bool nat nat nat
  | Sending string instance_info bool nat nat
  | Reconnect string instance_info nat
  | GHead string
  | GWatch string nat
  | GPause string
  | GWant string instance_info nat
  | GConnecting string instance_info nat nat
  | GRetry string
  | CSleep
  | CGone string "string list"
  | CWant string "string list" nat
  | CClosing string "string list" nat
  | SCleanup "nat option"
  | SGather
  | SClients "string list"

text \<open>
  Lock objects, tasks and clients are numbered. A lock that is held names its holder; a client is live
  while its socket is open and its listener runs.
\<close>

record ptasks =
  pt_clients :: "(string, nat) dict"
  pt_info :: "(string, instance_info) dict"
  pt_guardians :: "(string, nat) dict"
  pt_last_active :: "(string, rat) dict"
  pt_live :: "nat list"
  pt_next :: nat
  pt_down :: bool
  pt_cleanup :: "nat option"
  pt_locks :: "(string, nat) dict"
  pt_send_locks :: "(string, nat) dict"
  pt_held :: "(nat, nat) dict"
  pt_send_held :: "(nat, nat) dict"
  pt_fresh :: nat
  pt_pc :: "nat \<Rightarrow> task_pc"

text \<open>A manager right after \<open>start()\<close>: the cleanup task is number 0.\<close>

definition started_pool :: ptasks where
  "started_pool = \<lparr>pt_clients = [], pt_info = [], pt_guardians = [], pt_last_active = [], pt_live = [], pt_next = 0,
     pt_down = False, pt_cleanup = Some 0, pt_locks = [], pt_send_locks = [], pt_held = [], pt_send_held = [],
     pt_fresh = 1, pt_pc = (\<lambda>_. Done)(0 := CSleep)\<rparr>"

definition goes :: "nat \<Rightarrow> task_pc \<Rightarrow> ptasks \<Rightarrow> ptasks" where
  "goes t p s = s\<lparr>pt_pc := (pt_pc s)(t := p)\<rparr>"

section \<open>Locks\<close>

definition conn_lock :: "string \<Rightarrow> ptasks \<Rightarrow> nat \<times> ptasks" where
  "conn_lock user s = (case dict_get (pt_locks s) user of
       Some l \<Rightarrow> (l, s)
     | None \<Rightarrow> (pt_fresh s, s\<lparr>pt_locks := dict_set (pt_locks s) user (pt_fresh s), pt_fresh := Suc (pt_fresh s)\<rparr>))"

definition send_lock :: "string \<Rightarrow> ptasks \<Rightarrow> nat \<times> ptasks" where
  "send_lock user s = (case dict_get (pt_send_locks s) user of
       Some l \<Rightarrow> (l, s)
     | None \<Rightarrow> (pt_fresh s, s\<lparr>pt_send_locks := dict_set (pt_send_locks s) user (pt_fresh s), pt_fresh := Suc (pt_fresh s)\<rparr>))"

definition acquired :: "nat \<Rightarrow> nat \<Rightarrow> ptasks \<Rightarrow> ptasks" where
  "acquired l t s = s\<lparr>pt_held := dict_set (pt_held s) l t\<rparr>"

definition released :: "nat \<Rightarrow> ptasks \<Rightarrow> ptasks" where
  "released l s = s\<lparr>pt_held := dict_pop (pt_held s) l\<rparr>"

definition send_released :: "nat \<Rightarrow> ptasks \<Rightarrow> ptasks" where
  "send_released k s = s\<lparr>pt_send_held := dict_pop (pt_send_held s) k\<rparr>"

section \<open>Closing a client, ending and starting tasks\<close>

text \<open>
  Closing a live client cancels its listener, and with it the guardian that awaits the listener: the
  guardian takes the \<open>CancelledError\<close> for its own and leaves its loop.
\<close>

definition hang_up :: "nat \<Rightarrow> ptasks \<Rightarrow> ptasks" where
  "hang_up c s = s\<lparr>pt_live := removeAll c (pt_live s),
     pt_pc := (\<lambda>t. case pt_pc s t of
         GWatch u c' \<Rightarrow> if c' = c \<and> c \<in> set (pt_live s) then Done else GWatch u c'
       | p \<Rightarrow> p)\<rparr>"

text \<open>
  Cancelling a task releases the lock it is inside. The cleanup, while it awaits a guardian it has
  cancelled, takes the cancellation for the guardian's.
\<close>

definition cancelled :: "nat \<Rightarrow> ptasks \<Rightarrow> ptasks" where
  "cancelled t s = (case pt_pc s t of
       GConnecting u i l c \<Rightarrow> goes t Done (released l s)
     | CClosing u us l \<Rightarrow> goes t Done (released l s)
     | CGone u us \<Rightarrow> s
     | _ \<Rightarrow> goes t Done s)"

definition start_guardian_task :: "string \<Rightarrow> ptasks \<Rightarrow> ptasks" where
  "start_guardian_task user s =
     (let s1 = (case dict_get (pt_guardians s) user of None \<Rightarrow> s | Some g \<Rightarrow> cancelled g s);
          g = pt_fresh s1
      in goes g (GHead user) (s1\<lparr>pt_guardians := dict_set (pt_guardians s1) user g, pt_fresh := Suc g\<rparr>))"

section \<open>Steps\<close>

text \<open>A task goes on to its next \<open>await\<close>, if it is not waiting for a lock that is held.\<close>

definition free :: "(nat, nat) dict \<Rightarrow> nat \<Rightarrow> bool" where
  "free holders l \<longleftrightarrow> \<not> dict_has holders l"

text \<open>The cleanup turns to the next idle user, or sleeps again.\<close>

fun next_idle :: "nat \<Rightarrow> string list \<Rightarrow> ptasks \<Rightarrow> ptasks" where
  "next_idle t [] s = goes t (if pt_down s then Done else CSleep) s"
| "next_idle t (u # us) s =
     (let s1 = s\<lparr>pt_last_active := dict_pop (pt_last_active s) u\<rparr>;
          s2 = (case dict_get (pt_guardians s1) u of None \<Rightarrow> s1 | Some g \<Rightarrow> cancelled g s1)
      in goes t (CGone u us) (s2\<lparr>pt_guardians := dict_pop (pt_guardians s2) u\<rparr>))"

fun go_on :: "nat \<Rightarrow> task_pc \<Rightarrow> ptasks \<Rightarrow> ptasks option" where
  "go_on t (WantSend u i k) s =
     (if free (pt_send_held s) k then
        (case conn_lock u (s\<lparr>pt_send_held := dict_set (pt_send_held s) k t\<rparr>) of
           (l, s1) \<Rightarrow> Some (goes t (WantConn u i False k l) s1))
      else None)"
| "go_on t (WantConn u i again k l) s =
     (if \<not> free (pt_held s) l then None
      else
        let connect = goes t (Connecting u i again k l (pt_next s)) (acquired l t (s\<lparr>pt_next := Suc (pt_next s)\<rparr>))
        in case dict_get (pt_clients s) u of
             None \<Rightarrow> Some connect
           | Some c \<Rightarrow> Some (if c \<in> set (pt_live s) then goes t (Sending u i again k c) s else connect))"
| "go_on t (Reconnect u i k) s = (case conn_lock u s of (l, s1) \<Rightarrow> Some (goes t (WantConn u i True k l) s1))"
| "go_on t (GHead u) s =
     Some (goes t (if pt_down s then Done
       else case dict_get (pt_clients s) u of
              None \<Rightarrow> Done
            | Some c \<Rightarrow> if c \<in> set (pt_live s) then GWatch u c else GPause u) s)"
| "go_on t (GWatch u c) s =
     Some (goes t (if c \<in> set (pt_live s) then GHead u else if pt_down s then Done else GPause u) s)"
| "go_on t (GPause u) s =
     (case dict_get (pt_info s) u of
        None \<Rightarrow> Some (goes t Done s)
      | Some i \<Rightarrow> (case conn_lock u s of (l, s1) \<Rightarrow> Some (goes t (GWant u i l) s1)))"
| "go_on t (GWant u i l) s =
     (if \<not> free (pt_held s) l then None
      else
        let s1 = (case dict_get (pt_clients s) u of None \<Rightarrow> s | Some c \<Rightarrow> hang_up c s)
        in Some (goes t (GConnecting u i l (pt_next s1)) (acquired l t (s1\<lparr>pt_next := Suc (pt_next s1)\<rparr>))))"
| "go_on t (GRetry u) s = Some (goes t (GHead u) s)"
| "go_on t (CGone u us) s = (case conn_lock u s of (l, s1) \<Rightarrow> Some (goes t (CWant u us l) s1))"
| "go_on t (CWant u us l) s =
     (if \<not> free (pt_held s) l then None
      else
        let s1 = acquired l t (s\<lparr>pt_clients := dict_pop (pt_clients s) u, pt_info := dict_pop (pt_info s) u\<rparr>);
            s2 = (case dict_get (pt_clients s) u of None \<Rightarrow> s1 | Some c \<Rightarrow> hang_up c s1)
        in Some (goes t (CClosing u us l) s2))"
| "go_on t (CClosing u us l) s =
     Some (next_idle t us (released l (s\<lparr>pt_locks := dict_pop (pt_locks s) u,
       pt_send_locks := dict_pop (pt_send_locks s) u\<rparr>)))"
| "go_on t (SCleanup cl) s =
     (if list_ex (\<lambda>c. pt_pc s c \<noteq> Done) (case cl of None \<Rightarrow> [] | Some c \<Rightarrow> [c]) then None
      else Some (goes t SGather (foldl (\<lambda>s g. cancelled g s) s (map snd (pt_guardians s)))))"
| "go_on t SGather s = Some (goes t (SClients (dict_keys (pt_clients s))) (s\<lparr>pt_guardians := []\<rparr>))"
| "go_on t (SClients (u # us)) s =
     (let s1 = s\<lparr>pt_clients := dict_pop (pt_clients s) u\<rparr>
      in Some (goes t (SClients us) (case dict_get (pt_clients s) u of None \<Rightarrow> s1 | Some c \<Rightarrow> hang_up c s1)))"
| "go_on t (SClients []) s = Some (goes t Done (s\<lparr>pt_locks := [], pt_send_locks := []\<rparr>))"
| "go_on t _ s = None"

text \<open>A connection attempt, with all its retries, has succeeded or failed.\<close>

fun connect_done :: "nat \<Rightarrow> bool \<Rightarrow> task_pc \<Rightarrow> ptasks \<Rightarrow> ptasks option" where
  "connect_done t True (Connecting u i again k l c) s =
     Some (goes t (Sending u i again k c) (released l (start_guardian_task u (s\<lparr>pt_clients := dict_set (pt_clients s) u c,
       pt_live := c # pt_live s, pt_info := dict_set (pt_info s) u i\<rparr>))))"
| "connect_done t False (Connecting u i again k l c) s = Some (goes t Done (send_released k (released l s)))"
| "connect_done t True (GConnecting u i l c) s =
     Some (goes t (GHead u) (released l (s\<lparr>pt_clients := dict_set (pt_clients s) u c, pt_live := c # pt_live s\<rparr>)))"
| "connect_done t False (GConnecting u i l c) s = Some (goes t (GRetry u) (released l s))"
| "connect_done t b _ s = None"

text \<open>The request of a send has been answered, or an exception has ended it.\<close>

fun send_done :: "nat \<Rightarrow> bool \<Rightarrow> task_pc \<Rightarrow> ptasks \<Rightarrow> ptasks option" where
  "send_done t ok (Sending u i again k c) s =
     Some (if ok \<or> again then goes t Done (send_released k s)
           else goes t (Reconnect u i k) (hang_up c s))"
| "send_done t ok _ s = None"

datatype pool_act =
    SendMessage string instance_info rat
  | Go nat
  | ConnectDone nat bool
  | SendDone nat bool
  | PeerDrops nat
  | CleanupWakes nat rat
  | CloseAll

definition idle_now :: "settings \<Rightarrow> rat \<Rightarrow> ptasks \<Rightarrow> string list" where
  "idle_now cfg now s =
     map fst (filter (\<lambda>(u, seen). now - seen > of_int (ws_idle_timeout_sec cfg) \<and> dict_has (pt_clients s) u)
       (pt_last_active s))"

fun perform :: "settings \<Rightarrow> pool_act \<Rightarrow> ptasks \<Rightarrow> ptasks option" where
  "perform cfg (SendMessage u i now) s =
     (case send_lock u (s\<lparr>pt_last_active := dict_set (pt_last_active s) u now\<rparr>) of
        (k, s1) \<Rightarrow> Some (goes (pt_fresh s1) (WantSend u i k) (s1\<lparr>pt_fresh := Suc (pt_fresh s1)\<rparr>)))"
| "perform cfg (Go t) s = go_on t (pt_pc s t) s"
| "perform cfg (ConnectDone t ok) s = connect_done t ok (pt_pc s t) s"
| "perform cfg (SendDone t ok) s = send_done t ok (pt_pc s t) s"
| "perform cfg (PeerDrops c) s = (if c \<in> set (pt_live s) then Some (s\<lparr>pt_live := removeAll c (pt_live s)\<rparr>) else None)"
| "perform cfg (CleanupWakes t now) s =
     (if pt_pc s t \<noteq> CSleep then None
      else if pt_down s then Some (goes t Done s)
      else Some (next_idle t (idle_now cfg now s) s))"
| "perform cfg CloseAll s =
     (let s1 = (case pt_cleanup s of None \<Rightarrow> s | Some t \<Rightarrow> cancelled t s)
      in Some (goes (pt_fresh s1) (SCleanup (pt_cleanup s)) (s1\<lparr>pt_down := True, pt_cleanup := None, pt_fresh := Suc (pt_fresh s1)\<rparr>)))"

fun perform_all :: "settings \<Rightarrow> pool_act list \<Rightarrow> ptasks \<Rightarrow> ptasks option" where
  "perform_all cfg [] s = Some s"
| "perform_all cfg (a # acts) s = (case perform cfg a s of None \<Rightarrow> None | Some s1 \<Rightarrow> perform_all cfg acts s1)"

section \<open>What the tasks keep while nothing is closed from outside\<close>

text \<open>The user a guardian works for; the user and connection lock a task wants; the client it connects inside that lock.\<close>

fun guardian_of :: "task_pc \<Rightarrow> string option" where
  "guardian_of (GHead u) = Some u"
| "guardian_of (GWatch u c) = Some u"
| "guardian_of (GPause u) = Some u"
| "guardian_of (GWant u i l) = Some u"
| "guardian_of (GConnecting u i l c) = Some u"
| "guardian_of (GRetry u) = Some u"
| "guardian_of _ = None"

fun wants_lock :: "task_pc \<Rightarrow> (string \<times> nat) option" where
  "wants_lock (WantConn u i again k l) = Some (u, l)"
| "wants_lock (Connecting u i again k l c) = Some (u, l)"
| "wants_lock (GWant u i l) = Some (u, l)"
| "wants_lock (GConnecting u i l c) = Some (u, l)"
| "wants_lock _ = None"

fun connects :: "task_pc \<Rightarrow> (string \<times> nat \<times> nat) option" where
  "connects (Connecting u i again k l c) = Some (u, l, c)"
| "connects (GConnecting u i l c) = Some (u, l, c)"
| "connects _ = None"

fun watches :: "task_pc \<Rightarrow> (string \<times> nat) option" where
  "watches (GWatch u c) = Some (u, c)"
| "watches _ = None"

fun calm_pc :: "task_pc \<Rightarrow> bool" where
  "calm_pc (CGone u us) = False"
| "calm_pc (CWant u us l) = False"
| "calm_pc (CClosing u us l) = False"
| "calm_pc (SCleanup cl) = False"
| "calm_pc SGather = False"
| "calm_pc (SClients us) = False"
| "calm_pc _ = True"

fun calm_act :: "pool_act \<Rightarrow> bool" where
  "calm_act (CleanupWakes t now) = False"
| "calm_act CloseAll = False"
| "calm_act _ = True"

text \<open>A task inside the section of a user holds the user's lock; locks of different users differ.\<close>

definition tasks_locked :: "ptasks \<Rightarrow> bool" where
  "tasks_locked s \<longleftrightarrow>
     (\<forall>t u l. wants_lock (pt_pc s t) = Some (u, l) \<longrightarrow> dict_get (pt_locks s) u = Some l) \<and>
     (\<forall>t u l c. connects (pt_pc s t) = Some (u, l, c) \<longrightarrow> dict_get (pt_held s) l = Some t) \<and>
     (\<forall>u v l. dict_get (pt_locks s) u = Some l \<longrightarrow> dict_get (pt_locks s) v = Some l \<longrightarrow> u = v) \<and>
     (\<forall>u l. dict_get (pt_locks s) u = Some l \<longrightarrow> l < pt_fresh s) \<and>
     (\<forall>t. pt_pc s t \<noteq> Done \<longrightarrow> t < pt_fresh s) \<and>
     (\<forall>u g. dict_get (pt_guardians s) u = Some g \<longrightarrow> g < pt_fresh s) \<and>
     (\<forall>t. calm_pc (pt_pc s t)) \<and> \<not> pt_down s"

text \<open>A running guardian is the one in the table, and watches the client in the table or a dead one.\<close>

definition tasks_guarded :: "ptasks \<Rightarrow> bool" where
  "tasks_guarded s \<longleftrightarrow>
     (\<forall>t u. guardian_of (pt_pc s t) = Some u \<longrightarrow> dict_get (pt_guardians s) u = Some t \<and> dict_get (pt_info s) u \<noteq> None) \<and>
     (\<forall>u g. dict_get (pt_guardians s) u = Some g \<longrightarrow> pt_pc s g = Done \<or> guardian_of (pt_pc s g) = Some u) \<and>
     (\<forall>t u c. watches (pt_pc s t) = Some (u, c) \<longrightarrow> c \<in> set (pt_live s) \<longrightarrow> dict_get (pt_clients s) u = Some c) \<and>
     (\<forall>u c. dict_get (pt_clients s) u = Some c \<longrightarrow> c \<in> set (pt_live s) \<longrightarrow>
        (\<exists>g. dict_get (pt_guardians s) u = Some g \<and> guardian_of (pt_pc s g) = Some u)) \<and>
     (\<forall>u c. dict_get (pt_clients s) u = Some c \<longrightarrow> dict_get (pt_info s) u \<noteq> None)"

text \<open>Live clients are in the table; a client being connected is new, and its user has no live one.\<close>

definition tasks_owned :: "ptasks \<Rightarrow> bool" where
  "tasks_owned s \<longleftrightarrow>
     (\<forall>c\<in>set (pt_live s). \<exists>u. dict_get (pt_clients s) u = Some c) \<and>
     (\<forall>u c. dict_get (pt_clients s) u = Some c \<longrightarrow> c < pt_next s) \<and>
     (\<forall>t u c. watches (pt_pc s t) = Some (u, c) \<longrightarrow> c < pt_next s) \<and>
     (\<forall>t u l c. connects (pt_pc s t) = Some (u, l, c) \<longrightarrow> c < pt_next s \<and>
        (\<forall>v. dict_get (pt_clients s) v \<noteq> Some c) \<and> (\<forall>t' v. watches (pt_pc s t') \<noteq> Some (v, c)) \<and>
        (\<forall>c0. dict_get (pt_clients s) u = Some c0 \<longrightarrow> c0 \<notin> set (pt_live s))) \<and>
     (\<forall>t t' u u' l l' c. connects (pt_pc s t) = Some (u, l, c) \<longrightarrow> connects (pt_pc s t') = Some (u', l', c) \<longrightarrow> t = t')"

definition tasks_ok :: "ptasks \<Rightarrow> bool" where
  "tasks_ok s \<longleftrightarrow> tasks_locked s \<and> tasks_guarded s \<and> tasks_owned s"

lemma tasks_ok_start: "tasks_ok started_pool"
  by (auto simp: tasks_ok_def tasks_locked_def tasks_guarded_def tasks_owned_def started_pool_def)

lemmas tasks_ok_defs = tasks_ok_def tasks_locked_def tasks_guarded_def tasks_owned_def

lemma connects_wants: "connects p = Some (u, l, c) \<Longrightarrow> wants_lock p = Some (u, l)"
  by (cases p) auto

text \<open>The parts of the invariant, as rules.\<close>

lemma tasks_okD:
  assumes "tasks_ok s"
  shows "wants_lock (pt_pc s t) = Some (u, l) \<Longrightarrow> dict_get (pt_locks s) u = Some l"
    and "connects (pt_pc s t) = Some (u, l, c) \<Longrightarrow> dict_get (pt_held s) l = Some t"
    and "dict_get (pt_locks s) u = Some l \<Longrightarrow> dict_get (pt_locks s) v = Some l \<Longrightarrow> u = v"
    and "pt_pc s t \<noteq> Done \<Longrightarrow> t < pt_fresh s"
    and "dict_get (pt_guardians s) u = Some g \<Longrightarrow> g < pt_fresh s"
    and "guardian_of (pt_pc s t) = Some u \<Longrightarrow> dict_get (pt_guardians s) u = Some t \<and> dict_get (pt_info s) u \<noteq> None"
    and "watches (pt_pc s t) = Some (u, c) \<Longrightarrow> c \<in> set (pt_live s) \<Longrightarrow> dict_get (pt_clients s) u = Some c"
    and "dict_get (pt_clients s) u = Some c \<Longrightarrow> c \<in> set (pt_live s) \<Longrightarrow>
      \<exists>g. dict_get (pt_guardians s) u = Some g \<and> guardian_of (pt_pc s g) = Some u"
    and "dict_get (pt_clients s) u = Some c \<Longrightarrow> dict_get (pt_info s) u \<noteq> None"
    and "c \<in> set (pt_live s) \<Longrightarrow> \<exists>u. dict_get (pt_clients s) u = Some c"
    and "dict_get (pt_clients s) u = Some c \<Longrightarrow> c < pt_next s"
    and "connects (pt_pc s t) = Some (u, l, c) \<Longrightarrow> dict_get (pt_clients s) u = Some c0 \<Longrightarrow> c0 \<notin> set (pt_live s)"
    and "dict_get (pt_guardians s) u = Some g \<Longrightarrow> pt_pc s g = Done \<or> guardian_of (pt_pc s g) = Some u"
    and "connects (pt_pc s t) = Some (u, l, c) \<Longrightarrow> dict_get (pt_clients s) v \<noteq> Some c \<and> watches (pt_pc s t') \<noteq> Some (v, c) \<and> c < pt_next s"
  using assms unfolding tasks_ok_defs by (elim conjE; metis)+

lemma conn_lock_ok:
  assumes "conn_lock u s = (l, s1)" "tasks_ok s"
  shows "tasks_ok s1 \<and> dict_get (pt_locks s1) u = Some l \<and> pt_pc s1 = pt_pc s \<and> pt_fresh s \<le> pt_fresh s1 \<and>
    pt_clients s1 = pt_clients s \<and> pt_live s1 = pt_live s"
proof (cases "dict_get (pt_locks s) u")
  case None
  then have s1: "s1 = s\<lparr>pt_locks := dict_set (pt_locks s) u (pt_fresh s), pt_fresh := Suc (pt_fresh s)\<rparr>" "l = pt_fresh s"
    using assms(1) by (auto simp: conn_lock_def)
  have "tasks_locked s1" using assms(2) None unfolding tasks_ok_def tasks_locked_def s1
    by (auto simp: less_Suc_eq)
  moreover have "tasks_guarded s1" "tasks_owned s1" using assms(2) unfolding tasks_ok_defs s1 by simp_all
  ultimately show ?thesis by (simp add: tasks_ok_def s1)
qed (use assms in \<open>auto simp: conn_lock_def\<close>)

lemma tasks_guardedI:
  assumes "\<And>t u. guardian_of (pt_pc s t) = Some u \<Longrightarrow> dict_get (pt_guardians s) u = Some t \<and> dict_get (pt_info s) u \<noteq> None"
    "\<And>u g. dict_get (pt_guardians s) u = Some g \<Longrightarrow> pt_pc s g = Done \<or> guardian_of (pt_pc s g) = Some u"
    "\<And>t u c. watches (pt_pc s t) = Some (u, c) \<Longrightarrow> c \<in> set (pt_live s) \<Longrightarrow> dict_get (pt_clients s) u = Some c"
    "\<And>u c. dict_get (pt_clients s) u = Some c \<Longrightarrow> c \<in> set (pt_live s) \<Longrightarrow>
      \<exists>g. dict_get (pt_guardians s) u = Some g \<and> guardian_of (pt_pc s g) = Some u"
    "\<And>u c. dict_get (pt_clients s) u = Some c \<Longrightarrow> dict_get (pt_info s) u \<noteq> None"
  shows "tasks_guarded s"
  using assms unfolding tasks_guarded_def by blast

text \<open>A task moves on without starting to connect.\<close>

lemma move_ok:
  assumes ok: "tasks_ok s" and t: "pt_pc s t \<noteq> Done" and p: "calm_pc p" "connects p = None"
    and wants: "\<And>u l. wants_lock p = Some (u, l) \<Longrightarrow> dict_get (pt_locks s) u = Some l"
    and watch: "\<And>u c. watches p = Some (u, c) \<Longrightarrow> dict_get (pt_clients s) u = Some c"
    and guard: "guardian_of p = guardian_of (pt_pc s t) \<or> p = Done \<and>
      (\<forall>u c. guardian_of (pt_pc s t) = Some u \<longrightarrow> dict_get (pt_clients s) u = Some c \<longrightarrow> c \<notin> set (pt_live s))"
  shows "tasks_ok (goes t p s)"
proof -
  have "tasks_locked (goes t p s)"
    using ok tasks_okD(4) [OF ok t] p wants unfolding tasks_ok_def tasks_locked_def goes_def by auto
  moreover have "tasks_guarded (goes t p s)"
  proof (rule tasks_guardedI)
    fix t' u assume "guardian_of (pt_pc (goes t p s) t') = Some u"
    then have "guardian_of (pt_pc s t') = Some u" using guard by (auto simp: goes_def split: if_splits)
    from tasks_okD(6) [OF ok this]
    show "dict_get (pt_guardians (goes t p s)) u = Some t' \<and> dict_get (pt_info (goes t p s)) u \<noteq> None"
      by (simp add: goes_def)
  next
    fix u g assume "dict_get (pt_guardians (goes t p s)) u = Some g"
    then have "pt_pc s g = Done \<or> guardian_of (pt_pc s g) = Some u" using tasks_okD(13) [OF ok, of u g] by (simp add: goes_def)
    then show "pt_pc (goes t p s) g = Done \<or> guardian_of (pt_pc (goes t p s) g) = Some u"
      using t guard by (auto simp: goes_def)
  next
    fix u c assume uc: "dict_get (pt_clients (goes t p s)) u = Some c" "c \<in> set (pt_live (goes t p s))"
    then obtain g where g: "dict_get (pt_guardians s) u = Some g" "guardian_of (pt_pc s g) = Some u"
      using tasks_okD(8) [OF ok, of u c] by (auto simp: goes_def)
    then have "guardian_of (pt_pc (goes t p s) g) = Some u" using guard uc by (auto simp: goes_def)
    with g show "\<exists>g. dict_get (pt_guardians (goes t p s)) u = Some g \<and> guardian_of (pt_pc (goes t p s) g) = Some u"
      by (auto simp: goes_def)
  qed (use ok watch in \<open>auto simp: goes_def dest: tasks_okD(7,9) split: if_splits\<close>)
  moreover have "tasks_owned (goes t p s)"
    using ok p watch unfolding tasks_ok_def tasks_owned_def goes_def by (auto; blast)
  ultimately show ?thesis by (simp add: tasks_ok_def)
qed

text \<open>Closing a client, or losing it.\<close>

lemma close_pc:
  "pt_pc (hang_up c s) t = pt_pc s t \<or>
   pt_pc (hang_up c s) t = Done \<and> (\<exists>u. pt_pc s t = GWatch u c) \<and> c \<in> set (pt_live s)"
  by (auto simp: hang_up_def split: task_pc.splits)

lemma close_proj:
  "wants_lock (pt_pc (hang_up c s) t) = wants_lock (pt_pc s t)"
  "connects (pt_pc (hang_up c s) t) = connects (pt_pc s t)"
  "watches (pt_pc (hang_up c s) t) = Some w \<Longrightarrow> watches (pt_pc s t) = Some w"
  "guardian_of (pt_pc (hang_up c s) t) = Some u \<Longrightarrow> guardian_of (pt_pc s t) = Some u"
  "calm_pc (pt_pc s t) \<Longrightarrow> calm_pc (pt_pc (hang_up c s) t)"
  using close_pc [of c s t] by auto

lemma close_simps [simp]:
  "pt_clients (hang_up c s) = pt_clients s" "pt_info (hang_up c s) = pt_info s"
  "pt_guardians (hang_up c s) = pt_guardians s" "pt_locks (hang_up c s) = pt_locks s"
  "pt_held (hang_up c s) = pt_held s" "pt_fresh (hang_up c s) = pt_fresh s"
  "pt_next (hang_up c s) = pt_next s" "pt_down (hang_up c s) = pt_down s"
  "pt_live (hang_up c s) = removeAll c (pt_live s)"
  by (simp_all add: hang_up_def)

lemma close_ok:
  assumes ok: "tasks_ok s"
  shows "tasks_ok (hang_up c s)"
proof -
  have "tasks_locked (hang_up c s)"
    using ok close_pc [of c s] unfolding tasks_ok_def tasks_locked_def
    by (auto simp: close_proj) (metis task_pc.distinct(1) close_proj)+
  moreover have "tasks_guarded (hang_up c s)"
  proof -
    have "\<exists>g. dict_get (pt_guardians s) u = Some g \<and> guardian_of (pt_pc (hang_up c s) g) = Some u"
      if c': "dict_get (pt_clients s) u = Some c'" "c' \<in> set (pt_live s)" "c' \<noteq> c" for u c'
    proof -
      obtain g where g: "dict_get (pt_guardians s) u = Some g" "guardian_of (pt_pc s g) = Some u"
        using tasks_okD(8) [OF ok c'(1,2)] by blast
      have "pt_pc (hang_up c s) g = pt_pc s g"
        using close_pc [of c s g] g(2) tasks_okD(7) [OF ok, of g u c] c' by auto
      with g show ?thesis by auto
    qed
    moreover have "pt_pc (hang_up c s) g = Done \<or> guardian_of (pt_pc (hang_up c s) g) = Some u"
      if "dict_get (pt_guardians s) u = Some g" for u g
      using tasks_okD(13) [OF ok that] close_pc [of c s g] by auto
    ultimately show ?thesis
      using tasks_okD(6,7,9) [OF ok] by (intro tasks_guardedI) (auto dest!: close_proj(3,4))
  qed
  moreover have "tasks_owned (hang_up c s)"
    using ok unfolding tasks_ok_def tasks_owned_def by (auto simp: close_proj(1,2) dest: close_proj(3,4))
  ultimately show ?thesis by (simp add: tasks_ok_def)
qed

lemma drop_ok: "tasks_ok s \<Longrightarrow> tasks_ok (s\<lparr>pt_live := removeAll c (pt_live s)\<rparr>)"
  unfolding tasks_ok_defs by auto

text \<open>Entering the section of a user whose client is not live, to connect a new one.\<close>

lemma enter_ok:
  assumes ok: "tasks_ok s" and t: "t < pt_fresh s" and q: "wants_lock (pt_pc s t) = Some (u, l)" "connects (pt_pc s t) = None"
    and fr: "free (pt_held s) l"
    and dead: "\<And>c. dict_get (pt_clients s) u = Some c \<Longrightarrow> c \<notin> set (pt_live s)"
    and p: "calm_pc p" "connects p = Some (u, l, pt_next s)" "watches p = None" "guardian_of p = guardian_of (pt_pc s t)"
  shows "tasks_ok (goes t p (acquired l t (s\<lparr>pt_next := Suc (pt_next s)\<rparr>)))" (is "tasks_ok ?s")
proof -
  have new: "dict_get (pt_clients s) v \<noteq> Some (pt_next s)" "watches (pt_pc s t') \<noteq> Some (v, pt_next s)"
    "connects (pt_pc s t') \<noteq> Some (v, k, pt_next s)" for v t' k
    using ok unfolding tasks_ok_def tasks_owned_def by (metis less_irrefl)+
  have held: "connects (pt_pc s t') \<noteq> Some (v, l, c)" for t' v c
    using fr tasks_okD(2) [OF ok, of t' v l c] by (auto simp: free_def dict_has_get)
  have "wants_lock p = Some (u, l)" using p(2) by (rule connects_wants)
  then have "tasks_locked ?s"
    using ok t p held tasks_okD(1) [OF ok q(1)] unfolding tasks_ok_def tasks_locked_def goes_def acquired_def
    by auto
  moreover have "tasks_guarded ?s"
  proof -
    have g: "guardian_of (pt_pc ?s t') = guardian_of (pt_pc s t')" for t' using p(4) by (simp add: goes_def acquired_def)
    have w: "watches (pt_pc ?s t') = Some a \<Longrightarrow> watches (pt_pc s t') = Some a" for t' a
      using p(3) by (simp add: goes_def acquired_def split: if_splits)
    have d: "pt_pc s t' = Done \<Longrightarrow> pt_pc ?s t' = Done" for t' using q(1) by (auto simp: goes_def acquired_def)
    have f: "pt_guardians ?s = pt_guardians s" "pt_info ?s = pt_info s" "pt_clients ?s = pt_clients s" "pt_live ?s = pt_live s"
      by (simp_all add: goes_def acquired_def)
    show ?thesis
      by (rule tasks_guardedI, unfold g f) (use tasks_okD(6,7,8,9,13) [OF ok] d w in blast)+
  qed
  moreover have "tasks_owned ?s"
    using ok p dead new unfolding tasks_ok_def tasks_owned_def goes_def acquired_def
    by (auto simp: less_Suc_eq; metis)
  ultimately show ?thesis by (simp add: tasks_ok_def)
qed

text \<open>Leaving the section.\<close>

lemma released_ok:
  assumes ok: "tasks_ok s" and l: "\<And>t u c. connects (pt_pc s t) \<noteq> Some (u, l, c)"
  shows "tasks_ok (released l s)"
  using ok l unfolding tasks_ok_defs released_def by auto

lemma send_released_ok: "tasks_ok (send_released k s) = tasks_ok s"
  unfolding tasks_ok_defs send_released_def by auto

text \<open>A new guardian for a user that has none running.\<close>

lemma spawn_ok:
  assumes ok: "tasks_ok s" and none: "\<And>t. guardian_of (pt_pc s t) \<noteq> Some u"
  shows "tasks_ok (goes (pt_fresh s) (GHead u) (s\<lparr>pt_info := dict_set (pt_info s) u i,
    pt_guardians := dict_set (pt_guardians s) u (pt_fresh s), pt_fresh := Suc (pt_fresh s)\<rparr>))" (is "tasks_ok ?s")
proof -
  have idle: "pt_pc s (pt_fresh s) = Done" using tasks_okD(4) [OF ok, of "pt_fresh s"] by auto
  have proj: "wants_lock (pt_pc ?s t) = wants_lock (pt_pc s t)" "connects (pt_pc ?s t) = connects (pt_pc s t)"
    "watches (pt_pc ?s t) = watches (pt_pc s t)"
    "guardian_of (pt_pc ?s t) = (if t = pt_fresh s then Some u else guardian_of (pt_pc s t))" for t
    using idle by (simp_all add: goes_def)
  have f: "pt_clients ?s = pt_clients s" "pt_live ?s = pt_live s" "pt_next ?s = pt_next s" "pt_locks ?s = pt_locks s"
    "pt_held ?s = pt_held s" "pt_down ?s = pt_down s"
    "pt_info ?s = dict_set (pt_info s) u i" "pt_guardians ?s = dict_set (pt_guardians s) u (pt_fresh s)"
    by (simp_all add: goes_def)
  have old: "g \<noteq> pt_fresh s" if "dict_get (pt_guardians s) v = Some g" for v g using tasks_okD(5) [OF ok that] by simp
  have "tasks_locked ?s"
    using ok unfolding tasks_ok_def tasks_locked_def by (auto simp: goes_def less_Suc_eq)
  moreover have "tasks_guarded ?s"
  proof (rule tasks_guardedI, unfold f proj)
    fix t v assume "(if t = pt_fresh s then Some u else guardian_of (pt_pc s t)) = Some v"
    then show "dict_get (dict_set (pt_guardians s) u (pt_fresh s)) v = Some t \<and> dict_get (dict_set (pt_info s) u i) v \<noteq> None"
      using tasks_okD(6) [OF ok, of t v] none [of t] by (auto split: if_splits)
  next
    fix v g assume "dict_get (dict_set (pt_guardians s) u (pt_fresh s)) v = Some g"
    then show "pt_pc ?s g = Done \<or> (if g = pt_fresh s then Some u else guardian_of (pt_pc s g)) = Some v"
      using tasks_okD(13) [OF ok, of v g] old [of v g] by (auto simp: goes_def split: if_splits)
  next
    fix v c assume "dict_get (pt_clients s) v = Some c" "c \<in> set (pt_live s)"
    from tasks_okD(8) [OF ok this] obtain g where g: "dict_get (pt_guardians s) v = Some g" "guardian_of (pt_pc s g) = Some v"
      by blast
    then show "\<exists>g. dict_get (dict_set (pt_guardians s) u (pt_fresh s)) v = Some g \<and>
        (if g = pt_fresh s then Some u else guardian_of (pt_pc s g)) = Some v"
      using old [OF g(1)] none [of g] by auto
  qed (use tasks_okD(7,9) [OF ok] in \<open>auto split: if_splits\<close>)
  moreover have "tasks_owned ?s"
    using ok unfolding tasks_ok_def tasks_owned_def proj f by blast
  ultimately show ?thesis by (simp add: tasks_ok_def)
qed

text \<open>A connected client becomes the live one of its user.\<close>

lemma live_ok:
  assumes ok: "tasks_ok s" and c: "c < pt_next s" "\<And>v. dict_get (pt_clients s) v \<noteq> Some c"
    "\<And>t v. watches (pt_pc s t) \<noteq> Some (v, c)" "\<And>t v l. connects (pt_pc s t) \<noteq> Some (v, l, c)"
    and alone: "\<And>t l c'. connects (pt_pc s t) \<noteq> Some (u, l, c')"
    and dead: "\<And>c0. dict_get (pt_clients s) u = Some c0 \<Longrightarrow> c0 \<notin> set (pt_live s)"
    and g: "guardian_of (pt_pc s g) = Some u"
  shows "tasks_ok (s\<lparr>pt_clients := dict_set (pt_clients s) u c, pt_live := c # pt_live s\<rparr>)" (is "tasks_ok ?s")
proof -
  have f: "pt_clients ?s = dict_set (pt_clients s) u c" "pt_live ?s = c # pt_live s" "pt_next ?s = pt_next s"
    "pt_pc ?s = pt_pc s" "pt_guardians ?s = pt_guardians s" "pt_info ?s = pt_info s"
    by simp_all
  note gu = tasks_okD(6) [OF ok g]
  have "tasks_locked ?s" using ok unfolding tasks_ok_def tasks_locked_def by simp
  moreover have "tasks_guarded ?s"
  proof (rule tasks_guardedI, unfold f)
    fix t v c' assume "watches (pt_pc s t) = Some (v, c')" "c' \<in> set (c # pt_live s)"
    then show "dict_get (dict_set (pt_clients s) u c) v = Some c'"
      using tasks_okD(7) [OF ok, of t v c'] c(3) dead by auto
  qed (use tasks_okD(6,8,9,13) [OF ok] g gu c(2) in \<open>auto split: if_splits\<close>)
  moreover have "tasks_owned ?s" unfolding tasks_owned_def f
  proof (intro conjI allI impI ballI)
    fix c' assume "c' \<in> set (c # pt_live s)"
    then show "\<exists>v. dict_get (dict_set (pt_clients s) u c) v = Some c'"
    proof (cases "c' = c")
      case False
      then obtain v where "dict_get (pt_clients s) v = Some c'" "c' \<in> set (pt_live s)"
        using tasks_okD(10) [OF ok, of c'] \<open>c' \<in> set (c # pt_live s)\<close> by auto
      then show ?thesis using dead by (intro exI [of _ v]) auto
    qed (intro exI [of _ u], simp)
  qed (use ok c alone in \<open>auto simp: tasks_ok_def tasks_owned_def split: if_splits\<close>)
  ultimately show ?thesis by (simp add: tasks_ok_def)
qed

section \<open>Every calm step keeps the invariant\<close>

lemma go_on_ok:
  assumes step: "go_on t (pt_pc s t) s = Some s'" and ok: "tasks_ok s"
  shows "tasks_ok s'"
proof -
  note calm = ok [unfolded tasks_ok_def tasks_locked_def]
  have calm_t: "calm_pc (pt_pc s t)" and up: "\<not> pt_down s" using calm by blast+
  show ?thesis
  proof (cases "pt_pc s t")
    case (WantSend u i k)
    let ?s0 = "s\<lparr>pt_send_held := dict_set (pt_send_held s) k t\<rparr>"
    have ok0: "tasks_ok ?s0" using ok unfolding tasks_ok_defs by simp
    obtain l s1 where cl: "conn_lock u ?s0 = (l, s1)" by fastforce
    note c = conn_lock_ok [OF cl ok0]
    have s': "s' = goes t (WantConn u i False k l) s1" using step WantSend cl by (auto split: if_splits)
    show ?thesis unfolding s' by (rule move_ok) (use c WantSend in auto)
  next
    case (WantConn u i again k l)
    have t: "t < pt_fresh s" using tasks_okD(4) [OF ok, of t] WantConn by simp
    have fr: "free (pt_held s) l" using step WantConn by (auto split: if_splits)
    show ?thesis
    proof (cases "\<exists>c. dict_get (pt_clients s) u = Some c \<and> c \<in> set (pt_live s)")
      case True
      then obtain c where "s' = goes t (Sending u i again k c) s" using step WantConn fr by (auto simp: Let_def)
      then show ?thesis using WantConn by (simp only:) (rule move_ok [OF ok], auto)
    next
      case False
      then have s': "s' = goes t (Connecting u i again k l (pt_next s)) (acquired l t (s\<lparr>pt_next := Suc (pt_next s)\<rparr>))"
        using step WantConn fr by (auto simp: Let_def split: option.splits if_splits)
      show ?thesis unfolding s' by (rule enter_ok [OF ok t _ _ fr]) (use WantConn False in auto)
    qed
  next
    case (Reconnect u i k)
    obtain l s1 where cl: "conn_lock u s = (l, s1)" by fastforce
    note c = conn_lock_ok [OF cl ok]
    have s': "s' = goes t (WantConn u i True k l) s1" using step Reconnect cl by auto
    show ?thesis unfolding s' by (rule move_ok) (use c Reconnect in auto)
  next
    case (GHead u)
    then show ?thesis using step up ok tasks_okD(8) [OF ok]
      by (auto split: option.splits if_splits intro!: move_ok)
  next
    case (GWatch u c)
    then show ?thesis using step up ok by (auto split: if_splits intro!: move_ok)
  next
    case (GPause u)
    obtain l s1 where cl: "conn_lock u s = (l, s1)" by fastforce
    note c = conn_lock_ok [OF cl ok]
    have "dict_get (pt_info s) u \<noteq> None" using tasks_okD(6) [OF ok, of t u] GPause by simp
    then obtain i where s': "s' = goes t (GWant u i l) s1" using step GPause cl by auto
    show ?thesis unfolding s' by (rule move_ok) (use c GPause in auto)
  next
    case (GWant u i l)
    define s1 where "s1 = (case dict_get (pt_clients s) u of None \<Rightarrow> s | Some c \<Rightarrow> hang_up c s)"
    have s': "s' = goes t (GConnecting u i l (pt_next s1)) (acquired l t (s1\<lparr>pt_next := Suc (pt_next s1)\<rparr>))"
      and fr: "free (pt_held s) l" using step GWant by (auto simp: Let_def s1_def split: if_splits)
    have s1: "tasks_ok s1" "pt_held s1 = pt_held s" "pt_fresh s1 = pt_fresh s" "pt_clients s1 = pt_clients s"
      "\<And>c. dict_get (pt_clients s) u = Some c \<Longrightarrow> c \<notin> set (pt_live s1)"
      using close_ok ok by (auto simp: s1_def split: option.split)
    have pc: "pt_pc s1 t = GWant u i l" using GWant close_pc [of _ s t] by (auto simp: s1_def split: option.split)
    have t: "t < pt_fresh s1" using tasks_okD(4) [OF ok, of t] GWant s1(3) by simp
    show ?thesis unfolding s' by (rule enter_ok [OF s1(1) t]) (use pc fr s1 in auto)
  next
    case (GRetry u)
    then show ?thesis using step ok by (auto intro!: move_ok)
  qed (use step calm_t in \<open>simp_all split: if_splits\<close>)
qed

text \<open>A task that connects is alone in its user's section, with a new client and no live one.\<close>

lemma connecting:
  assumes ok: "tasks_ok s" and con: "connects (pt_pc s t) = Some (u, l, c)"
  shows "connects (pt_pc s t') = Some (v, l, c') \<Longrightarrow> t' = t"
    and "connects (pt_pc s t') = Some (u, l', c') \<Longrightarrow> t' = t"
    and "connects (pt_pc s t') = Some (v, l', c) \<Longrightarrow> t' = t"
    and "c < pt_next s" "dict_get (pt_clients s) v \<noteq> Some c" "watches (pt_pc s t') \<noteq> Some (v, c)"
    and "dict_get (pt_clients s) u = Some c0 \<Longrightarrow> c0 \<notin> set (pt_live s)"
proof -
  show mine: "t' = t" if "connects (pt_pc s t') = Some (v, l, c')" for v
    using tasks_okD(2) [OF ok that] tasks_okD(2) [OF ok con] by simp
  show "t' = t" if "connects (pt_pc s t') = Some (u, l', c')"
    using tasks_okD(1) [OF ok, of t' u l'] tasks_okD(1) [OF ok, of t u l] connects_wants [OF that] connects_wants [OF con]
      mine [of u] that by auto
  show "t' = t" if "connects (pt_pc s t') = Some (v, l', c)"
    using ok that con unfolding tasks_ok_def tasks_owned_def by metis
  show "c < pt_next s" "dict_get (pt_clients s) v \<noteq> Some c" "watches (pt_pc s t') \<noteq> Some (v, c)"
    using tasks_okD(14) [OF ok con] by blast+
  show "dict_get (pt_clients s) u = Some c0 \<Longrightarrow> c0 \<notin> set (pt_live s)" by (rule tasks_okD(12) [OF ok con])
qed

lemma left_ok:
  assumes ok: "tasks_ok s" and con: "connects (pt_pc s t) = Some (u, l, c)"
    and p: "calm_pc p" "connects p = None" "wants_lock p = None" "watches p = None"
      "guardian_of p = guardian_of (pt_pc s t) \<or> p = Done \<and> guardian_of (pt_pc s t) = None"
  shows "tasks_ok (released l (goes t p s))"
proof (rule released_ok)
  have "pt_pc s t \<noteq> Done" using con by auto
  then show "tasks_ok (goes t p s)" by (rule move_ok [OF ok]) (use p in auto)
  show "connects (pt_pc (goes t p s) t') \<noteq> Some (v, l, c')" for t' v c'
    using connecting(1) [OF ok con, of t' v c'] p(2) by (auto simp: goes_def)
qed

text \<open>A sender has connected: the guardian it finds in the table, if any, is not inside the section.\<close>

lemma old_guardian:
  assumes ok: "tasks_ok s" and pc: "pt_pc s t = Connecting u i again k l c"
    and g: "dict_get (pt_guardians s) u = Some g"
  shows "g \<noteq> t" "pt_pc s g = Done \<or> guardian_of (pt_pc s g) = Some u \<and> connects (pt_pc s g) = None"
proof -
  have or: "pt_pc s g = Done \<or> guardian_of (pt_pc s g) = Some u" using tasks_okD(13) [OF ok g] .
  then show "g \<noteq> t" using pc by auto
  moreover have "g = t" if busy: "guardian_of (pt_pc s g) = Some u" "connects (pt_pc s g) \<noteq> None"
  proof -
    obtain l' c' where "connects (pt_pc s g) = Some (u, l', c')" using busy by (cases "pt_pc s g") auto
    then show ?thesis by (rule connecting(2) [OF ok, of t u l c, rotated]) (simp add: pc)
  qed
  ultimately show "pt_pc s g = Done \<or> guardian_of (pt_pc s g) = Some u \<and> connects (pt_pc s g) = None"
    using or by blast
qed

text \<open>The table's guardian is stopped, and the section left: then the user has no guardian.\<close>

definition unguarded :: "string \<Rightarrow> nat \<Rightarrow> ptasks \<Rightarrow> ptasks" where
  "unguarded u t s = (case dict_get (pt_guardians s) u of None \<Rightarrow> s | Some g \<Rightarrow> goes g Done s)"

lemma unguarded_ok:
  assumes ok: "tasks_ok s" and pc: "pt_pc s t = Connecting u i again k l c"
  defines "s3 \<equiv> unguarded u t (released l (goes t (Sending u i again k c) s))"
  shows "tasks_ok s3"
    and "pt_pc s3 t' = (if t' = t then Sending u i again k c
      else if dict_get (pt_guardians s) u = Some t' then Done else pt_pc s t')"
    and "guardian_of (pt_pc s3 t') \<noteq> Some u"
proof -
  let ?s2 = "released l (goes t (Sending u i again k c) s)"
  have con: "connects (pt_pc s t) = Some (u, l, c)" by (simp add: pc)
  have ok2: "tasks_ok ?s2" by (rule left_ok [OF ok con]) (use pc in auto)
  have pc2: "pt_pc ?s2 = (pt_pc s)(t := Sending u i again k c)" "pt_guardians ?s2 = pt_guardians s"
    "pt_clients ?s2 = pt_clients s" "pt_live ?s2 = pt_live s" by (simp_all add: goes_def released_def)
  show "tasks_ok s3"
  proof (cases "dict_get (pt_guardians s) u")
    case (Some g)
    note old = old_guardian [OF ok pc Some]
    show ?thesis
    proof (cases "pt_pc s g = Done")
      case True
      then have "goes g Done ?s2 = ?s2" using old pc2 by (simp add: goes_def fun_upd_idem)
      then show ?thesis using Some ok2 pc2 by (simp add: s3_def unguarded_def)
    next
      case False
      then have "guardian_of (pt_pc ?s2 g) = Some u" "pt_pc ?s2 g \<noteq> Done" using old pc2 by auto
      then show ?thesis using Some connecting(7) [OF ok con] pc2
        by (auto simp: s3_def unguarded_def intro!: move_ok [OF ok2])
    qed
  qed (simp add: s3_def unguarded_def ok2 pc2)
  show pc3: "pt_pc s3 t' = (if t' = t then Sending u i again k c
      else if dict_get (pt_guardians s) u = Some t' then Done else pt_pc s t')" for t'
    using old_guardian(1) [OF ok pc] pc2 by (auto simp: s3_def unguarded_def goes_def split: option.split)
  show "guardian_of (pt_pc s3 t') \<noteq> Some u"
    using tasks_okD(6) [OF ok, of t' u] by (auto simp: pc3)
qed

lemma sender_connected_ok:
  assumes step: "connect_done t True (pt_pc s t) s = Some s'" and ok: "tasks_ok s"
    and pc: "pt_pc s t = Connecting u i again k l c"
  shows "tasks_ok s'"
proof -
  have con: "connects (pt_pc s t) = Some (u, l, c)" by (simp add: pc)
  note facts = connecting [OF ok con] and old = old_guardian [OF ok pc]
  define s3 where "s3 = unguarded u t (released l (goes t (Sending u i again k c) s))"
  note ok3 = unguarded_ok [OF ok pc, folded s3_def]
  have f3: "pt_clients s3 = pt_clients s" "pt_live s3 = pt_live s" "pt_next s3 = pt_next s"
    "pt_fresh s3 = pt_fresh s" "pt_guardians s3 = pt_guardians s" "pt_info s3 = pt_info s"
    by (simp_all add: s3_def unguarded_def goes_def released_def split: option.split)
  define s4 where "s4 = goes (pt_fresh s3) (GHead u) (s3\<lparr>pt_info := dict_set (pt_info s3) u i,
    pt_guardians := dict_set (pt_guardians s3) u (pt_fresh s3), pt_fresh := Suc (pt_fresh s3)\<rparr>)"
  have ok4: "tasks_ok s4" unfolding s4_def by (rule spawn_ok [OF ok3(1,3)])
  have f4: "pt_clients s4 = pt_clients s" "pt_live s4 = pt_live s" "pt_next s4 = pt_next s"
    "guardian_of (pt_pc s4 (pt_fresh s3)) = Some u" by (simp_all add: s4_def goes_def f3)
  have pr: "watches (pt_pc s4 t') = Some w \<Longrightarrow> watches (pt_pc s t') = Some w"
    "connects (pt_pc s4 t') = Some a \<Longrightarrow> connects (pt_pc s t') = Some a \<and> t' \<noteq> t" for t' w a
    using ok3(2) by (auto simp: s4_def goes_def split: if_splits)
  have "cancelled g x = goes g Done x" if "dict_get (pt_guardians s) u = Some g" "pt_pc x = pt_pc s" for g x
    using old(2) [OF that(1)] that(2) by (cases "pt_pc s g") (auto simp: cancelled_def)
  then have "s' = s4\<lparr>pt_clients := dict_set (pt_clients s4) u c, pt_live := c # pt_live s4\<rparr>"
    using step pc old(1) tasks_okD(4) [OF ok, of t]
    by (auto simp: start_guardian_task_def Let_def s4_def s3_def unguarded_def goes_def released_def fun_upd_twist
        split: option.split_asm)
  moreover have "tasks_ok (s4\<lparr>pt_clients := dict_set (pt_clients s4) u c, pt_live := c # pt_live s4\<rparr>)"
  proof (rule live_ok [OF ok4 _ _ _ _ _ _ f4(4)], unfold f4(1-3))
    show "watches (pt_pc s4 t') \<noteq> Some (v, c)" for t' v using pr(1) facts(6) by blast
    show "connects (pt_pc s4 t') \<noteq> Some (v, l', c)" for t' v l' using pr(2) facts(3) by blast
    show "connects (pt_pc s4 t') \<noteq> Some (u, l', c')" for t' l' c' using pr(2) facts(2) by blast
  qed (use facts(4,5,7) in auto)
  ultimately show ?thesis by simp
qed

lemma guardian_connected_ok:
  assumes step: "connect_done t True (pt_pc s t) s = Some s'" and ok: "tasks_ok s"
    and pc: "pt_pc s t = GConnecting u i l c"
  shows "tasks_ok s'"
proof -
  have con: "connects (pt_pc s t) = Some (u, l, c)" by (simp add: pc)
  note facts = connecting [OF ok con]
  define s2 where "s2 = released l (goes t (GHead u) s)"
  have ok2: "tasks_ok s2" unfolding s2_def by (rule left_ok [OF ok con]) (use pc in auto)
  have f2: "pt_clients s2 = pt_clients s" "pt_live s2 = pt_live s" "pt_next s2 = pt_next s"
    "pt_pc s2 = (pt_pc s)(t := GHead u)" by (simp_all add: s2_def goes_def released_def)
  have "s' = s2\<lparr>pt_clients := dict_set (pt_clients s2) u c, pt_live := c # pt_live s2\<rparr>"
    using step pc by (auto simp: s2_def goes_def released_def)
  moreover have "tasks_ok (s2\<lparr>pt_clients := dict_set (pt_clients s2) u c, pt_live := c # pt_live s2\<rparr>)"
  proof (rule live_ok [OF ok2, where g = t], unfold f2)
    show "connects (((pt_pc s)(t := GHead u)) t') \<noteq> Some (v, l', c)" for t' v l' using facts(3) by auto
    show "connects (((pt_pc s)(t := GHead u)) t') \<noteq> Some (u, l', c')" for t' l' c' using facts(2) by auto
    show "watches (((pt_pc s)(t := GHead u)) t') \<noteq> Some (v, c)" for t' v using facts(6) by auto
  qed (use facts(4,5,7) in auto)
  ultimately show ?thesis by simp
qed

lemma connect_done_ok:
  assumes step: "connect_done t b (pt_pc s t) s = Some s'" and ok: "tasks_ok s"
  shows "tasks_ok s'"
proof (cases b)
  case True
  then show ?thesis using step ok sender_connected_ok guardian_connected_ok by (cases "pt_pc s t") auto
next
  case False
  show ?thesis
  proof (cases "pt_pc s t")
    case (Connecting u i again k l c)
    then have "s' = send_released k (released l (goes t Done s))"
      using step False by (auto simp: goes_def released_def send_released_def)
    then show ?thesis using left_ok [OF ok, of t u l c Done] Connecting by (simp add: send_released_ok)
  next
    case (GConnecting u i l c)
    then have "s' = released l (goes t (GRetry u) s)"
      using step False by (auto simp: goes_def released_def)
    then show ?thesis using left_ok [OF ok, of t u l c "GRetry u"] GConnecting by simp
  qed (use step False in simp_all)
qed

lemma send_done_ok:
  assumes step: "send_done t b (pt_pc s t) s = Some s'" and ok: "tasks_ok s"
  shows "tasks_ok s'"
proof (cases "pt_pc s t")
  case (Sending u i again k c)
  show ?thesis
  proof (cases "b \<or> again")
    case True
    then have "s' = send_released k (goes t Done s)" using step Sending by (auto simp: goes_def send_released_def)
    moreover have "tasks_ok (goes t Done s)" by (rule move_ok [OF ok]) (use Sending in auto)
    ultimately show ?thesis by (simp add: send_released_ok)
  next
    case False
    then have s': "s' = goes t (Reconnect u i k) (hang_up c s)" using step Sending by auto
    have "pt_pc (hang_up c s) t = Sending u i again k c" using Sending by (simp add: hang_up_def)
    then show ?thesis unfolding s' by (intro move_ok [OF close_ok [OF ok]]) auto
  qed
qed (use step in simp_all)

lemma send_message_ok:
  assumes step: "perform cfg (SendMessage u i now) s = Some s'" and ok: "tasks_ok s"
  shows "tasks_ok s'"
proof -
  obtain k s1 where sl: "send_lock u (s\<lparr>pt_last_active := dict_set (pt_last_active s) u now\<rparr>) = (k, s1)" by fastforce
  have s': "s' = goes (pt_fresh s1) (WantSend u i k) (s1\<lparr>pt_fresh := Suc (pt_fresh s1)\<rparr>)" using step sl by simp
  have s1: "pt_fresh s \<le> pt_fresh s1" "pt_pc s1 = pt_pc s" "pt_locks s1 = pt_locks s" "pt_held s1 = pt_held s"
    "pt_guardians s1 = pt_guardians s" "pt_clients s1 = pt_clients s" "pt_live s1 = pt_live s" "pt_info s1 = pt_info s"
    "pt_next s1 = pt_next s" "pt_down s1 = pt_down s"
    using sl by (auto simp: send_lock_def split: option.splits)
  have idle: "pt_pc s (pt_fresh s1) = Done" using tasks_okD(4) [OF ok, of "pt_fresh s1"] s1(1) by fastforce
  have pc: "wants_lock (pt_pc s' t) = wants_lock (pt_pc s t)" "connects (pt_pc s' t) = connects (pt_pc s t)"
    "watches (pt_pc s' t) = watches (pt_pc s t)" "guardian_of (pt_pc s' t) = guardian_of (pt_pc s t)"
    "calm_pc (pt_pc s' t) = calm_pc (pt_pc s t)" for t
    using idle s1 by (simp_all add: s' goes_def)
  have f: "pt_locks s' = pt_locks s" "pt_held s' = pt_held s" "pt_guardians s' = pt_guardians s" "pt_clients s' = pt_clients s"
    "pt_live s' = pt_live s" "pt_info s' = pt_info s" "pt_next s' = pt_next s" "pt_down s' = pt_down s"
    "pt_fresh s' = Suc (pt_fresh s1)" "pt_pc s' = (pt_pc s)(pt_fresh s1 := WantSend u i k)"
    using s1 by (simp_all add: s' goes_def)
  have lt: "x < Suc (pt_fresh s1)" if "x < pt_fresh s" for x using that s1(1) by simp
  have "tasks_locked s'"
    using ok unfolding tasks_ok_def tasks_locked_def pc f by (auto intro: lt)
  moreover have "pt_pc s' g = Done \<or> guardian_of (pt_pc s' g) = Some v" if "dict_get (pt_guardians s) v = Some g" for v g
    using tasks_okD(13) [OF ok that] tasks_okD(5) [OF ok that] s1(1) by (auto simp: f(10))
  then have "tasks_guarded s'"
    using tasks_okD(6,7,8,9) [OF ok] by (intro tasks_guardedI) (unfold pc f(1-8), blast+)
  moreover have "tasks_owned s'" using ok unfolding tasks_ok_def tasks_owned_def pc f(1-8) by blast
  ultimately show ?thesis by (simp add: tasks_ok_def)
qed

lemma perform_ok: "perform cfg a s = Some s' \<Longrightarrow> calm_act a \<Longrightarrow> tasks_ok s \<Longrightarrow> tasks_ok s'"
  using go_on_ok connect_done_ok send_done_ok send_message_ok drop_ok
  by (cases a) (auto simp del: perform.simps(1) split: if_splits)

lemma perform_all_ok:
  "perform_all cfg acts s = Some s' \<Longrightarrow> list_all calm_act acts \<Longrightarrow> tasks_ok s \<Longrightarrow> tasks_ok s'"
  by (induction acts arbitrary: s) (auto split: option.splits dest: perform_ok)

section \<open>Properties\<close>



section \<open>Closing while others work\<close>

text \<open>A first send of a user on an idle manager, as task \<open>t\<close>: it connects, its guardian starts to watch, it is answered.\<close>

definition opened :: "nat \<Rightarrow> string \<Rightarrow> rat \<Rightarrow> pool_act list" where
  "opened t u now = [SendMessage u toy_info now, Go t, Go t, ConnectDone t True, Go (t + 2), SendDone t True]"

definition shutdown_race :: "pool_act list" where
  "shutdown_race = [SendMessage ''u'' toy_info 0, Go 2, Go 2, CloseAll, Go 4, Go 4, Go 4, ConnectDone 2 True, Go 5, SendDone 2 True]"

text \<open>Both users are idle when the cleanup wakes; the second one sends while the first one's connection is closed.\<close>

definition cleanup_race :: "pool_act list" where
  "cleanup_race = opened 2 ''u'' 0 @ opened 6 ''v'' 0 @
     [CleanupWakes 0 100000, SendMessage ''v'' toy_info 100001, Go 9, Go 9, Go 0, Go 0, Go 0, Go 0]"

text \<open>A send waits for the lock the cleanup holds; after the cleanup has removed it the next send makes another.\<close>

definition lock_race :: "pool_act list" where
  "lock_race = opened 2 ''u'' 0 @
     [CleanupWakes 0 100000, Go 0, SendMessage ''u'' toy_info 100001, Go 5, Go 0, Go 0, Go 5,
      SendMessage ''u'' toy_info 100002, Go 7, Go 7, ConnectDone 5 True, ConnectDone 7 True]"

text \<open>
  What goes wrong around closing. (1) A send that is connecting while the manager shuts down
  leaves an open connection when every task has ended. (2) The cleanup computes the list of idle users
  once: it closes the connection on which a request of a user who has become active waits for its answer.
  (3) A send that waits for the user's lock while the cleanup removes it and a later one that makes a new
  lock connect both: a connection stays open that no table holds.
\<close>

theorem closing_races:
  "(case perform_all default_settings shutdown_race started_pool of None \<Rightarrow> False
    | Some s \<Rightarrow> pt_down s \<and> pt_live s = [0] \<and> list_all (\<lambda>t. pt_pc s t = Done) [0..<pt_fresh s]) \<and>
   (case perform_all default_settings cleanup_race started_pool of None \<Rightarrow> False
    | Some s \<Rightarrow> 1 \<in> set (pt_live s) \<and> (case pt_pc s 9 of Sending u i again k c \<Rightarrow> u = ''v'' \<and> c = 1 | _ \<Rightarrow> False) \<and>
       (case perform default_settings (Go 0) s of None \<Rightarrow> False
        | Some s' \<Rightarrow> 1 \<notin> set (pt_live s') \<and> pt_pc s' 9 = pt_pc s 9)) \<and>
   (case perform_all default_settings lock_race started_pool of None \<Rightarrow> False
    | Some s \<Rightarrow> \<not> pt_down s \<and> 1 \<in> set (pt_live s) \<and> 1 \<notin> snd ` set (pt_clients s))"
  by (intro conjI) code_simp+



end
