(* ===== verification/PoolRefinement.thy ===== *)
theory PoolRefinement
  imports PoolTasks
begin

text \<open>
  The operations of \<open>WsManager\<close>, which run to their end at once, are what the tasks of \<open>PoolTasks\<close> do when
  nothing interrupts them: every sequential run of sends, dropped connections and cleanups is an
  interleaving in which each task runs in one block.
\<close>

section \<open>The common state\<close>

definition same_pool :: "pool \<Rightarrow> ptasks \<Rightarrow> bool" where
  "same_pool p s \<longleftrightarrow> pt_clients s = p_clients p \<and> pt_info s = p_info p \<and> pt_last_active s = p_last_active p \<and>
     pt_live s = p_live p \<and> pt_next s = p_next p \<and> pt_down s = p_down p"

text \<open>No connection lock is held; the tasks \<open>ts\<close> exist and are no guardians.\<close>

definition unlocked :: "nat list \<Rightarrow> ptasks \<Rightarrow> bool" where
  "unlocked ts s \<longleftrightarrow> pt_held s = [] \<and> list_all (\<lambda>t. t < pt_fresh s) ts \<and>
     (\<forall>u g. dict_get (pt_guardians s) u = Some g \<longrightarrow> g < pt_fresh s \<and> g \<notin> set ts)"

fun own_act :: "nat \<Rightarrow> pool_act \<Rightarrow> bool" where
  "own_act t (Go t') \<longleftrightarrow> t' = t"
| "own_act t (ConnectDone t' ok) \<longleftrightarrow> t' = t"
| "own_act t (SendDone t' ok) \<longleftrightarrow> t' = t"
| "own_act t a \<longleftrightarrow> False"

lemma perform_all_append:
  "perform_all cfg (as @ bs) s = (case perform_all cfg as s of None \<Rightarrow> None | Some s1 \<Rightarrow> perform_all cfg bs s1)"
  by (induction as arbitrary: s) (auto split: option.splits)

section \<open>Single steps\<close>

lemma dict_pop_empty [simp]: "dict_pop [] k = []"
  by (simp add: dict_pop_def)

lemma dict_pop_single: "dict_pop (dict_set [] k v) l = (if l = k then [] else dict_set [] k v)"
  by (simp add: dict_pop_def dict_set_def)

lemma hang_up_fields [simp]:
  "pt_clients (hang_up c s) = pt_clients s" "pt_info (hang_up c s) = pt_info s"
  "pt_last_active (hang_up c s) = pt_last_active s" "pt_live (hang_up c s) = removeAll c (pt_live s)"
  "pt_next (hang_up c s) = pt_next s" "pt_down (hang_up c s) = pt_down s" "pt_held (hang_up c s) = pt_held s"
  "pt_send_held (hang_up c s) = pt_send_held s" "pt_fresh (hang_up c s) = pt_fresh s"
  "pt_guardians (hang_up c s) = pt_guardians s"
  by (simp_all add: hang_up_def)

lemma hang_up_pc: "watches (pt_pc s t) = None \<Longrightarrow> pt_pc (hang_up c s) t = pt_pc s t"
  by (cases "pt_pc s t") (simp_all add: hang_up_def)

lemma goes_fields [simp]:
  "pt_clients (goes t x s) = pt_clients s" "pt_info (goes t x s) = pt_info s"
  "pt_last_active (goes t x s) = pt_last_active s" "pt_live (goes t x s) = pt_live s"
  "pt_next (goes t x s) = pt_next s" "pt_down (goes t x s) = pt_down s" "pt_held (goes t x s) = pt_held s"
  "pt_send_held (goes t x s) = pt_send_held s" "pt_fresh (goes t x s) = pt_fresh s"
  "pt_guardians (goes t x s) = pt_guardians s" "pt_pc (goes t x s) = (pt_pc s)(t := x)"
  by (simp_all add: goes_def)

lemma cancelled_fields [simp]:
  "pt_clients (cancelled t s) = pt_clients s" "pt_info (cancelled t s) = pt_info s"
  "pt_last_active (cancelled t s) = pt_last_active s" "pt_live (cancelled t s) = pt_live s"
  "pt_next (cancelled t s) = pt_next s" "pt_down (cancelled t s) = pt_down s"
  "pt_send_held (cancelled t s) = pt_send_held s" "pt_fresh (cancelled t s) = pt_fresh s"
  "pt_guardians (cancelled t s) = pt_guardians s" "t' \<noteq> t \<Longrightarrow> pt_pc (cancelled t s) t' = pt_pc s t'"
  by (simp_all add: cancelled_def released_def split: task_pc.splits)

lemma cancelled_held:
  "pt_held (cancelled t s) = pt_held s \<or> (\<exists>l. pt_held (cancelled t s) = dict_pop (pt_held s) l)"
  by (auto simp: cancelled_def released_def split: task_pc.splits)

lemma conn_lock_fields:
  assumes "conn_lock u s = (l, s1)"
  shows "pt_clients s1 = pt_clients s" "pt_info s1 = pt_info s" "pt_last_active s1 = pt_last_active s"
    "pt_live s1 = pt_live s" "pt_next s1 = pt_next s" "pt_down s1 = pt_down s" "pt_held s1 = pt_held s"
    "pt_send_held s1 = pt_send_held s" "pt_guardians s1 = pt_guardians s" "pt_pc s1 = pt_pc s"
    "pt_fresh s \<le> pt_fresh s1"
  using assms by (auto simp: conn_lock_def split: option.splits)

lemma send_lock_fields:
  assumes "send_lock u s = (l, s1)"
  shows "pt_clients s1 = pt_clients s" "pt_info s1 = pt_info s" "pt_last_active s1 = pt_last_active s"
    "pt_live s1 = pt_live s" "pt_next s1 = pt_next s" "pt_down s1 = pt_down s" "pt_held s1 = pt_held s"
    "pt_send_held s1 = pt_send_held s" "pt_guardians s1 = pt_guardians s" "pt_pc s1 = pt_pc s"
    "pt_fresh s \<le> pt_fresh s1"
  using assms by (auto simp: send_lock_def split: option.splits)

text \<open>Starting a guardian, inside the connection lock or outside.\<close>

lemma start_guardian_fields:
  assumes "s1 = start_guardian_task u s"
  shows "pt_clients s1 = pt_clients s" "pt_info s1 = pt_info s" "pt_last_active s1 = pt_last_active s"
    "pt_live s1 = pt_live s" "pt_next s1 = pt_next s" "pt_down s1 = pt_down s"
    "pt_send_held s1 = pt_send_held s" "pt_fresh s1 = Suc (pt_fresh s)"
    "pt_guardians s1 = dict_set (pt_guardians s) u (pt_fresh s)"
    "pt_held s1 = pt_held s \<or> (\<exists>l. pt_held s1 = dict_pop (pt_held s) l)"
  using assms cancelled_held by (auto simp: start_guardian_task_def Let_def split: option.splits)

lemma start_guardian_pc:
  assumes "dict_get (pt_guardians s) u \<noteq> Some t" "t < pt_fresh s"
  shows "pt_pc (start_guardian_task u s) t = pt_pc s t"
  using assms cancelled_fields(10) [of t] by (auto simp: start_guardian_task_def Let_def split: option.splits)

section \<open>Connecting for a send\<close>

text \<open>
  \<open>get_or_create\<close> inside the lock, up to the request or to the exception. The other tasks
  \<open>ts\<close> stay where they are, unless they watch a connection.
\<close>

lemma get_or_create_run:
  assumes same: "same_pool p s" and free: "unlocked (t # ts) s"
    and pc: "pt_pc s t = WantConn u i again k l" and others: "t \<notin> set ts"
    and atomic: "get_or_create cfg env u i p = (r, p')"
  obtains acts s' where "list_all (own_act t) acts" "perform_all cfg acts s = Some s'" "same_pool p' s'"
    "unlocked (t # ts) s'" "\<forall>x\<in>set ts. pt_pc s' x = pt_pc s x"
    "case r of Inl e \<Rightarrow> pt_pc s' t = Done \<and> pt_send_held s' = dict_pop (pt_send_held s) k
     | Inr c \<Rightarrow> pt_pc s' t = Sending u i again k c \<and> pt_send_held s' = pt_send_held s"
proof (cases "\<exists>c. dict_get (p_clients p) u = Some c \<and> c \<in> set (p_live p)")
  case True
  then obtain c where c: "dict_get (p_clients p) u = Some c" "c \<in> set (p_live p)" by blast
  then have r: "r = Ok c" "p' = p" using atomic by (simp_all add: get_or_create_def)
  let ?s = "goes t (Sending u i again k c) s"
  have "perform_all cfg [Go t] s = Some ?s"
    using pc c same free by (simp add: same_pool_def unlocked_def free_def dict_has_def)
  then show thesis
    using that [of "[Go t]" ?s] same free others r by (simp add: same_pool_def unlocked_def)
next
  case False
  define q where "q = (case dict_get (p_clients p) u of None \<Rightarrow> p | Some c \<Rightarrow> close_pooled c p)"
  have q: "p_clients q = p_clients p" "p_info q = p_info p" "p_last_active q = p_last_active p" "p_live q = p_live p"
    "p_next q = p_next p" "p_down q = p_down p"
    using False by (auto simp: q_def removeAll_id split: option.splits)
  have create: "create_client cfg env u i q = (r, p')"
    using atomic False by (auto simp: get_or_create_def q_def split: option.splits)
  obtain x p1 where x: "connect_with_retry cfg env (p_next p) (q\<lparr>p_next := Suc (p_next p)\<rparr>) = (x, p1)" by fastforce
  note f = connect_with_retry_frame [OF x]
  let ?c = "p_next p"
  define s1 where "s1 = goes t (Connecting u i again k l ?c) (acquired l t (s\<lparr>pt_next := Suc (pt_next s)\<rparr>))"
  have go: "perform cfg (Go t) s = Some s1"
    using pc same free False
    by (auto simp: s1_def same_pool_def unlocked_def free_def dict_has_def Let_def split: option.splits)
  show thesis
  proof (cases x)
    case (Inl e)
    then have r: "r = Inl e" "p' = p1" using create x by (simp_all add: create_client_def q)
    let ?s = "goes t Done (send_released k (released l s1))"
    have "perform_all cfg [Go t, ConnectDone t False] s = Some ?s" using go by (simp add: s1_def)
    moreover have "same_pool p' ?s" "unlocked (t # ts) ?s" "pt_send_held ?s = dict_pop (pt_send_held s) k"
      using same free f Inl q r
      by (auto simp: same_pool_def unlocked_def s1_def acquired_def released_def send_released_def dict_pop_single)
    moreover have "\<forall>x\<in>set ts. pt_pc ?s x = pt_pc s x"
      using others by (auto simp: s1_def acquired_def released_def send_released_def)
    ultimately show thesis using that [of "[Go t, ConnectDone t False]" ?s] r by (simp add: send_released_def)
  next
    case (Inr a)
    then have r: "r = Ok ?c" "p' = start_guardian u (p1\<lparr>p_clients := dict_set (p_clients p1) u ?c,
        p_info := dict_set (p_info p1) u i\<rparr>)" using create x by (auto simp: create_client_def q Let_def)
    define s2 where "s2 = s1\<lparr>pt_clients := dict_set (pt_clients s1) u ?c, pt_live := ?c # pt_live s1,
      pt_info := dict_set (pt_info s1) u i\<rparr>"
    define s3 where "s3 = start_guardian_task u s2"
    let ?s = "goes t (Sending u i again k ?c) (released l s3)"
    have "perform_all cfg [Go t, ConnectDone t True] s = Some ?s"
      using go by (simp add: s1_def s2_def s3_def)
    moreover note g = start_guardian_fields [OF s3_def]
    have s2: "pt_clients s2 = dict_set (p_clients p) u ?c" "pt_info s2 = dict_set (p_info p) u i"
      "pt_last_active s2 = p_last_active p" "pt_live s2 = ?c # p_live p" "pt_next s2 = Suc ?c" "pt_down s2 = p_down p"
      "pt_held s2 = dict_set [] l t" "pt_fresh s2 = pt_fresh s" "pt_guardians s2 = pt_guardians s"
      "pt_send_held s2 = pt_send_held s" "\<forall>x\<in>set ts. pt_pc s2 x = pt_pc s x"
      using same free others by (auto simp: s2_def s1_def acquired_def same_pool_def unlocked_def)
    have "same_pool p' ?s"
      using f Inr q r g s2 by (simp add: same_pool_def released_def start_guardian_def)
    moreover have "dict_pop (pt_held s3) l = []"
      using g(10) s2(7) by (auto simp: dict_pop_single)
    then have "unlocked (t # ts) ?s"
      using free g s2 by (auto simp: unlocked_def released_def list_all_iff less_Suc_eq)
    moreover have "pt_pc s3 x = pt_pc s x" if "x \<in> set ts" for x
    proof -
      have "dict_get (pt_guardians s2) u \<noteq> Some x" "x < pt_fresh s2"
        using free that by (auto simp: s2(8,9) unlocked_def list_all_iff)
      then have "pt_pc s3 x = pt_pc s2 x" unfolding s3_def by (rule start_guardian_pc)
      then show ?thesis using s2(11) that by simp
    qed
    then have "\<forall>x\<in>set ts. pt_pc ?s x = pt_pc s x"
      using others by (auto simp: released_def)
    moreover have "pt_send_held ?s = pt_send_held s" using g s2 by (simp add: released_def)
    ultimately show thesis using that [of "[Go t, ConnectDone t True]" ?s] r by simp
  qed
qed

section \<open>A whole send\<close>

lemma unlocked_later:
  "unlocked ts s \<Longrightarrow> pt_held s' = [] \<Longrightarrow> pt_guardians s' = pt_guardians s \<Longrightarrow> pt_fresh s \<le> pt_fresh s' \<Longrightarrow> unlocked ts s'"
  by (auto simp: unlocked_def list_all_iff intro: less_le_trans)

lemma unlocked_new:
  "unlocked ts s \<Longrightarrow> pt_held s' = [] \<Longrightarrow> pt_guardians s' = pt_guardians s \<Longrightarrow> pt_fresh s \<le> t \<Longrightarrow> t < pt_fresh s' \<Longrightarrow>
    unlocked (t # ts) s'"
  by (fastforce simp: unlocked_def list_all_iff)

lemma unlocked_tl: "unlocked (t # ts) s \<Longrightarrow> unlocked ts s"
  by (auto simp: unlocked_def)

text \<open>Up to the connection lock; the end of the last request; the second try.\<close>

lemma send_enter:
  assumes same: "same_pool p s" and free: "unlocked ts s" "pt_send_held s = []"
  obtains t k l s' where "perform_all cfg [SendMessage u i now, Go t] s = Some s'"
    "same_pool (p\<lparr>p_last_active := dict_set (p_last_active p) u now\<rparr>) s'" "unlocked (t # ts) s'" "t \<notin> set ts"
    "pt_pc s' t = WantConn u i False k l" "pt_send_held s' = dict_set [] k t" "\<forall>x\<in>set ts. pt_pc s' x = pt_pc s x"
proof -
  obtain k s0 where k: "send_lock u (s\<lparr>pt_last_active := dict_set (pt_last_active s) u now\<rparr>) = (k, s0)" by fastforce
  note f0 = send_lock_fields [OF k]
  define t where "t = pt_fresh s0"
  define s1 where "s1 = goes t (WantSend u i k) (s0\<lparr>pt_fresh := Suc t\<rparr>)"
  obtain l s2 where l: "conn_lock u (s1\<lparr>pt_send_held := dict_set (pt_send_held s1) k t\<rparr>) = (l, s2)" by fastforce
  note f2 = conn_lock_fields [OF l]
  define s3 where "s3 = goes t (WantConn u i False k l) s2"
  have ts: "t \<notin> set ts" using free(1) f0(11) by (auto simp: unlocked_def t_def list_all_iff)
  have held1: "pt_send_held s1 = []" using f0 free by (simp add: s1_def)
  have "perform cfg (SendMessage u i now) s = Some s1" using k by (simp add: s1_def t_def)
  moreover have "perform cfg (Go t) s1 = Some s3"
    using l held1 by (simp add: s3_def s1_def free_def dict_has_def)
  moreover have "unlocked (t # ts) s3"
    by (rule unlocked_new [OF free(1)]) (use free(1) f0 f2 in \<open>auto simp: s3_def s1_def t_def unlocked_def\<close>)
  moreover have "same_pool (p\<lparr>p_last_active := dict_set (p_last_active p) u now\<rparr>) s3"
    using same f0 f2 by (simp add: same_pool_def s3_def s1_def)
  ultimately show thesis
    using that [of t s3 k l] ts held1 f0 f2 by (auto simp: s3_def s1_def)
qed

lemma send_end:
  assumes "pt_pc s t = Sending u i again k c" "ok \<or> again" "t \<notin> set ts"
    and "same_pool p s" "unlocked (t # ts) s" "pt_send_held s = dict_set [] k t"
  obtains s' where "perform cfg (SendDone t ok) s = Some s'" "same_pool p s'" "unlocked ts s'"
    "pt_send_held s' = []" "pt_pc s' t = Done" "\<forall>x\<in>set ts. pt_pc s' x = pt_pc s x"
proof -
  let ?s = "goes t Done (send_released k s)"
  have "perform cfg (SendDone t ok) s = Some ?s" using assms(1,2) by auto
  moreover have "same_pool p ?s" "unlocked ts ?s" "pt_send_held ?s = []" "\<forall>x\<in>set ts. pt_pc ?s x = pt_pc s x"
    using assms unlocked_tl [OF assms(5)] by (auto simp: same_pool_def unlocked_def send_released_def dict_pop_single)
  ultimately show thesis using that [of ?s] by simp
qed

lemma send_again:
  assumes pc: "pt_pc s t = Sending u i False k c" and ts: "t \<notin> set ts"
    and same: "same_pool p s" and free: "unlocked (t # ts) s" "pt_send_held s = dict_set [] k t"
    and others: "\<forall>x\<in>set ts. watches (pt_pc s x) = None"
    and atomic: "(case get_or_create cfg env u i (close_pooled c p) of
        (Inl e, p3) \<Rightarrow> (Inl e, p3) | (Inr c', p3) \<Rightarrow> send_on env c' message sk idem p3) = (r, p')"
  obtains acts s' where "list_all (own_act t) acts" "perform_all cfg acts s = Some s'" "same_pool p' s'"
    "unlocked ts s'" "pt_send_held s' = []" "pt_pc s' t = Done" "\<forall>x\<in>set ts. pt_pc s' x = pt_pc s x"
proof -
  obtain r2 p3 where g: "get_or_create cfg env u i (close_pooled c p) = (r2, p3)" by fastforce
  define s5 where "s5 = goes t (Reconnect u i k) (hang_up c s)"
  obtain l s6 where l: "conn_lock u s5 = (l, s6)" by fastforce
  note f6 = conn_lock_fields [OF l]
  define s7 where "s7 = goes t (WantConn u i True k l) s6"
  have first: "perform_all cfg [SendDone t False, Go t] s = Some s7"
    using pc l by (simp add: s5_def s7_def)
  have same7: "same_pool (close_pooled c p) s7" using same f6 by (simp add: same_pool_def s7_def s5_def)
  have free7: "unlocked (t # ts) s7"
    by (rule unlocked_later [OF free(1)]) (use free(1) f6 in \<open>auto simp: s7_def s5_def unlocked_def\<close>)
  have others7: "\<forall>x\<in>set ts. pt_pc s7 x = pt_pc s x"
    using ts f6 others hang_up_pc by (auto simp: s7_def s5_def)
  have pc7: "pt_pc s7 t = WantConn u i True k l" by (simp add: s7_def)
  have held7: "pt_send_held s7 = dict_set [] k t" using f6 free(2) by (simp add: s7_def s5_def)
  obtain acts s8 where run: "list_all (own_act t) acts" "perform_all cfg acts s7 = Some s8" "same_pool p3 s8"
    "unlocked (t # ts) s8" "\<forall>x\<in>set ts. pt_pc s8 x = pt_pc s7 x"
    "case r2 of Inl e \<Rightarrow> pt_pc s8 t = Done \<and> pt_send_held s8 = dict_pop (pt_send_held s7) k
     | Inr c \<Rightarrow> pt_pc s8 t = Sending u i True k c \<and> pt_send_held s8 = pt_send_held s7"
    by (rule get_or_create_run [OF same7 free7 pc7 ts g])
  let ?acts = "[SendDone t False, Go t] @ acts"
  have all: "perform_all cfg ?acts s = Some s8" unfolding perform_all_append first using run(2) by simp
  show thesis
  proof (cases r2)
    case (Inl e)
    then have "p' = p3" using atomic g by simp
    with Inl all run held7 others7 show thesis
      by (intro that [of ?acts s8]) (auto simp: unlocked_tl dict_pop_single)
  next
    case (Inr c')
    then have p': "p' = acted (SendVia c' message sk idem) p3" using atomic g by (simp add: send_on_def)
    have same8: "same_pool p' s8" using run(3) by (simp add: p' same_pool_def)
    have sending: "pt_pc s8 t = Sending u i True k c'" "pt_send_held s8 = dict_set [] k t"
      using run(6) Inr held7 by simp_all
    obtain s9 where s9: "perform cfg (SendDone t True) s8 = Some s9" "same_pool p' s9" "unlocked ts s9"
      "pt_send_held s9 = []" "pt_pc s9 t = Done" "\<forall>x\<in>set ts. pt_pc s9 x = pt_pc s8 x"
      by (rule send_end [OF sending(1) _ ts same8 run(4) sending(2), where ok = True]) simp
    have "perform_all cfg (?acts @ [SendDone t True]) s = perform_all cfg [SendDone t True] s8"
      by (subst perform_all_append) (simp only: all option.case)
    with s9 run(1,5) others7 show thesis by (intro that [of "?acts @ [SendDone t True]" s9]) simp_all
  qed
qed

lemma send_run:
  assumes same: "same_pool p s" and free: "unlocked ts s" "pt_send_held s = []"
    and atomic: "pool_send_message cfg env now idem u i message sk p = (r, p')"
    and others: "\<forall>x\<in>set ts. watches (pt_pc s x) = None"
  obtains t acts s' where "list_all (own_act t) acts"
    "perform_all cfg (SendMessage u i now # acts) s = Some s'" "same_pool p' s'" "unlocked ts s'"
    "pt_send_held s' = []" "pt_pc s' t = Done" "\<forall>x\<in>set ts. pt_pc s' x = pt_pc s x"
proof -
  define p0 where "p0 = p\<lparr>p_last_active := dict_set (p_last_active p) u now\<rparr>"
  obtain t k l s3 where enter: "perform_all cfg [SendMessage u i now, Go t] s = Some s3"
    "same_pool p0 s3" "unlocked (t # ts) s3" "t \<notin> set ts"
    "pt_pc s3 t = WantConn u i False k l" "pt_send_held s3 = dict_set [] k t" "\<forall>x\<in>set ts. pt_pc s3 x = pt_pc s x"
    unfolding p0_def by (rule send_enter [OF same free])
  obtain r1 p1 where g: "get_or_create cfg env u i p0 = (r1, p1)" by fastforce
  obtain acts s4 where run: "list_all (own_act t) acts" "perform_all cfg acts s3 = Some s4" "same_pool p1 s4"
    "unlocked (t # ts) s4" "\<forall>x\<in>set ts. pt_pc s4 x = pt_pc s3 x"
    "case r1 of Inl e \<Rightarrow> pt_pc s4 t = Done \<and> pt_send_held s4 = dict_pop (pt_send_held s3) k
     | Inr c \<Rightarrow> pt_pc s4 t = Sending u i False k c \<and> pt_send_held s4 = pt_send_held s3"
    by (rule get_or_create_run [OF enter(2,3,5,4) g])
  have all: "perform_all cfg (SendMessage u i now # Go t # acts @ bs) s = perform_all cfg bs s4" for bs
    using perform_all_append [of cfg "[SendMessage u i now, Go t]" "acts @ bs" s]
      perform_all_append [of cfg acts bs s3] by (simp add: enter(1) run(2) del: perform_all.simps)
  show thesis
  proof (cases r1)
    case (Inl e)
    then have "p' = p1" using atomic g by (simp add: pool_send_message_def p0_def)
    with run Inl enter all [of "[]"] show thesis
      by (intro that [of t "Go t # acts" s4]) (auto simp: unlocked_tl dict_pop_single simp del: perform.simps)
  next
    case (Inr c)
    define p2 where "p2 = acted (SendVia c message sk idem) p1"
    have sending: "pt_pc s4 t = Sending u i False k c" "pt_send_held s4 = dict_set [] k t"
      using run(6) Inr enter(6) by simp_all
    have same4: "same_pool p2 s4" using run(3) by (simp add: same_pool_def p2_def)
    have "\<exists>bs s'. list_all (own_act t) bs \<and> perform_all cfg bs s4 = Some s' \<and> same_pool p' s' \<and> unlocked ts s' \<and>
        pt_send_held s' = [] \<and> pt_pc s' t = Done \<and> (\<forall>x\<in>set ts. pt_pc s' x = pt_pc s4 x)"
    proof (cases "pe_send env c")
      case ok: (Inr x)
      then have "p' = p2" using atomic g Inr by (simp add: pool_send_message_def p0_def p2_def send_on_def)
      have "True \<or> False" by simp
      then obtain s5 where "perform cfg (SendDone t True) s4 = Some s5" "same_pool p2 s5" "unlocked ts s5"
        "pt_send_held s5 = []" "pt_pc s5 t = Done" "\<forall>x\<in>set ts. pt_pc s5 x = pt_pc s4 x"
        by (rule send_end [OF sending(1) _ enter(4) same4 run(4) sending(2)])
      with \<open>p' = p2\<close> show ?thesis by (intro exI [of _ "[SendDone t True]"] exI [of _ s5]) simp
    next
      case failed: (Inl e)
      have again: "(case get_or_create cfg env u i (close_pooled c p2) of
          (Inl e, p3) \<Rightarrow> (Inl e, p3) | (Inr c', p3) \<Rightarrow> send_on env c' message sk idem p3) = (r, p')"
        using atomic g Inr failed by (simp add: pool_send_message_def p0_def p2_def send_on_def)
      have "\<forall>x\<in>set ts. watches (pt_pc s4 x) = None" using others enter(7) run(5) by simp
      then show ?thesis
        by (rule send_again [OF sending(1) enter(4) same4 run(4) sending(2) _ again]) blast
    qed
    then obtain bs s' where bs: "list_all (own_act t) bs" "perform_all cfg bs s4 = Some s'" "same_pool p' s'" "unlocked ts s'"
        "pt_send_held s' = []" "pt_pc s' t = Done" "\<forall>x\<in>set ts. pt_pc s' x = pt_pc s4 x" by blast
    show thesis
      by (rule that [of t "Go t # acts @ bs" s']) (use bs all [of bs] run(1,5) enter(7) in \<open>simp_all del: perform_all.simps\<close>)
  qed
qed

section \<open>A whole cleanup\<close>

definition forget_guardian :: "string \<Rightarrow> ptasks \<Rightarrow> ptasks" where
  "forget_guardian u s =
     (let s1 = (case dict_get (pt_guardians s) u of None \<Rightarrow> s | Some g \<Rightarrow> cancelled g s)
      in s1\<lparr>pt_guardians := dict_pop (pt_guardians s1) u\<rparr>)"

lemma next_idle_Cons:
  "next_idle t (u # us) s = goes t (CGone u us) (forget_guardian u (s\<lparr>pt_last_active := dict_pop (pt_last_active s) u\<rparr>))"
  by (simp add: forget_guardian_def Let_def)

lemma forget_guardian_fields [simp]:
  "pt_clients (forget_guardian u s) = pt_clients s" "pt_info (forget_guardian u s) = pt_info s"
  "pt_last_active (forget_guardian u s) = pt_last_active s" "pt_live (forget_guardian u s) = pt_live s"
  "pt_next (forget_guardian u s) = pt_next s" "pt_down (forget_guardian u s) = pt_down s"
  "pt_send_held (forget_guardian u s) = pt_send_held s" "pt_fresh (forget_guardian u s) = pt_fresh s"
  "pt_guardians (forget_guardian u s) = dict_pop (pt_guardians s) u"
  by (simp_all add: forget_guardian_def Let_def split: option.splits)

lemma forget_guardian_held: "pt_held s = [] \<Longrightarrow> pt_held (forget_guardian u s) = []"
  using cancelled_held by (auto simp: forget_guardian_def Let_def split: option.splits) (metis dict_pop_empty)

definition close_idle :: "pool \<Rightarrow> string \<Rightarrow> pool" where
  "close_idle p u = close_connection u (p\<lparr>p_last_active := dict_pop (p_last_active p) u\<rparr>)"

lemma close_idle_run:
  assumes same: "same_pool p s" and free: "unlocked [t] s"
  obtains s' where "perform_all cfg [Go t, Go t, Go t] (next_idle t (u # us) s) = Some (next_idle t us s')"
    "same_pool (close_idle p u) s'" "unlocked [t] s'" "pt_send_held s' = pt_send_held s"
proof -
  define s1 where "s1 = next_idle t (u # us) s"
  have s1: "pt_clients s1 = p_clients p" "pt_info s1 = p_info p" "pt_last_active s1 = dict_pop (p_last_active p) u"
    "pt_live s1 = p_live p" "pt_next s1 = p_next p" "pt_down s1 = p_down p" "pt_held s1 = []"
    "pt_send_held s1 = pt_send_held s" "pt_fresh s1 = pt_fresh s" "pt_guardians s1 = dict_pop (pt_guardians s) u"
    "pt_pc s1 t = CGone u us"
    using same free forget_guardian_held by (simp_all add: s1_def next_idle_Cons same_pool_def unlocked_def del: next_idle.simps)
  obtain l s2 where l: "conn_lock u s1 = (l, s2)" by fastforce
  note f2 = conn_lock_fields [OF l]
  define s3 where "s3 = goes t (CWant u us l) s2"
  define s4 where "s4 = acquired l t (s3\<lparr>pt_clients := dict_pop (pt_clients s3) u, pt_info := dict_pop (pt_info s3) u\<rparr>)"
  define s5 where "s5 = (case dict_get (pt_clients s3) u of None \<Rightarrow> s4 | Some c \<Rightarrow> hang_up c s4)"
  define s6 where "s6 = goes t (CClosing u us l) s5"
  define s7 where "s7 = released l (s6\<lparr>pt_locks := dict_pop (pt_locks s6) u, pt_send_locks := dict_pop (pt_send_locks s6) u\<rparr>)"
  have "perform cfg (Go t) s1 = Some s3" using s1(11) l by (simp add: s3_def)
  moreover have "perform cfg (Go t) s3 = Some s6"
    using s1(7) f2(7) by (simp add: s3_def s4_def s5_def s6_def free_def dict_has_def Let_def split: option.split)
  moreover have "perform cfg (Go t) s6 = Some (next_idle t us s7)" by (simp add: s6_def s7_def)
  ultimately have run: "perform_all cfg [Go t, Go t, Go t] s1 = Some (next_idle t us s7)" by simp
  have s5: "pt_clients s5 = dict_pop (p_clients p) u" "pt_info s5 = dict_pop (p_info p) u"
    "pt_last_active s5 = dict_pop (p_last_active p) u"
    "pt_live s5 = (case dict_get (p_clients p) u of None \<Rightarrow> p_live p | Some c \<Rightarrow> removeAll c (p_live p))"
    "pt_next s5 = p_next p" "pt_down s5 = p_down p" "pt_held s5 = dict_set [] l t" "pt_send_held s5 = pt_send_held s"
    "pt_fresh s1 \<le> pt_fresh s5" "pt_guardians s5 = dict_pop (pt_guardians s) u"
    using s1 f2 by (auto simp: s5_def s4_def s3_def acquired_def split: option.splits)
  have "same_pool (close_idle p u) s7"
    using s5 by (auto simp: same_pool_def s7_def s6_def released_def close_idle_def close_connection_def Let_def split: option.splits)
  moreover have "unlocked [t] s7"
    using s1(9) s5 free by (auto simp: unlocked_def s7_def s6_def released_def dict_pop_single split: if_splits intro: less_le_trans)
  moreover have "pt_send_held s7 = pt_send_held s" using s5 by (simp add: s7_def s6_def released_def)
  ultimately show thesis using that [of s7] run by (simp add: s1_def del: next_idle.simps)
qed

lemma cleanup_users_run:
  assumes "same_pool p s" "unlocked [t] s" "\<not> pt_down s"
  shows "\<exists>acts s'. list_all (own_act t) acts \<and> perform_all cfg acts (next_idle t us s) = Some s' \<and>
    same_pool (foldl close_idle p us) s' \<and> unlocked [t] s' \<and> pt_send_held s' = pt_send_held s \<and> pt_pc s' t = CSleep"
  using assms
proof (induction us arbitrary: p s)
  case Nil
  then show ?case
    by (intro exI [of _ "[]"] exI [of _ "goes t CSleep s"]) (auto simp: same_pool_def unlocked_def)
next
  case (Cons u us)
  obtain s1 where s1: "perform_all cfg [Go t, Go t, Go t] (next_idle t (u # us) s) = Some (next_idle t us s1)"
    "same_pool (close_idle p u) s1" "unlocked [t] s1" "pt_send_held s1 = pt_send_held s"
    by (rule close_idle_run [OF Cons.prems(1,2)])
  have "p_down (close_idle p u) = p_down p"
    by (simp add: close_idle_def close_connection_def Let_def split: option.splits)
  then have "\<not> pt_down s1" using s1(2) Cons.prems(1,3) by (simp add: same_pool_def)
  from Cons.IH [OF s1(2,3) this] obtain acts s' where IH: "list_all (own_act t) acts"
    "perform_all cfg acts (next_idle t us s1) = Some s'" "same_pool (foldl close_idle (close_idle p u) us) s'"
    "unlocked [t] s'" "pt_send_held s' = pt_send_held s1" "pt_pc s' t = CSleep"
    by blast
  have "perform_all cfg ([Go t, Go t, Go t] @ acts) (next_idle t (u # us) s) = Some s'"
    unfolding perform_all_append s1(1) using IH(2) by simp
  with IH s1(4) show ?case
    by (intro exI [of _ "[Go t, Go t, Go t] @ acts"] exI [of _ s']) simp
qed

section \<open>Whole runs\<close>

text \<open>
  The events of \<open>WsManager\<close> in question, and the block of actions that carries one out: a new task, or
  the cleanup task, goes through to its end.
\<close>

fun sequential :: "pool_event \<Rightarrow> bool" where
  "sequential (PoolSend now idem u i message sk) \<longleftrightarrow> True"
| "sequential (DroppedConn c) \<longleftrightarrow> True"
| "sequential (CleanupRuns now) \<longleftrightarrow> True"
| "sequential e \<longleftrightarrow> False"

fun one_block :: "pool_event \<Rightarrow> pool_act list \<Rightarrow> bool" where
  "one_block (PoolSend now idem u i message sk) (SendMessage u' i' now' # acts) \<longleftrightarrow>
     u' = u \<and> i' = i \<and> now' = now \<and> (\<exists>t. list_all (own_act t) acts)"
| "one_block (DroppedConn c) acts \<longleftrightarrow> acts = [] \<or> acts = [PeerDrops c]"
| "one_block (CleanupRuns now) (CleanupWakes t now' # acts) \<longleftrightarrow> now' = now \<and> list_all (own_act t) acts"
| "one_block e acts \<longleftrightarrow> False"

definition at_rest :: "ptasks \<Rightarrow> bool" where
  "at_rest s \<longleftrightarrow> unlocked [0] s \<and> pt_send_held s = [] \<and> pt_pc s 0 = CSleep"

lemma get_or_create_down: "get_or_create cfg env u i p = (r, p') \<Longrightarrow> p_down p' = p_down p"
  by (auto simp: get_or_create_def create_client_def start_guardian_def Let_def
      dest!: connect_with_retry_frame(7) split: option.splits sum.splits prod.splits if_splits)

lemma pool_step_down: "sequential e \<Longrightarrow> p_down (pool_step cfg env p e) = p_down p"
proof (induction e rule: sequential.induct)
  case (1 now idem u i message sk)
  show ?case
    by (auto simp: pool_send_message_def send_on_def dest!: get_or_create_down split: sum.splits prod.splits)
next
  case (3 now)
  have "p_down (foldl close_idle p us) = p_down p" for us
    by (induction us arbitrary: p) (simp_all add: close_idle_def close_connection_def Let_def split: option.splits)
  then show ?case by (simp add: cleanup_pass_def close_idle_def [abs_def])
qed simp_all

lemma block_run:
  assumes "sequential e" and same: "same_pool p s" and rest: "at_rest s" "\<not> p_down p"
  shows "\<exists>b s'. one_block e b \<and> perform_all cfg b s = Some s' \<and> same_pool (pool_step cfg env p e) s' \<and> at_rest s'"
  using assms(1)
proof (induction e rule: sequential.induct)
  case (1 now idem u i message sk)
  obtain r p' where r: "pool_send_message cfg env now idem u i message sk p = (r, p')" by fastforce
  have free: "unlocked [0] s" "pt_send_held s = []" and others: "\<forall>x\<in>set [0]. watches (pt_pc s x) = None"
    using rest(1) by (simp_all add: at_rest_def)
  obtain t acts s' where "list_all (own_act t) acts"
    "perform_all cfg (SendMessage u i now # acts) s = Some s'" "same_pool p' s'" "unlocked [0] s'"
    "pt_send_held s' = []" "pt_pc s' t = Done" "\<forall>x\<in>set [0]. pt_pc s' x = pt_pc s x"
    by (rule send_run [OF same free r others])
  with rest(1) r show ?case
    by (intro exI [of _ "SendMessage u i now # acts"] exI [of _ s']) (auto simp: at_rest_def)
next
  case (2 c)
  show ?case
  proof (cases "c \<in> set (pt_live s)")
    case True
    with same rest(1) show ?thesis
      by (intro exI [of _ "[PeerDrops c]"] exI [of _ "s\<lparr>pt_live := removeAll c (pt_live s)\<rparr>"])
        (simp add: same_pool_def at_rest_def unlocked_def)
  next
    case False
    with same rest(1) show ?thesis
      by (intro exI [of _ "[]"] exI [of _ s]) (simp add: same_pool_def at_rest_def)
  qed
next
  case (3 now)
  have idle: "idle_now cfg now s = idle_users cfg now p"
    using same by (simp add: idle_now_def idle_users_def same_pool_def)
  obtain acts s' where run: "list_all (own_act 0) acts"
    "perform_all cfg acts (next_idle 0 (idle_users cfg now p) s) = Some s'"
    "same_pool (foldl close_idle p (idle_users cfg now p)) s'" "unlocked [0] s'" "pt_send_held s' = pt_send_held s"
    "pt_pc s' 0 = CSleep"
    using cleanup_users_run [OF same, of 0 cfg "idle_users cfg now p"] rest same
    by (auto simp: at_rest_def same_pool_def)
  have "perform cfg (CleanupWakes 0 now) s = Some (next_idle 0 (idle_users cfg now p) s)"
    using rest same idle by (simp add: at_rest_def same_pool_def)
  with run rest(1) show ?case
    by (intro exI [of _ "CleanupWakes 0 now # acts"] exI [of _ s'])
      (simp add: cleanup_pass_def close_idle_def [abs_def] at_rest_def)
qed simp_all



end
