(* ===== verification/Server.thy ===== *)
theory Server
  imports Router Telegram VkTeams Slack Bitrix Mattermost Teams
begin

text \<open>
  The application's lifetime (\<open>lifespan\<close> of \<open>src/main.py\<close>) and its health endpoints
  (\<open>src/utils/health.py\<close>): startup builds the enabled adapters, the registry, the pool and the router and
  starts the listeners; what runs in between acts on one component at a time; shutdown stops them all.
  Logging setup and uvicorn are left out.
\<close>

section \<open>The process\<close>

text \<open>What \<open>init_health\<close> was given: the pool (if any), the Mattermost adapter, the registry.\<close>

record health_refs =
  hr_manager :: bool
  hr_mattermost :: "adapter option"
  hr_providers :: "registry option"

definition no_refs :: health_refs where
  "no_refs = \<lparr>hr_manager = False, hr_mattermost = None, hr_providers = None\<rparr>"

definition init_health :: "adapter option \<Rightarrow> registry \<Rightarrow> health_refs" where
  "init_health mm reg = \<lparr>hr_manager = True, hr_mattermost = mm, hr_providers = Some reg\<rparr>"

record server =
  sv_mattermost :: "mattermost option"
  sv_telegram :: "telegram option"
  sv_bitrix :: "bitrix option"
  sv_slack :: "slack option"
  sv_vk_teams :: "vk_teams option"
  sv_teams :: "teams option"
  sv_router :: router
  sv_refs :: health_refs
  sv_cleanup :: bool
  sv_listeners :: "adapter list"
  sv_engine :: bool

section \<open>Startup\<close>

definition built :: "settings \<Rightarrow> adapter \<Rightarrow> 'a \<Rightarrow> 'a option" where
  "built cfg a x = (if a \<in> set (enabled_adapters cfg) then Some x else None)"

text \<open>A new \<open>MappingStorage\<close>, an empty pool whose cleanup task runs, one listener task per adapter.\<close>

definition startup :: "settings \<Rightarrow> db \<Rightarrow> server" where
  "startup cfg d =
     (let reg = startup_registry cfg;
          rt = new_router reg d
      in \<lparr>sv_mattermost = built cfg MattermostClient (new_mattermost cfg),
          sv_telegram = built cfg TelegramAdapter (new_telegram (telegram_bot_token cfg) ''https://api.telegram.org''),
          sv_bitrix = built cfg BitrixAdapter (new_bitrix (bitrix_webhook_url cfg) (bitrix_bot_id cfg)),
          sv_slack = built cfg SlackAdapter
            (new_slack (slack_bot_token cfg) (slack_app_token cfg) ''https://slack.com/api''),
          sv_vk_teams = built cfg VkTeamsAdapter (new_vk_teams (vk_teams_bot_token cfg) (vk_teams_api_url cfg)),
          sv_teams = built cfg TeamsAdapter (new_teams (teams_app_id cfg) (teams_app_password cfg)
            ''https://login.microsoftonline.com/botframework.com/oauth2/v2.0/token''),
          sv_router = rt, sv_refs = init_health (rt_mattermost rt) reg, sv_cleanup = True,
          sv_listeners = registry_all reg, sv_engine = True\<rparr>)"

section \<open>What runs\<close>

text \<open>An operation on one adapter (its \<open>start\<close> in the listener task, a poll, a call): its exception stays in its task.\<close>

datatype adapter_op =
    OnMattermost "unit mm"
  | OnTelegram "unit tg"
  | OnBitrix "unit bx"
  | OnSlack "unit sl"
  | OnVkTeams "unit vk"
  | OnTeams "unit tm"

fun operate :: "adapter_op \<Rightarrow> server \<Rightarrow> server" where
  "operate (OnMattermost m) s = s\<lparr>sv_mattermost := map_option (\<lambda>x. snd (m x)) (sv_mattermost s)\<rparr>"
| "operate (OnTelegram m) s = s\<lparr>sv_telegram := map_option (\<lambda>x. snd (m x)) (sv_telegram s)\<rparr>"
| "operate (OnBitrix m) s = s\<lparr>sv_bitrix := map_option (\<lambda>x. snd (m x)) (sv_bitrix s)\<rparr>"
| "operate (OnSlack m) s = s\<lparr>sv_slack := map_option (\<lambda>x. snd (m x)) (sv_slack s)\<rparr>"
| "operate (OnVkTeams m) s = s\<lparr>sv_vk_teams := map_option (\<lambda>x. snd (m x)) (sv_vk_teams s)\<rparr>"
| "operate (OnTeams m) s = s\<lparr>sv_teams := map_option (\<lambda>x. snd (m x)) (sv_teams s)\<rparr>"

fun stop_op :: "adapter \<Rightarrow> adapter_op" where
  "stop_op MattermostClient = OnMattermost mm_stop"
| "stop_op TelegramAdapter = OnTelegram tg_stop"
| "stop_op BitrixAdapter = OnBitrix bx_stop"
| "stop_op SlackAdapter = OnSlack sl_stop"
| "stop_op VkTeamsAdapter = OnVkTeams vk_stop"
| "stop_op TeamsAdapter = OnTeams tm_stop"

definition on_pool :: "(pool \<Rightarrow> pool) \<Rightarrow> server \<Rightarrow> server" where
  "on_pool f s = s\<lparr>sv_router := (sv_router s)\<lparr>rt_pool := f (rt_pool (sv_router s))\<rparr>\<rparr>"

section \<open>Shutdown\<close>

definition shutdown :: "server \<Rightarrow> server" where
  "shutdown s =
     (let stopped = foldl (\<lambda>s a. operate (stop_op a) s) s (registry_all (rt_registry (sv_router s)))
      in (on_pool close_all (stopped\<lparr>sv_listeners := []\<rparr>))\<lparr>sv_cleanup := False, sv_engine := False\<rparr>)"

section \<open>Health\<close>

fun connected :: "server \<Rightarrow> adapter \<Rightarrow> bool" where
  "connected s MattermostClient = (case sv_mattermost s of None \<Rightarrow> False | Some x \<Rightarrow> mm_is_connected x)"
| "connected s TelegramAdapter = (case sv_telegram s of None \<Rightarrow> False | Some x \<Rightarrow> tg_is_connected x)"
| "connected s BitrixAdapter = (case sv_bitrix s of None \<Rightarrow> False | Some x \<Rightarrow> bx_is_connected x)"
| "connected s SlackAdapter = (case sv_slack s of None \<Rightarrow> False | Some x \<Rightarrow> sl_is_connected x)"
| "connected s VkTeamsAdapter = (case sv_vk_teams s of None \<Rightarrow> False | Some x \<Rightarrow> vk_is_connected x)"
| "connected s TeamsAdapter = (case sv_teams s of None \<Rightarrow> False | Some x \<Rightarrow> tm_is_connected x)"

record health_reply =
  hl_status :: nat
  hl_body :: json

definition health :: health_reply where
  "health = \<lparr>hl_status = 200, hl_body = JObj [(''status'', JStr ''ok''), (''service'', JStr ''clawmux'')]\<rparr>"

definition health_detail :: "server \<Rightarrow> health_reply" where
  "health_detail s = \<lparr>hl_status = 200, hl_body = JObj [(''status'', JStr ''ok''), (''service'', JStr ''clawmux''),
     (''active_ws_connections'', JInt (if hr_manager (sv_refs s) then int (active_count (rt_pool (sv_router s))) else 0))]\<rparr>"

definition link_state :: "bool \<Rightarrow> string" where
  "link_state up = (if up then ''ok'' else ''disconnected'')"

text \<open>The table of channels, and whether all are connected.\<close>

definition channel_states :: "server \<Rightarrow> (string, string) dict \<times> bool" where
  "channel_states s =
     (case hr_providers (sv_refs s) of
        Some reg \<Rightarrow>
          (if registry_all reg \<noteq> [] then
             (foldl (\<lambda>ch a. dict_set ch (adapter_name a) (link_state (connected s a))) [] (registry_all reg),
              list_all (connected s) (registry_all reg))
           else case hr_mattermost (sv_refs s) of
             Some a \<Rightarrow> ([(''mattermost'', link_state (connected s a))], connected s a)
           | None \<Rightarrow> ([(''default'', ''ok'')], True))
      | None \<Rightarrow>
          (case hr_mattermost (sv_refs s) of
             Some a \<Rightarrow> ([(''mattermost'', link_state (connected s a))], connected s a)
           | None \<Rightarrow> ([(''default'', ''ok'')], True)))"

text \<open>\<open>db_error\<close>: what the ping of the database raised, the timeout of two seconds included.\<close>

definition health_ready :: "string option \<Rightarrow> server \<Rightarrow> health_reply" where
  "health_ready db_error s =
     (case channel_states s of (chans, channels_ok) \<Rightarrow>
      let is_ready = (db_error = None \<and> channels_ok) in
      \<lparr>hl_status = (if is_ready then 200 else 503),
       hl_body = JObj [(''status'', JStr (if is_ready then ''ready'' else ''degraded'')),
         (''service'', JStr ''clawmux''),
         (''database'', JStr (case db_error of None \<Rightarrow> ''ok'' | Some e \<Rightarrow> ''down: '' @ e)),
         (''channels'', JObj (map (\<lambda>(k, v). (k, JStr v)) chans)),
         (''mattermost_ws'', JStr (case dict_get chans ''mattermost'' of
            Some v \<Rightarrow> v | None \<Rightarrow> link_state channels_ok))]\<rparr>)"

section \<open>Runs\<close>

datatype server_event =
    Operates adapter_op
  | PoolDoes pool_env pool_event
  | Shutdown

fun server_step :: "settings \<Rightarrow> server \<Rightarrow> server_event \<Rightarrow> server" where
  "server_step cfg s (Operates m) = operate m s"
| "server_step cfg s (PoolDoes env e) = on_pool (\<lambda>p. pool_step cfg env p e) s"
| "server_step cfg s Shutdown = shutdown s"

fun closed :: "server \<Rightarrow> adapter \<Rightarrow> bool" where
  "closed s MattermostClient = (case sv_mattermost s of None \<Rightarrow> False | Some x \<Rightarrow> mm_closed x)"
| "closed s TelegramAdapter = (case sv_telegram s of None \<Rightarrow> False | Some x \<Rightarrow> tg_closed x)"
| "closed s BitrixAdapter = (case sv_bitrix s of None \<Rightarrow> False | Some x \<Rightarrow> bx_closed x)"
| "closed s SlackAdapter = (case sv_slack s of None \<Rightarrow> False | Some x \<Rightarrow> sl_closed x)"
| "closed s VkTeamsAdapter = (case sv_vk_teams s of None \<Rightarrow> False | Some x \<Rightarrow> vk_closed x)"
| "closed s TeamsAdapter = (case sv_teams s of None \<Rightarrow> False | Some x \<Rightarrow> tm_closed x)"

section \<open>What every run keeps\<close>

fun present :: "server \<Rightarrow> adapter \<Rightarrow> bool" where
  "present s MattermostClient = (sv_mattermost s \<noteq> None)"
| "present s TelegramAdapter = (sv_telegram s \<noteq> None)"
| "present s BitrixAdapter = (sv_bitrix s \<noteq> None)"
| "present s SlackAdapter = (sv_slack s \<noteq> None)"
| "present s VkTeamsAdapter = (sv_vk_teams s \<noteq> None)"
| "present s TeamsAdapter = (sv_teams s \<noteq> None)"

definition server_ok :: "settings \<Rightarrow> server \<Rightarrow> bool" where
  "server_ok cfg s \<longleftrightarrow> rt_registry (sv_router s) = startup_registry cfg \<and>
     sv_refs s = init_health (registry_get (startup_registry cfg) ''mattermost'') (startup_registry cfg) \<and>
     pool_ok (rt_pool (sv_router s)) \<and> (\<forall>a. present s a = (a \<in> set (enabled_adapters cfg)))"

lemma foldl_dict_set:
  "distinct (map key as) \<Longrightarrow> \<forall>a\<in>set as. key a \<notin> fst ` set d \<Longrightarrow>
   foldl (\<lambda>d a. dict_set d (key a) (f a)) d as = d @ map (\<lambda>a. (key a, f a)) as"
proof (induction as arbitrary: d)
  case (Cons a as)
  have "dict_set d (key a) (f a) = d @ [(key a, f a)]"
    using Cons.prems(2) by (induction d) (auto simp: dict_set_def)
  moreover have "\<forall>x\<in>set as. key x \<noteq> key a" using Cons.prems(1) by (auto simp: image_iff)
  ultimately show ?case using Cons.IH [of "d @ [(key a, f a)]"] Cons.prems by auto
qed simp

lemma some_adapters_distinct:
  "distinct (map adapter_name ((if b1 then [MattermostClient] else []) @ (if b2 then [TelegramAdapter] else []) @
     (if b3 then [BitrixAdapter] else []) @ (if b4 then [SlackAdapter] else []) @ (if b5 then [VkTeamsAdapter] else []) @
     (if b6 then [TeamsAdapter] else [])))"
  by (cases b1; cases b2; cases b3; cases b4; cases b5; cases b6) simp_all

lemma enabled_distinct: "distinct (map adapter_name (enabled_adapters cfg))"
  unfolding enabled_adapters_def by (rule some_adapters_distinct)

lemma registry_all_startup: "registry_all (startup_registry cfg) = enabled_adapters cfg"
  using foldl_dict_set [OF enabled_distinct, where d = "[]" and f = "\<lambda>a. a"]
  by (simp add: startup_registry_def register_adapter_def registry_all_def comp_def)

lemma operate_frame:
  "sv_router (operate m s) = sv_router s" "sv_refs (operate m s) = sv_refs s" "present (operate m s) a = present s a"
  "sv_cleanup (operate m s) = sv_cleanup s" "sv_engine (operate m s) = sv_engine s" "sv_listeners (operate m s) = sv_listeners s"
  by (cases m; cases a; simp)+

lemma on_pool_frame:
  "sv_router (on_pool f s) = (sv_router s)\<lparr>rt_pool := f (rt_pool (sv_router s))\<rparr>" "sv_refs (on_pool f s) = sv_refs s"
  "present (on_pool f s) a = present s a" "connected (on_pool f s) a = connected s a" "closed (on_pool f s) a = closed s a"
  by (cases a; simp add: on_pool_def)+

text \<open>Stopping the adapters one after the other.\<close>

definition stop_all :: "adapter list \<Rightarrow> server \<Rightarrow> server" where
  "stop_all as s = foldl (\<lambda>s a. operate (stop_op a) s) s as"

lemma stop_all_simps [simp]: "stop_all [] s = s" "stop_all (a # as) s = stop_all as (operate (stop_op a) s)"
  by (simp_all add: stop_all_def)

lemma stop_all_frame:
  "sv_router (stop_all as s) = sv_router s" "sv_refs (stop_all as s) = sv_refs s" "present (stop_all as s) a = present s a"
  by (induction as arbitrary: s) (simp_all add: operate_frame)

lemma stop_op_self: "present s a \<Longrightarrow> \<not> connected (operate (stop_op a) s) a \<and> closed (operate (stop_op a) s) a"
  by (cases a)
    (auto simp: mm_stop_def tg_stop_def bx_stop_def sl_stop_def vk_stop_def tm_stop_def emod_def
      mm_is_connected_def tg_is_connected_def bx_is_connected_def sl_is_connected_def vk_is_connected_def tm_is_connected_def)

lemma stop_op_other: "a \<noteq> b \<Longrightarrow> connected (operate (stop_op b) s) a = connected s a \<and> closed (operate (stop_op b) s) a = closed s a"
  by (cases a; cases b) simp_all

lemma stop_op_stopped:
  assumes "present s a" "\<not> connected s a \<and> closed s a"
  shows "\<not> connected (operate (stop_op b) s) a \<and> closed (operate (stop_op b) s) a"
  using assms stop_op_self [of s a] stop_op_other [of a b s] by (cases "a = b") auto

lemma stop_all_stopped:
  "present s a \<Longrightarrow> a \<in> set as \<or> \<not> connected s a \<and> closed s a \<Longrightarrow>
   \<not> connected (stop_all as s) a \<and> closed (stop_all as s) a"
proof (induction as arbitrary: s)
  case (Cons b as)
  have p: "present (operate (stop_op b) s) a" using Cons.prems(1) by (simp add: operate_frame)
  have "a \<in> set as \<or> \<not> connected (operate (stop_op b) s) a \<and> closed (operate (stop_op b) s) a"
    using Cons.prems stop_op_self [of s a] stop_op_stopped [of s a b] by auto
  then show ?case using Cons.IH [OF p] by simp
qed simp

lemma shutdown_eq:
  "shutdown s = (on_pool close_all ((stop_all (registry_all (rt_registry (sv_router s))) s)\<lparr>sv_listeners := []\<rparr>))
     \<lparr>sv_cleanup := False, sv_engine := False\<rparr>"
  by (simp add: shutdown_def stop_all_def Let_def)

lemma update_frame:
  "present (s\<lparr>sv_listeners := ls\<rparr>) a = present s a" "present (s\<lparr>sv_cleanup := c, sv_engine := e\<rparr>) a = present s a"
  "connected (s\<lparr>sv_listeners := ls\<rparr>) a = connected s a" "connected (s\<lparr>sv_cleanup := c, sv_engine := e\<rparr>) a = connected s a"
  "closed (s\<lparr>sv_listeners := ls\<rparr>) a = closed s a" "closed (s\<lparr>sv_cleanup := c, sv_engine := e\<rparr>) a = closed s a"
  by (cases a; simp)+

lemma server_ok_startup: "server_ok cfg (startup cfg d)"
proof -
  have "present (startup cfg d) a = (a \<in> set (enabled_adapters cfg))" for a
    by (cases a) (simp_all add: startup_def Let_def built_def)
  then show ?thesis by (simp add: server_ok_def startup_def Let_def new_router_def pool_ok_def new_pool_def)
qed

lemma server_ok_step: "server_ok cfg s \<Longrightarrow> server_ok cfg (server_step cfg s e)"
  by (cases e)
    (simp_all add: server_ok_def operate_frame on_pool_frame shutdown_eq stop_all_frame update_frame
      pool_ok_step pool_ok_close_all)

interpretation serving: event_machine "server_step cfg" "server_ok cfg" for cfg
  by unfold_locales (rule server_ok_step)

lemma run_ok: "server_ok cfg (foldl (server_step cfg) (startup cfg d) evs)"
  by (rule serving.run_inv [OF server_ok_startup])

section \<open>Properties\<close>

text \<open>
  Property C35. At any time of any run the readiness probe answers 200 exactly when the database answers and
  every enabled adapter is connected, and 503 otherwise; it names the enabled adapters with their states,
  in the order of their registration, or the channel default when none is enabled.
\<close>

theorem readiness_is_connectedness:
  "case foldl (server_step cfg) (startup cfg d) evs of s \<Rightarrow>
     hl_status (health_ready db_error s) =
       (if db_error = None \<and> list_all (connected s) (enabled_adapters cfg) then 200 else 503) \<and>
     fst (channel_states s) = (if enabled_adapters cfg = [] then [(''default'', ''ok'')]
       else map (\<lambda>a. (adapter_name a, link_state (connected s a))) (enabled_adapters cfg))"
proof -
  define s where "s = foldl (server_step cfg) (startup cfg d) evs"
  have ok: "server_ok cfg s" unfolding s_def by (rule run_ok)
  have mm: "registry_get (startup_registry cfg) ''mattermost'' = None" if "enabled_adapters cfg = []"
    using that by (simp add: startup_registry_def registry_get_def)
  have "channel_states s = (if enabled_adapters cfg = [] then ([(''default'', ''ok'')], True)
      else (map (\<lambda>a. (adapter_name a, link_state (connected s a))) (enabled_adapters cfg),
        list_all (connected s) (enabled_adapters cfg)))"
    using ok mm foldl_dict_set [OF enabled_distinct, where d = "[]" and f = "\<lambda>a. link_state (connected s a)"]
    by (simp add: channel_states_def server_ok_def init_health_def registry_all_startup)
  then show ?thesis unfolding s_def [symmetric] by (simp add: health_ready_def Let_def split: prod.split)
qed


end
