(* ===== verification/MockOpenClaw.thy ===== *)
theory MockOpenClaw
  imports OpenClawClient
begin

text \<open>
  The mock peer for development (\<open>scripts/mock_openclaw.py\<close>): what it sends on a connection for the
  frames it receives, and the client of \<open>OpenClawClient\<close> talking to it. UUIDs are a parameter; an
  exception of the handler ends the connection.
\<close>

section \<open>The mock\<close>

definition mock_challenge :: "string \<Rightarrow> json" where
  "mock_challenge nn = JObj [(''event'', JStr ''connect.challenge''), (''payload'', JObj [(''nonce'', JStr nn)])]"

definition mock_welcome :: "json \<Rightarrow> json list result" where
  "mock_welcome data =
     bind_result (jget data ''method'') (\<lambda>m.
     if m \<noteq> JStr ''connect'' then Ok []
     else bind_result (jindex data ''id'') (\<lambda>i.
       Ok [JObj [(''type'', JStr ''res''), (''id'', i), (''ok'', JBool True)]]))"

definition mock_final :: "string \<Rightarrow> json \<Rightarrow> json \<Rightarrow> json" where
  "mock_final run_id session_key message =
     JObj [(''event'', JStr ''chat.final''),
       (''payload'', JObj [(''sessionKey'', session_key), (''runId'', JStr run_id), (''seq'', JInt 1),
          (''state'', JStr ''final''), (''text'', JStr (''Mock response to: '' @ py_str message)),
          (''mediaUrls'', JList [])])]"

definition mock_reply :: "string \<Rightarrow> json \<Rightarrow> json list result" where
  "mock_reply run_id data =
     bind_result (jget data ''method'') (\<lambda>m.
     if m \<noteq> JStr ''chat.send'' then Ok []
     else
       bind_result (jindex data ''id'') (\<lambda>_.
       bind_result (jindex data ''params'') (\<lambda>params.
       bind_result (jindex params ''sessionKey'') (\<lambda>session_key.
       bind_result (jindex params ''message'') (\<lambda>message.
         Ok [mock_final run_id session_key message])))))"

fun mock_serve :: "(nat \<Rightarrow> string) \<Rightarrow> nat \<Rightarrow> json list \<Rightarrow> json list" where
  "mock_serve uuid n [] = []"
| "mock_serve uuid n (data # frames) =
     (case mock_reply (uuid n) data of Inl e \<Rightarrow> [] | Inr rs \<Rightarrow> rs @ mock_serve uuid (Suc n) frames)"

text \<open>All frames sent on one connection.\<close>

definition handle_connection :: "(nat \<Rightarrow> string) \<Rightarrow> json list \<Rightarrow> json list" where
  "handle_connection uuid frames =
     mock_challenge (uuid 0) #
     (case frames of
        [] \<Rightarrow> []
      | data # rest \<Rightarrow> (case mock_welcome data of Inl e \<Rightarrow> [] | Inr rs \<Rightarrow> rs @ mock_serve uuid 1 rest))"

text \<open>
  The mock as the gateway of a connect: what the client receives first and second is what the mock
  sends before and after the client's request \<open>frame\<close>.
\<close>

definition mock_gateway :: "(nat \<Rightarrow> string) \<Rightarrow> json \<Rightarrow> int \<Rightarrow> gateway" where
  "mock_gateway uuid frame clock = \<lparr>gw_open = (\<lambda>_. Ok ()),
     gw_recv = (\<lambda>_ k. if k < length (handle_connection uuid [frame]) then Ok (handle_connection uuid [frame] ! k)
       else Raise (PyException ''timeout'')),
     gw_send = (\<lambda>_. Ok ()), gw_close = (\<lambda>_. Ok ()), gw_clock = (\<lambda>_. clock)\<rparr>"

section \<open>A client of the mock\<close>

lemma mock_final_ignored: "dispatch now c (mock_final run_id (JStr sk) m) = Ok (c, [])"
  by (simp add: dispatch_def mock_final_def dict_or_empty_def get_text_def dispatch_event_def SKIP_EVENTS_def
      dict_get_def)

text \<open>
  The client connects to the mock, but no request to it is ever answered: the mock answers a
  \<open>chat.send\<close> with one frame that has the text, as event \<open>chat.final\<close>; the client takes answers
  from \<open>chat\<close> events only, drops the frame in every state, and the request ends with the timeout text.
\<close>

theorem mock_connects_but_never_answers:
  assumes ident: "sign_connect ed clock (uuid 0) cred (gateway_token cred) = Ok ident"
    and cred: "missing_credentials cred = []"
    and idle: "client_ok c" "cl_lock c = None" "cl_listening c"
  shows "(case connect_frame cred req_id (id_client ident) (id_role ident) (id_scopes ident) (id_device ident) of frame \<Rightarrow>
      connect ed (mock_gateway uuid frame clock) url cred req_id =
        (Ok (), \<lparr>conn_connected = True, conn_ws = Some 0, conn_listening = True\<rparr>,
         [Opened 0 (origin_of url), SentFrame 0 frame])) \<and>
    (case mock_final run_id (JStr sk) (JStr msg) of answer \<Rightarrow>
      mock_reply run_id (chat_send_frame mid sk msg idem) = Ok [answer] \<and>
      client_step cfg c' (FrameArrives now answer) = (c', []) \<and>
      snd (client_run cfg c [SendStart mid msg sk stream idem, SendWritten, FrameArrives now answer, SendResumes, SendTimesOut]) =
        [Wrote (chat_send_frame mid sk msg idem), Returned mid (Ok (TIMEOUT_TEXT, []))])"
proof
  define frame where "frame = connect_frame cred req_id (id_client ident) (id_role ident) (id_scopes ident) (id_device ident)"
  define gw where "gw = mock_gateway uuid frame clock"
  define accepted where "accepted = JObj [(''type'', JStr ''res''), (''id'', JStr req_id), (''ok'', JBool True)]"
  have served: "handle_connection uuid [frame] = [mock_challenge (uuid 0), accepted]"
    by (simp add: handle_connection_def mock_welcome_def frame_def connect_frame_def jget_def dict_get_def accepted_def)
  then have gw: "gw_open gw n = Ok ()" "gw_send gw n = Ok ()" "gw_clock gw n = clock"
    "gw_recv gw n 0 = Ok (mock_challenge (uuid 0))" "gw_recv gw n (Suc 0) = Ok accepted" for n
    by (simp_all add: gw_def mock_gateway_def)
  have nonce: "nonce_of (mock_challenge (uuid 0)) m = Ok (uuid 0)" for m
    by (simp add: nonce_of_def mock_challenge_def jget_def dict_get_def)
  have "exchange ed gw cred req_id 0 m None = (Ok accepted, [SentFrame 0 frame])" for m
    by (simp add: exchange_def gw nonce ident frame_def Let_def)
  moreover have "jget accepted ''ok'' = Ok (JBool True)" by (simp add: accepted_def jget_def dict_get_def)
  ultimately have "connect_body ed gw url cred req_id = (Ok (), Some 0, [Opened 0 (origin_of url), SentFrame 0 frame])"
    using cred by (simp add: connect_body_def gw)
  then show "case connect_frame cred req_id (id_client ident) (id_role ident) (id_scopes ident) (id_device ident) of frame \<Rightarrow>
      connect ed (mock_gateway uuid frame clock) url cred req_id =
        (Ok (), \<lparr>conn_connected = True, conn_ws = Some 0, conn_listening = True\<rparr>,
         [Opened 0 (origin_of url), SentFrame 0 frame])"
    unfolding frame_def [symmetric] by (simp add: connect_def gw_def)
  define answer where "answer = mock_final run_id (JStr sk) (JStr msg)"
  have reply: "mock_reply run_id (chat_send_frame mid sk msg idem) = Ok [answer]"
    by (simp add: mock_reply_def chat_send_frame_def jget_def dict_get_def answer_def)
  have drop: "client_step cfg x (FrameArrives now answer) = (x, [])" for x
    by (simp add: client_step_def answer_def mock_final_ignored)
  have fresh: "dict_get (cl_done c) (cl_next c) = None"
    using idle(1) unfolding client_ok_def by (metis less_irrefl option.exhaust)
  define frm where "frm = chat_send_frame mid sk msg idem"
  define c1 where "c1 = send_start c mid msg sk stream idem"
  define c2 where "c2 = c1\<lparr>cl_lock := Some \<lparr>sd_msg_id = mid, sd_future = cl_next c, sd_frame = frm, sd_written = True\<rparr>\<rparr>"
  have start: "client_step cfg c (SendStart mid msg sk stream idem) = (c1, [])"
    using idle(2) by (simp add: client_step_def c1_def)
  have "cl_lock c1 = Some \<lparr>sd_msg_id = mid, sd_future = cl_next c, sd_frame = frm, sd_written = False\<rparr>"
    by (simp add: c1_def send_start_def frm_def)
  then have wrote: "client_step cfg c1 SendWritten = (c2, [Wrote frm])" by (simp add: client_step_def c2_def)
  have c2: "cl_lock c2 = Some \<lparr>sd_msg_id = mid, sd_future = cl_next c, sd_frame = frm, sd_written = True\<rparr>"
    "dict_get (cl_done c2) (cl_next c) = None" using fresh by (simp_all add: c2_def c1_def send_start_def)
  then have waits: "client_step cfg c2 SendResumes = (c2, [])"
    and ends: "snd (client_step cfg c2 SendTimesOut) = [Returned mid (Ok (TIMEOUT_TEXT, []))]"
    by (simp_all add: client_step_def)
  have "snd (client_run cfg c [SendStart mid msg sk stream idem, SendWritten, FrameArrives now answer, SendResumes, SendTimesOut]) =
      [Wrote frm, Returned mid (Ok (TIMEOUT_TEXT, []))]"
    using ends by (cases "client_step cfg c2 SendTimesOut") (simp add: start wrote drop waits)
  then show "case mock_final run_id (JStr sk) (JStr msg) of answer \<Rightarrow>
      mock_reply run_id (chat_send_frame mid sk msg idem) = Ok [answer] \<and>
      client_step cfg c' (FrameArrives now answer) = (c', []) \<and>
      snd (client_run cfg c [SendStart mid msg sk stream idem, SendWritten, FrameArrives now answer, SendResumes, SendTimesOut]) =
        [Wrote (chat_send_frame mid sk msg idem), Returned mid (Ok (TIMEOUT_TEXT, []))]"
    using reply drop unfolding answer_def [symmetric] frm_def by simp
qed

theorem mock_connects_but_never_answers_witness:
  "snd (client_run default_settings (new_client default_settings True)
      [SendStart ''m1'' ''hi'' ''agent:main:main'' False ''k1'', SendWritten,
       FrameArrives 0 (mock_final ''r1'' (JStr ''agent:main:main'') (JStr ''hi'')), SendResumes, SendTimesOut]) =
     [Wrote (chat_send_frame ''m1'' ''agent:main:main'' ''hi'' ''k1''), Returned ''m1'' (Ok (TIMEOUT_TEXT, []))]"
proof -
  have facts: "is_ok (sign_connect toy_ed 1000 ''n1'' toy_creds (gateway_token toy_creds)) \<and> missing_credentials toy_creds = []"
    by code_simp
  then obtain ident where ident: "sign_connect toy_ed 1000 ((\<lambda>_ :: nat. ''n1'') 0) toy_creds (gateway_token toy_creds) = Ok ident"
    by (auto simp: is_ok_def split: sum.splits)
  have idle: "client_ok (new_client default_settings True)" "cl_lock (new_client default_settings True) = None"
    "cl_listening (new_client default_settings True)"
    by (simp_all add: client_ok_new) (simp_all add: new_client_def)
  from conjunct2 [OF mock_connects_but_never_answers [OF ident conjunct2 [OF facts] idle]] show ?thesis by blast
qed

end
