(* ===== verification/Schema.thy ===== *)
theory Schema
  imports Models
begin

text \<open>
  The database schema twice: as the migrations build it (\<open>alembic/versions\<close>) and as the ORM classes
  declare it (\<open>src/core/models.py\<close>).
  A migration is a list of schema operations with the meaning PostgreSQL gives them; \<open>accepts\<close> says
  when the rows of a database satisfy the schema. Comments on columns and tables,
  and the sequence PostgreSQL keeps for an integer key, are left out.
\<close>

section \<open>Tables, indexes, rows\<close>

datatype sql_type = SqlString nat | SqlText | SqlDateTime | SqlInteger | SqlBigInteger

datatype sql_value = SqlNull | SqlStr string | SqlInt int | SqlTime nat

datatype server_default = Now | Literal sql_value

record column =
  col_name :: string
  col_type :: sql_type
  nullable :: bool
  col_default :: "server_default option"

record foreign_key =
  fk_column :: string
  fk_table :: string
  fk_target :: string
  fk_cascade :: bool

record table =
  columns :: "column list"
  primary_key :: "string list"
  unique_constraints :: "(string option \<times> string list) list"
  foreign_keys :: "foreign_key list"

record index =
  ix_table :: string
  ix_columns :: "string list"
  ix_unique :: bool

type_synonym sql_row = "(string, sql_value) dict"

text \<open>A database with the revision it is at (Alembic's table \<open>alembic_version\<close>).\<close>

record catalog =
  tables :: "(string, table) dict"
  indexes :: "(string, index) dict"
  table_rows :: "(string, sql_row list) dict"
  db_revision :: "string option"

definition empty_catalog :: catalog where
  "empty_catalog = \<lparr>tables = [], indexes = [], table_rows = [], db_revision = None\<rparr>"

definition rows_in :: "catalog \<Rightarrow> string \<Rightarrow> sql_row list" where
  "rows_in c n = (case dict_get (table_rows c) n of None \<Rightarrow> [] | Some rs \<Rightarrow> rs)"

definition cell :: "sql_row \<Rightarrow> string \<Rightarrow> sql_value" where
  "cell r c = (case dict_get r c of None \<Rightarrow> SqlNull | Some v \<Rightarrow> v)"

section \<open>Constraints\<close>

text \<open>\<open>VARCHAR(n)\<close> counts characters; \<open>INTEGER\<close> has 32 bits, \<open>BIGINT\<close> 64.\<close>

fun value_fits :: "sql_type \<Rightarrow> sql_value \<Rightarrow> bool" where
  "value_fits (SqlString n) (SqlStr s) \<longleftrightarrow> py_len s \<le> n"
| "value_fits SqlText (SqlStr s) \<longleftrightarrow> True"
| "value_fits SqlDateTime (SqlTime t) \<longleftrightarrow> True"
| "value_fits SqlInteger (SqlInt i) \<longleftrightarrow> - (2 ^ 31) \<le> i \<and> i < 2 ^ 31"
| "value_fits SqlBigInteger (SqlInt i) \<longleftrightarrow> - (2 ^ 63) \<le> i \<and> i < 2 ^ 63"
| "value_fits ty v \<longleftrightarrow> False"

definition value_accepted :: "column \<Rightarrow> sql_value \<Rightarrow> bool" where
  "value_accepted c v \<longleftrightarrow> (if v = SqlNull then nullable c else value_fits (col_type c) v)"

definition column_accepts :: "sql_row \<Rightarrow> column \<Rightarrow> bool" where
  "column_accepts r c \<longleftrightarrow> value_accepted c (cell r (col_name c))"

text \<open>A unique key does not constrain rows in which one of its columns is \<open>NULL\<close>.\<close>

definition unique_rows :: "string list \<Rightarrow> sql_row list \<Rightarrow> bool" where
  "unique_rows cs rs \<longleftrightarrow> distinct (filter (\<lambda>k. SqlNull \<notin> set k) (map (\<lambda>r. map (cell r) cs) rs))"

definition references :: "sql_row list \<Rightarrow> sql_row list \<Rightarrow> foreign_key \<Rightarrow> bool" where
  "references rs targets fk \<longleftrightarrow>
     list_all (\<lambda>r. cell r (fk_column fk) = SqlNull \<or>
       cell r (fk_column fk) \<in> set (map (\<lambda>r'. cell r' (fk_target fk)) targets)) rs"

definition indexes_of :: "catalog \<Rightarrow> string \<Rightarrow> index list" where
  "indexes_of c n = filter (\<lambda>i. ix_table i = n) (map snd (indexes c))"

definition table_accepts :: "catalog \<Rightarrow> string \<times> table \<Rightarrow> bool" where
  "table_accepts c nt =
     (case nt of (n, t) \<Rightarrow>
        list_all (\<lambda>r. list_all (column_accepts r) (columns t)) (rows_in c n) \<and>
        unique_rows (primary_key t) (rows_in c n) \<and>
        list_all (\<lambda>u. unique_rows (snd u) (rows_in c n)) (unique_constraints t) \<and>
        list_all (\<lambda>i. \<not> ix_unique i \<or> unique_rows (ix_columns i) (rows_in c n)) (indexes_of c n) \<and>
        list_all (\<lambda>fk. references (rows_in c n) (rows_in c (fk_table fk)) fk) (foreign_keys t))"

definition accepts :: "catalog \<Rightarrow> bool" where
  "accepts c \<longleftrightarrow> list_all (table_accepts c) (tables c)"

section \<open>Schema operations\<close>

text \<open>
  The operations of \<open>alembic.op\<close> the migrations use. \<open>CREATE\<close> fails on a name that is taken and on a
  foreign key whose target is no key of an existing table, \<open>DROP TABLE\<close> on a table another one refers
  to; dropping a table drops its indexes and rows.
\<close>

datatype ddl =
    CreateTable string table
  | CreateIndex string index
  | DropTable string
  | DropIndex string
  | InsertInto string sql_row

definition name_taken :: "catalog \<Rightarrow> string \<Rightarrow> bool" where
  "name_taken c n \<longleftrightarrow> dict_has (tables c) n \<or> dict_has (indexes c) n"

definition fk_resolves :: "catalog \<Rightarrow> foreign_key \<Rightarrow> bool" where
  "fk_resolves c fk =
     (case dict_get (tables c) (fk_table fk) of
        None \<Rightarrow> False
      | Some t \<Rightarrow> primary_key t = [fk_target fk] \<or> [fk_target fk] \<in> set (map snd (unique_constraints t)) \<or>
          list_ex (\<lambda>i. ix_unique i \<and> ix_columns i = [fk_target fk]) (indexes_of c (fk_table fk)))"

definition referred_to :: "catalog \<Rightarrow> string \<Rightarrow> bool" where
  "referred_to c n \<longleftrightarrow>
     list_ex (\<lambda>(m, t). m \<noteq> n \<and> list_ex (\<lambda>fk. fk_table fk = n) (foreign_keys t)) (tables c)"

definition default_value :: "nat \<Rightarrow> column \<Rightarrow> sql_value" where
  "default_value now c = (case col_default c of None \<Rightarrow> SqlNull | Some Now \<Rightarrow> SqlTime now | Some (Literal v) \<Rightarrow> v)"

definition full_row :: "nat \<Rightarrow> table \<Rightarrow> sql_row \<Rightarrow> sql_row" where
  "full_row now t given =
     map (\<lambda>c. (col_name c, case dict_get given (col_name c) of None \<Rightarrow> default_value now c | Some v \<Rightarrow> v)) (columns t)"

definition sql_error :: "'a result" where
  "sql_error = Raise (PyException ''ProgrammingError'')"

fun apply_ddl :: "nat \<Rightarrow> ddl \<Rightarrow> catalog \<Rightarrow> catalog result" where
  "apply_ddl now (CreateTable n t) c =
     (if name_taken c n \<or> \<not> list_all (fk_resolves c) (foreign_keys t) then sql_error
      else Ok (c\<lparr>tables := dict_set (tables c) n t, table_rows := dict_set (table_rows c) n []\<rparr>))"
| "apply_ddl now (CreateIndex n i) c =
     (case dict_get (tables c) (ix_table i) of
        None \<Rightarrow> sql_error
      | Some t \<Rightarrow>
          if name_taken c n \<or> \<not> list_all (\<lambda>k. k \<in> set (map col_name (columns t))) (ix_columns i) then sql_error
          else if ix_unique i \<and> \<not> unique_rows (ix_columns i) (rows_in c (ix_table i)) then Raise IntegrityError
          else Ok (c\<lparr>indexes := dict_set (indexes c) n i\<rparr>))"
| "apply_ddl now (DropTable n) c =
     (if \<not> dict_has (tables c) n \<or> referred_to c n then sql_error
      else Ok (c\<lparr>tables := dict_pop (tables c) n, table_rows := dict_pop (table_rows c) n,
                 indexes := filter (\<lambda>(_, i). ix_table i \<noteq> n) (indexes c)\<rparr>))"
| "apply_ddl now (DropIndex n) c =
     (if dict_has (indexes c) n then Ok (c\<lparr>indexes := dict_pop (indexes c) n\<rparr>) else sql_error)"
| "apply_ddl now (InsertInto n given) c =
     (case dict_get (tables c) n of
        None \<Rightarrow> sql_error
      | Some t \<Rightarrow>
          if \<not> list_all (\<lambda>k. k \<in> set (map col_name (columns t))) (dict_keys given) then sql_error
          else (let c' = c\<lparr>table_rows := dict_set (table_rows c) n (rows_in c n @ [full_row now t given])\<rparr>
                in if table_accepts c' (n, t) then Ok c' else Raise IntegrityError))"

fun run_ddl :: "nat \<Rightarrow> ddl list \<Rightarrow> catalog \<Rightarrow> catalog result" where
  "run_ddl now [] c = Ok c"
| "run_ddl now (x # xs) c = bind_result (apply_ddl now x c) (run_ddl now xs)"

section \<open>Migration 001\<close>

definition column_of :: "string \<Rightarrow> sql_type \<Rightarrow> bool \<Rightarrow> column" where
  "column_of n ty nul = \<lparr>col_name = n, col_type = ty, nullable = nul, col_default = None\<rparr>"

text \<open>The timestamp columns of the migrations.\<close>

definition stamp_column :: "string \<Rightarrow> column" where
  "stamp_column n = \<lparr>col_name = n, col_type = SqlDateTime, nullable = True, col_default = Some Now\<rparr>"

definition cascade_to :: "string \<Rightarrow> string \<Rightarrow> string \<Rightarrow> foreign_key" where
  "cascade_to k n target = \<lparr>fk_column = k, fk_table = n, fk_target = target, fk_cascade = True\<rparr>"

definition instance_table :: table where
  "instance_table = \<lparr>
     columns =
       [column_of ''instance_uuid'' (SqlString 36) False, column_of ''instance_url'' SqlText False,
        column_of ''device_id'' (SqlString 64) False, column_of ''public_key_b64'' SqlText False,
        column_of ''private_key_b64'' SqlText False, column_of ''device_token'' SqlText False,
        column_of ''gateway_token'' SqlText False, stamp_column ''created_at''],
     primary_key = [''instance_uuid''], unique_constraints = [], foreign_keys = []\<rparr>"

definition app_user_table :: table where
  "app_user_table = \<lparr>
     columns =
       [column_of ''id'' (SqlString 64) False, column_of ''external_user_id'' (SqlString 128) True,
        column_of ''role'' (SqlString 64) True, stamp_column ''created_at''],
     primary_key = [''id''], unique_constraints = [(None, [''external_user_id''])], foreign_keys = []\<rparr>"

definition user_identity_table :: table where
  "user_identity_table = \<lparr>
     columns =
       [column_of ''user_id'' (SqlString 64) False, column_of ''provider'' (SqlString 32) False,
        column_of ''provider_user_id'' (SqlString 128) False, stamp_column ''created_at''],
     primary_key = [''provider'', ''provider_user_id''],
     unique_constraints = [(Some ''uq_user_identity_user_provider'', [''user_id'', ''provider''])],
     foreign_keys = [cascade_to ''user_id'' ''app_user'' ''id'']\<rparr>"

definition user_instance_table :: table where
  "user_instance_table = \<lparr>
     columns =
       [column_of ''instance_uuid'' (SqlString 36) False, column_of ''user_id'' (SqlString 64) False,
        stamp_column ''assigned_at''],
     primary_key = [''instance_uuid''], unique_constraints = [(None, [''user_id''])],
     foreign_keys = [cascade_to ''instance_uuid'' ''instance'' ''instance_uuid'',
                     cascade_to ''user_id'' ''app_user'' ''id'']\<rparr>"

definition upgrade_001 :: "ddl list" where
  "upgrade_001 =
     [CreateTable ''instance'' instance_table,
      CreateIndex ''ix_instance_url'' \<lparr>ix_table = ''instance'', ix_columns = [''instance_url''], ix_unique = False\<rparr>,
      CreateTable ''app_user'' app_user_table,
      CreateIndex ''ix_app_user_external_user_id''
        \<lparr>ix_table = ''app_user'', ix_columns = [''external_user_id''], ix_unique = True\<rparr>,
      CreateTable ''user_identity'' user_identity_table,
      CreateIndex ''ix_user_identity_user_id''
        \<lparr>ix_table = ''user_identity'', ix_columns = [''user_id''], ix_unique = False\<rparr>,
      CreateTable ''user_instance'' user_instance_table]"

definition downgrade_001 :: "ddl list" where
  "downgrade_001 =
     [DropTable ''user_instance'', DropIndex ''ix_user_identity_user_id'', DropTable ''user_identity'',
      DropIndex ''ix_app_user_external_user_id'', DropTable ''app_user'', DropIndex ''ix_instance_url'',
      DropTable ''instance'']"

section \<open>Migration 002\<close>

definition user_channel_table :: table where
  "user_channel_table = \<lparr>
     columns =
       [column_of ''provider'' (SqlString 32) False, column_of ''provider_user_id'' (SqlString 128) False,
        column_of ''channel_id'' (SqlString 128) False, stamp_column ''updated_at''],
     primary_key = [''provider'', ''provider_user_id''], unique_constraints = [], foreign_keys = []\<rparr>"

definition mapping_state_table :: table where
  "mapping_state_table = \<lparr>
     columns =
       [column_of ''id'' SqlInteger False,
        (column_of ''version'' SqlBigInteger False)\<lparr>col_default := Some (Literal (SqlInt 1))\<rparr>,
        stamp_column ''updated_at''],
     primary_key = [''id''], unique_constraints = [], foreign_keys = []\<rparr>"

definition upgrade_002 :: "ddl list" where
  "upgrade_002 =
     [CreateTable ''user_channel'' user_channel_table,
      CreateTable ''mapping_state'' mapping_state_table,
      InsertInto ''mapping_state'' [(''id'', SqlInt 1), (''version'', SqlInt 1)]]"

definition downgrade_002 :: "ddl list" where
  "downgrade_002 = [DropTable ''mapping_state'', DropTable ''user_channel'']"

section \<open>The schema the classes declare\<close>

text \<open>
  \<open>Base.metadata\<close>: a column is nullable when its type is optional; \<open>index=True\<close> with \<open>unique=True\<close>
  is a unique index. The encrypted columns are texts.
\<close>

definition mapped_stamp :: "string \<Rightarrow> column" where
  "mapped_stamp n = \<lparr>col_name = n, col_type = SqlDateTime, nullable = False, col_default = Some Now\<rparr>"

definition Instance :: table where
  "Instance = \<lparr>
     columns =
       [column_of ''instance_uuid'' (SqlString 36) False, column_of ''instance_url'' SqlText False,
        column_of ''device_id'' (SqlString 64) False, column_of ''public_key_b64'' SqlText False,
        column_of ''private_key_b64'' SqlText False, column_of ''device_token'' SqlText False,
        column_of ''gateway_token'' SqlText False, mapped_stamp ''created_at''],
     primary_key = [''instance_uuid''], unique_constraints = [], foreign_keys = []\<rparr>"

definition AppUser :: table where
  "AppUser = \<lparr>
     columns =
       [column_of ''id'' (SqlString 64) False, column_of ''external_user_id'' (SqlString 128) True,
        column_of ''role'' (SqlString 64) True, mapped_stamp ''created_at''],
     primary_key = [''id''], unique_constraints = [], foreign_keys = []\<rparr>"

definition UserIdentity :: table where
  "UserIdentity = \<lparr>
     columns =
       [column_of ''user_id'' (SqlString 64) False, column_of ''provider'' (SqlString 32) False,
        column_of ''provider_user_id'' (SqlString 128) False, mapped_stamp ''created_at''],
     primary_key = [''provider'', ''provider_user_id''],
     unique_constraints = [(Some ''uq_user_identity_user_provider'', [''user_id'', ''provider''])],
     foreign_keys = [cascade_to ''user_id'' ''app_user'' ''id'']\<rparr>"

definition UserInstance :: table where
  "UserInstance = \<lparr>
     columns =
       [column_of ''instance_uuid'' (SqlString 36) False, column_of ''user_id'' (SqlString 64) False,
        mapped_stamp ''assigned_at''],
     primary_key = [''instance_uuid''], unique_constraints = [(None, [''user_id''])],
     foreign_keys = [cascade_to ''instance_uuid'' ''instance'' ''instance_uuid'',
                     cascade_to ''user_id'' ''app_user'' ''id'']\<rparr>"

definition UserChannel :: table where
  "UserChannel = \<lparr>
     columns =
       [column_of ''provider'' (SqlString 32) False, column_of ''provider_user_id'' (SqlString 128) False,
        column_of ''channel_id'' (SqlString 128) False, mapped_stamp ''updated_at''],
     primary_key = [''provider'', ''provider_user_id''], unique_constraints = [], foreign_keys = []\<rparr>"

definition MappingState :: table where
  "MappingState = \<lparr>
     columns =
       [column_of ''id'' SqlInteger False,
        (column_of ''version'' SqlBigInteger False)\<lparr>col_default := Some (Literal (SqlInt 1))\<rparr>,
        mapped_stamp ''updated_at''],
     primary_key = [''id''], unique_constraints = [], foreign_keys = []\<rparr>"

definition metadata :: catalog where
  "metadata = \<lparr>
     tables =
       [(''instance'', Instance), (''app_user'', AppUser), (''user_identity'', UserIdentity),
        (''user_instance'', UserInstance), (''user_channel'', UserChannel), (''mapping_state'', MappingState)],
     indexes = [(''ix_app_user_external_user_id'',
       \<lparr>ix_table = ''app_user'', ix_columns = [''external_user_id''], ix_unique = True\<rparr>)],
     table_rows = [], db_revision = None\<rparr>"


end
