(* ===== verification/SchemaMatch.thy ===== *)
theory SchemaMatch
  imports Migrations
begin

text \<open>
  The constraints of the migrated schema, of the schema the classes declare, and \<open>schema_ok\<close> of
  \<open>Models\<close> agree on every database; where the two schemas differ is a list.
\<close>

section \<open>What the constraints say of the ORM's tables\<close>

text \<open>
  The rows of a database of \<open>Models\<close>: \<open>seal\<close> is what an encrypted column stores for a value, \<open>clock\<close>
  gives a row its timestamp.
\<close>

definition text_or_null :: "string option \<Rightarrow> sql_value" where
  "text_or_null x = (case x of None \<Rightarrow> SqlNull | Some s \<Rightarrow> SqlStr s)"

definition stored_instances :: "(string \<Rightarrow> string list \<Rightarrow> nat) \<Rightarrow> (string \<Rightarrow> string) \<Rightarrow> db \<Rightarrow> sql_row list" where
  "stored_instances clock seal d =
     map (\<lambda>(k, r).
       [(''instance_uuid'', SqlStr k), (''instance_url'', SqlStr (row_instance_url r)),
        (''device_id'', SqlStr (row_device_id r)), (''public_key_b64'', SqlStr (row_public_key_b64 r)),
        (''private_key_b64'', SqlStr (seal (row_private_key_b64 r))),
        (''device_token'', SqlStr (seal (row_device_token r))),
        (''gateway_token'', SqlStr (seal (row_gateway_token r))),
        (''created_at'', SqlTime (clock ''instance'' [k]))]) (instances d)"

definition stored_users :: "(string \<Rightarrow> string list \<Rightarrow> nat) \<Rightarrow> db \<Rightarrow> sql_row list" where
  "stored_users clock d =
     map (\<lambda>(k, r).
       [(''id'', SqlStr k), (''external_user_id'', text_or_null (external_user_id r)),
        (''role'', text_or_null (role r)), (''created_at'', SqlTime (clock ''app_user'' [k]))]) (app_users d)"

definition stored_identities :: "(string \<Rightarrow> string list \<Rightarrow> nat) \<Rightarrow> db \<Rightarrow> sql_row list" where
  "stored_identities clock d =
     map (\<lambda>((p, a), u).
       [(''user_id'', SqlStr u), (''provider'', SqlStr p), (''provider_user_id'', SqlStr a),
        (''created_at'', SqlTime (clock ''user_identity'' [p, a]))]) (identities d)"

definition stored_assignments :: "(string \<Rightarrow> string list \<Rightarrow> nat) \<Rightarrow> db \<Rightarrow> sql_row list" where
  "stored_assignments clock d =
     map (\<lambda>(i, u).
       [(''instance_uuid'', SqlStr i), (''user_id'', SqlStr u),
        (''assigned_at'', SqlTime (clock ''user_instance'' [i]))]) (assignments d)"

definition stored_channels :: "(string \<Rightarrow> string list \<Rightarrow> nat) \<Rightarrow> db \<Rightarrow> sql_row list" where
  "stored_channels clock d =
     map (\<lambda>((p, a), ch).
       [(''provider'', SqlStr p), (''provider_user_id'', SqlStr a), (''channel_id'', SqlStr ch),
        (''updated_at'', SqlTime (clock ''user_channel'' [p, a]))]) (channels d)"

definition stored_state :: "(string \<Rightarrow> string list \<Rightarrow> nat) \<Rightarrow> db \<Rightarrow> sql_row list" where
  "stored_state clock d =
     (case state_version d of
        None \<Rightarrow> []
      | Some v \<Rightarrow> [[(''id'', SqlInt 1), (''version'', SqlInt v), (''updated_at'', SqlTime (clock ''mapping_state'' []))]])"

definition stored :: "(string \<Rightarrow> string list \<Rightarrow> nat) \<Rightarrow> (string \<Rightarrow> string) \<Rightarrow> db \<Rightarrow> (string, sql_row list) dict" where
  "stored clock seal d =
     [(''instance'', stored_instances clock seal d), (''app_user'', stored_users clock d),
      (''user_identity'', stored_identities clock d), (''user_instance'', stored_assignments clock d),
      (''user_channel'', stored_channels clock d), (''mapping_state'', stored_state clock d)]"

text \<open>The lengths of the columns and the width of the version.\<close>

definition short :: "nat \<Rightarrow> string option \<Rightarrow> bool" where
  "short n x \<longleftrightarrow> (case x of None \<Rightarrow> True | Some s \<Rightarrow> py_len s \<le> n)"

definition values_fit :: "db \<Rightarrow> bool" where
  "values_fit d \<longleftrightarrow>
     list_all (\<lambda>(k, r). py_len k \<le> 36 \<and> py_len (row_device_id r) \<le> 64) (instances d) \<and>
     list_all (\<lambda>(k, r). py_len k \<le> 64 \<and> short 128 (external_user_id r) \<and> short 64 (role r)) (app_users d) \<and>
     list_all (\<lambda>((p, a), u). py_len u \<le> 64 \<and> py_len p \<le> 32 \<and> py_len a \<le> 128) (identities d) \<and>
     list_all (\<lambda>(i, u). py_len i \<le> 36 \<and> py_len u \<le> 64) (assignments d) \<and>
     list_all (\<lambda>((p, a), ch). py_len p \<le> 32 \<and> py_len a \<le> 128 \<and> py_len ch \<le> 128) (channels d) \<and>
     (case state_version d of None \<Rightarrow> True | Some v \<Rightarrow> - (2 ^ 63) \<le> v \<and> v < 2 ^ 63)"

text \<open>A unique key over the rows of a table, as a condition on the dictionary.\<close>

lemma unique_rows_map:
  "unique_rows cs (map f t) \<longleftrightarrow>
     distinct (map (\<lambda>x. map (cell (f x)) cs) (filter (\<lambda>x. SqlNull \<notin> set (map (cell (f x)) cs)) t))"
  by (simp add: unique_rows_def filter_map o_def)

lemma distinct_on_dict:
  assumes "dict_ok t"
  shows "distinct (map g (filter P t)) \<longleftrightarrow>
    (\<forall>k v k' v'. dict_get t k = Some v \<longrightarrow> dict_get t k' = Some v' \<longrightarrow> P (k, v) \<longrightarrow> P (k', v') \<longrightarrow>
       g (k, v) = g (k', v') \<longrightarrow> k = k')" (is "_ = ?r")
proof -
  have d: "distinct (filter P t)" using assms by (simp add: dict_ok_def distinct_map)
  have mem: "(k, v) \<in> set t \<longleftrightarrow> dict_get t k = Some v" for k v
    using assms by (auto intro: dict_get_of_mem dict_get_in_set)
  have "inj_on g (set (filter P t)) \<longleftrightarrow> ?r"
    by (auto simp: inj_on_def mem) (metis option.inject)+
  with d show ?thesis by (simp add: distinct_map)
qed

lemma cell_Cons: "cell ((a, v) # r) c = (if c = a then v else cell r c)" and cell_Nil: "cell [] c = SqlNull"
  by (simp_all add: cell_def dict_get_Cons)

lemma row_columns:
  assumes "map fst r = map col_name cs" "distinct (map fst r)"
  shows "list_all (column_accepts r) cs \<longleftrightarrow> list_all (\<lambda>(c, v). value_accepted c v) (zip cs (map snd r))"
proof -
  have "cell r (col_name (cs ! i)) = snd (r ! i)" if "i < length cs" for i
  proof -
    have l: "length r = length cs" using assms(1) map_eq_imp_length_eq by blast
    have "fst (r ! i) = col_name (cs ! i)" using assms(1) that l by (metis nth_map)
    then have "(col_name (cs ! i), snd (r ! i)) \<in> set r" using that l by (metis nth_mem prod.collapse)
    then have "map_of r (col_name (cs ! i)) = Some (snd (r ! i))" using assms(2) by simp
    then show ?thesis by (simp add: cell_def dict_get_def)
  qed
  moreover have "length r = length cs" using assms(1) map_eq_imp_length_eq by blast
  ultimately show ?thesis by (auto simp: list_all_length column_accepts_def)
qed

lemmas distinct_all_dict = distinct_on_dict [where P = "\<lambda>_. True", simplified]

text \<open>The rows of every table, first their columns, then their keys.\<close>

lemmas declared_tables = Instance_def AppUser_def UserIdentity_def UserInstance_def UserChannel_def MappingState_def
  mapped_stamp_def

lemma instance_columns:
  assumes "t = instance_table \<or> t = Instance"
  shows "list_all (\<lambda>r. list_all (column_accepts r) (columns t)) (stored_instances clock seal d) \<longleftrightarrow>
      list_all (\<lambda>(k, r). py_len k \<le> 36 \<and> py_len (row_device_id r) \<le> 64) (instances d)"
  using assms unfolding stored_instances_def list.pred_map case_prod_unfold comp_def
  by (elim disjE; intro list.pred_cong refl; subst row_columns)
    (simp_all add: value_accepted_def migration_tables declared_tables)

lemma user_columns:
  assumes "t = app_user_table \<or> t = AppUser"
  shows "list_all (\<lambda>r. list_all (column_accepts r) (columns t)) (stored_users clock d) \<longleftrightarrow>
      list_all (\<lambda>(k, r). py_len k \<le> 64 \<and> short 128 (external_user_id r) \<and> short 64 (role r)) (app_users d)"
  using assms unfolding stored_users_def list.pred_map case_prod_unfold comp_def
  by (elim disjE; intro list.pred_cong refl; subst row_columns)
    (simp_all add: value_accepted_def migration_tables declared_tables text_or_null_def short_def split: option.splits)

lemma identity_columns:
  assumes "t = user_identity_table \<or> t = UserIdentity"
  shows "list_all (\<lambda>r. list_all (column_accepts r) (columns t)) (stored_identities clock d) \<longleftrightarrow>
      list_all (\<lambda>((p, a), u). py_len u \<le> 64 \<and> py_len p \<le> 32 \<and> py_len a \<le> 128) (identities d)"
  using assms unfolding stored_identities_def list.pred_map case_prod_unfold comp_def
  by (elim disjE; intro list.pred_cong refl; subst row_columns)
    (simp_all add: value_accepted_def migration_tables declared_tables)

lemma assignment_columns:
  assumes "t = user_instance_table \<or> t = UserInstance"
  shows "list_all (\<lambda>r. list_all (column_accepts r) (columns t)) (stored_assignments clock d) \<longleftrightarrow>
      list_all (\<lambda>(i, u). py_len i \<le> 36 \<and> py_len u \<le> 64) (assignments d)"
  using assms unfolding stored_assignments_def list.pred_map case_prod_unfold comp_def
  by (elim disjE; intro list.pred_cong refl; subst row_columns)
    (simp_all add: value_accepted_def migration_tables declared_tables)

lemma channel_columns:
  assumes "t = user_channel_table \<or> t = UserChannel"
  shows "list_all (\<lambda>r. list_all (column_accepts r) (columns t)) (stored_channels clock d) \<longleftrightarrow>
      list_all (\<lambda>((p, a), ch). py_len p \<le> 32 \<and> py_len a \<le> 128 \<and> py_len ch \<le> 128) (channels d)"
  using assms unfolding stored_channels_def list.pred_map case_prod_unfold comp_def
  by (elim disjE; intro list.pred_cong refl; subst row_columns)
    (simp_all add: value_accepted_def migration_tables declared_tables)

lemma state_columns:
  assumes "t = mapping_state_table \<or> t = MappingState"
  shows "list_all (\<lambda>r. list_all (column_accepts r) (columns t)) (stored_state clock d) \<longleftrightarrow>
      (case state_version d of None \<Rightarrow> True | Some v \<Rightarrow> - (2 ^ 63) \<le> v \<and> v < 2 ^ 63)"
  using assms unfolding stored_state_def
  by (elim disjE; cases "state_version d")
    (simp_all add: column_accepts_def cell_Cons value_accepted_def migration_tables declared_tables)

lemma primary_keys:
  "unique_rows [''instance_uuid''] (stored_instances clock seal d) \<longleftrightarrow> dict_ok (instances d)"
  "unique_rows [''id''] (stored_users clock d) \<longleftrightarrow> dict_ok (app_users d)"
  "unique_rows [''provider'', ''provider_user_id''] (stored_identities clock d) \<longleftrightarrow> dict_ok (identities d)"
  "unique_rows [''instance_uuid''] (stored_assignments clock d) \<longleftrightarrow> dict_ok (assignments d)"
  "unique_rows [''provider'', ''provider_user_id''] (stored_channels clock d) \<longleftrightarrow> dict_ok (channels d)"
  "unique_rows [''id''] (stored_state clock d)"
  unfolding stored_instances_def stored_users_def stored_identities_def stored_assignments_def
    stored_channels_def stored_state_def unique_rows_map
  by (simp_all add: cell_Cons case_prod_unfold dict_ok_def distinct_map inj_on_def unique_rows_def prod_eq_iff
      split: option.splits)

lemma unique_externals:
  assumes "dict_ok (app_users d)"
  shows "unique_rows [''external_user_id''] (stored_users clock d) \<longleftrightarrow>
    (\<forall>u v r r' x. dict_get (app_users d) u = Some r \<longrightarrow> dict_get (app_users d) v = Some r' \<longrightarrow>
        external_user_id r = Some x \<longrightarrow> external_user_id r' = Some x \<longrightarrow> u = v)" (is "_ \<longleftrightarrow> ?r")
proof -
  have "text_or_null x = SqlNull \<longleftrightarrow> x = None" "text_or_null x = text_or_null y \<longleftrightarrow> x = y" for x y
    by (auto simp: text_or_null_def split: option.splits)
  then have "unique_rows [''external_user_id''] (stored_users clock d) \<longleftrightarrow>
    (\<forall>u r v r'. dict_get (app_users d) u = Some r \<longrightarrow> dict_get (app_users d) v = Some r' \<longrightarrow>
       external_user_id r \<noteq> None \<longrightarrow> external_user_id r' \<noteq> None \<longrightarrow>
       external_user_id r = external_user_id r' \<longrightarrow> u = v)" (is "_ \<longleftrightarrow> ?m")
    unfolding stored_users_def unique_rows_map
    by (simp only: distinct_on_dict [OF assms] cell_Cons case_prod_unfold) (simp add: cell_Cons eq_commute [of SqlNull])
  moreover have "?m \<longleftrightarrow> ?r"
  proof (intro iffI allI impI)
    fix u v r r' x
    assume ?m "dict_get (app_users d) u = Some r" "dict_get (app_users d) v = Some r'"
      "external_user_id r = Some x" "external_user_id r' = Some x"
    then show "u = v" by (metis option.distinct(1))
  next
    fix u v r r'
    assume ?r "dict_get (app_users d) u = Some r" "dict_get (app_users d) v = Some r'"
      "external_user_id r \<noteq> None" "external_user_id r = external_user_id r'"
    then show "u = v" by (metis option.exhaust)
  qed
  ultimately show ?thesis by blast
qed

lemma unique_user_provider:
  assumes "dict_ok (identities d)"
  shows "unique_rows [''user_id'', ''provider''] (stored_identities clock d) \<longleftrightarrow>
    (\<forall>p a b u. dict_get (identities d) (p, a) = Some u \<longrightarrow> dict_get (identities d) (p, b) = Some u \<longrightarrow> a = b)"
  unfolding stored_identities_def unique_rows_map
  by (auto simp: distinct_all_dict [OF assms] cell_Cons case_prod_unfold)

lemma unique_owner:
  assumes "dict_ok (assignments d)"
  shows "unique_rows [''user_id''] (stored_assignments clock d) \<longleftrightarrow>
    (\<forall>i j u. dict_get (assignments d) i = Some u \<longrightarrow> dict_get (assignments d) j = Some u \<longrightarrow> i = j)"
  unfolding stored_assignments_def unique_rows_map
  by (auto simp: distinct_all_dict [OF assms] cell_Cons case_prod_unfold)

lemma list_all_dict:
  "dict_ok t \<Longrightarrow> list_all P t \<longleftrightarrow> (\<forall>k v. dict_get t k = Some v \<longrightarrow> P (k, v))"
  by (auto simp: list_all_iff intro: dict_get_of_mem dict_get_in_set)

lemma dict_has_mem: "dict_has t k \<longleftrightarrow> k \<in> fst ` set t"
  by (simp add: dict_has_def map_of_eq_None_iff)

lemma keys_stored:
  "SqlStr u \<in> (\<lambda>r. cell r ''id'') ` set (stored_users clock d) \<longleftrightarrow> dict_has (app_users d) u"
  "SqlStr i \<in> (\<lambda>r. cell r ''instance_uuid'') ` set (stored_instances clock seal d) \<longleftrightarrow> dict_has (instances d) i"
  unfolding stored_users_def stored_instances_def dict_has_mem
  by (auto simp: cell_Cons image_image case_prod_unfold)

lemma foreign_keys_stored:
  "dict_ok (identities d) \<Longrightarrow>
     references (stored_identities clock d) (stored_users clock d) (cascade_to ''user_id'' n ''id'') \<longleftrightarrow>
     (\<forall>k u. dict_get (identities d) k = Some u \<longrightarrow> dict_has (app_users d) u)"
  "dict_ok (assignments d) \<Longrightarrow>
     references (stored_assignments clock d) (stored_users clock d) (cascade_to ''user_id'' n ''id'') \<longleftrightarrow>
     (\<forall>i u. dict_get (assignments d) i = Some u \<longrightarrow> dict_has (app_users d) u)"
  "dict_ok (assignments d) \<Longrightarrow>
     references (stored_assignments clock d) (stored_instances clock seal d)
       (cascade_to ''instance_uuid'' n ''instance_uuid'') \<longleftrightarrow>
     (\<forall>i u. dict_get (assignments d) i = Some u \<longrightarrow> dict_has (instances d) i)"
  unfolding references_def stored_identities_def stored_assignments_def list.pred_map comp_def
  by (simp_all add: list_all_dict cell_Cons cascade_to_def keys_stored case_prod_unfold split_paired_all)

section \<open>Properties\<close>

definition head_schema :: "nat \<Rightarrow> catalog" where
  "head_schema now = snd (do_run_migrations UpgradeHead now empty_catalog)"

lemma head_schema_simps:
  "tables (head_schema now) = tables_001 @ tables_002"
  "indexes (head_schema now) = indexes_001"
  "table_rows (head_schema now) = rows_001 @ rows_002 now"
proof -
  have "untouched empty_catalog" by (simp add: untouched_def empty_catalog_def table_names_def index_names_def)
  then show "tables (head_schema now) = tables_001 @ tables_002" "indexes (head_schema now) = indexes_001"
    "table_rows (head_schema now) = rows_001 @ rows_002 now"
    by (simp_all add: head_schema_def upgrade_to_head migrated_def with_001_def with_002_def empty_catalog_def)
qed

lemma rows_stored:
  assumes "table_rows c = stored clock seal d"
  shows "rows_in c ''instance'' = stored_instances clock seal d" "rows_in c ''app_user'' = stored_users clock d"
    "rows_in c ''user_identity'' = stored_identities clock d" "rows_in c ''user_instance'' = stored_assignments clock d"
    "rows_in c ''user_channel'' = stored_channels clock d" "rows_in c ''mapping_state'' = stored_state clock d"
  using assms by (simp_all add: rows_in_def stored_def dict_get_Cons)

text \<open>The keys of each table, in both schemas.\<close>

lemma instance_keys:
  assumes "t = instance_table \<or> t = Instance"
  shows "primary_key t = [''instance_uuid'']" "unique_constraints t = []" "foreign_keys t = []"
  using assms by (auto simp: instance_table_def Instance_def)

lemma user_keys:
  assumes "t = app_user_table \<or> t = AppUser"
  shows "primary_key t = [''id'']" "foreign_keys t = []"
    "list_all (\<lambda>k. snd k = [''external_user_id'']) (unique_constraints t)"
  using assms by (auto simp: app_user_table_def AppUser_def)

lemma identity_keys:
  assumes "t = user_identity_table \<or> t = UserIdentity"
  shows "primary_key t = [''provider'', ''provider_user_id'']"
    "map snd (unique_constraints t) = [[''user_id'', ''provider'']]"
    "foreign_keys t = [cascade_to ''user_id'' ''app_user'' ''id'']"
  using assms by (auto simp: user_identity_table_def UserIdentity_def)

lemma assignment_keys:
  assumes "t = user_instance_table \<or> t = UserInstance"
  shows "primary_key t = [''instance_uuid'']" "map snd (unique_constraints t) = [[''user_id'']]"
    "foreign_keys t = [cascade_to ''instance_uuid'' ''instance'' ''instance_uuid'',
       cascade_to ''user_id'' ''app_user'' ''id'']"
  using assms by (auto simp: user_instance_table_def UserInstance_def)

lemma channel_keys:
  assumes "t = user_channel_table \<or> t = UserChannel"
  shows "primary_key t = [''provider'', ''provider_user_id'']" "unique_constraints t = []" "foreign_keys t = []"
  using assms by (auto simp: user_channel_table_def UserChannel_def)

lemma state_keys:
  assumes "t = mapping_state_table \<or> t = MappingState"
  shows "primary_key t = [''id'']" "unique_constraints t = []" "foreign_keys t = []"
  using assms by (auto simp: mapping_state_table_def MappingState_def)

text \<open>
  What a schema with these tables accepts: the unique key over external ids may be a constraint, an
  index, or both.
\<close>

lemma accepts_stored:
  assumes "table_rows c = stored clock seal d"
    and "tables c = [(''instance'', i), (''app_user'', u), (''user_identity'', ui), (''user_instance'', ua),
      (''user_channel'', ch), (''mapping_state'', ms)]"
    and "i = instance_table \<or> i = Instance" "u = app_user_table \<or> u = AppUser"
      "ui = user_identity_table \<or> ui = UserIdentity" "ua = user_instance_table \<or> ua = UserInstance"
      "ch = user_channel_table \<or> ch = UserChannel" "ms = mapping_state_table \<or> ms = MappingState"
    and "list_all (\<lambda>x. \<not> ix_unique x \<or> ix_table x = ''app_user'' \<and> ix_columns x = [''external_user_id''])
      (map snd (indexes c))"
    and "list_ex (\<lambda>x. ix_unique x \<and> ix_table x = ''app_user'') (map snd (indexes c))"
  shows "accepts c \<longleftrightarrow> schema_ok d \<and> values_fit d"
proof (cases "dict_ok (instances d) \<and> dict_ok (app_users d) \<and> dict_ok (identities d) \<and>
    dict_ok (assignments d) \<and> dict_ok (channels d)")
  case True
  have ix: "list_all (\<lambda>x. ix_unique x \<longrightarrow> unique_rows (ix_columns x) (rows_in c n)) (indexes_of c n) \<longleftrightarrow>
      n \<noteq> ''app_user'' \<or> unique_rows [''external_user_id''] (rows_in c n)" for n
  proof -
    obtain x where x: "x \<in> set (map snd (indexes c))" "ix_unique x" "ix_table x = ''app_user''"
      using assms(10) by (auto simp: list_ex_iff simp del: set_map)
    show ?thesis
      using assms(9) x unfolding indexes_of_def list_all_iff set_filter by (cases "n = ''app_user''") force+
  qed
  note keys = instance_keys [OF assms(3)] user_keys [OF assms(4)] identity_keys [OF assms(5)]
    assignment_keys [OF assms(6)] channel_keys [OF assms(7)] state_keys [OF assms(8)]
  have fks: "fk_table (cascade_to a b k) = b" for a b k by (simp add: cascade_to_def)
  have uniq: "list_all (\<lambda>k. unique_rows (snd k) R) ks \<longleftrightarrow> list_all (\<lambda>k. unique_rows k R) (map snd ks)" for R ks
    by (simp add: list.pred_map comp_def)
  have ext: "unique_rows [''external_user_id''] R \<Longrightarrow> list_all (\<lambda>k. unique_rows k R) (map snd (unique_constraints u))" for R
    using user_keys(3) [OF assms(4)] by (auto simp: list_all_iff)
  note table = table_accepts_def ix rows_stored [OF assms(1)] keys fks uniq list.pred_inject prod.case True_implies_equals
  have "table_accepts c (''instance'', i) \<longleftrightarrow>
      list_all (\<lambda>(k, r). py_len k \<le> 36 \<and> py_len (row_device_id r) \<le> 64) (instances d)"
    using True by (simp add: table instance_columns [OF assms(3)] primary_keys)
  moreover have "table_accepts c (''app_user'', u) \<longleftrightarrow>
      list_all (\<lambda>(k, r). py_len k \<le> 64 \<and> short 128 (external_user_id r) \<and> short 64 (role r)) (app_users d) \<and>
      unique_rows [''external_user_id''] (stored_users clock d)"
    using True ext [of "stored_users clock d"] by (auto simp add: table user_columns [OF assms(4)] primary_keys)
  moreover have "table_accepts c (''user_identity'', ui) \<longleftrightarrow>
      list_all (\<lambda>((p, a), u). py_len u \<le> 64 \<and> py_len p \<le> 32 \<and> py_len a \<le> 128) (identities d) \<and>
      unique_rows [''user_id'', ''provider''] (stored_identities clock d) \<and>
      references (stored_identities clock d) (stored_users clock d) (cascade_to ''user_id'' ''app_user'' ''id'')"
    using True by (simp add: table identity_columns [OF assms(5)] primary_keys)
  moreover have "table_accepts c (''user_instance'', ua) \<longleftrightarrow>
      list_all (\<lambda>(i, u). py_len i \<le> 36 \<and> py_len u \<le> 64) (assignments d) \<and>
      unique_rows [''user_id''] (stored_assignments clock d) \<and>
      references (stored_assignments clock d) (stored_instances clock seal d)
        (cascade_to ''instance_uuid'' ''instance'' ''instance_uuid'') \<and>
      references (stored_assignments clock d) (stored_users clock d) (cascade_to ''user_id'' ''app_user'' ''id'')"
    using True by (simp add: table assignment_columns [OF assms(6)] primary_keys)
  moreover have "table_accepts c (''user_channel'', ch) \<longleftrightarrow>
      list_all (\<lambda>((p, a), ch). py_len p \<le> 32 \<and> py_len a \<le> 128 \<and> py_len ch \<le> 128) (channels d)"
    using True by (simp add: table channel_columns [OF assms(7)] primary_keys)
  moreover have "table_accepts c (''mapping_state'', ms) \<longleftrightarrow>
      (case state_version d of None \<Rightarrow> True | Some v \<Rightarrow> - (2 ^ 63) \<le> v \<and> v < 2 ^ 63)"
    by (simp add: table state_columns [OF assms(8)] primary_keys)
  moreover have "schema_ok d \<longleftrightarrow> unique_rows [''external_user_id''] (stored_users clock d) \<and>
      unique_rows [''user_id'', ''provider''] (stored_identities clock d) \<and>
      references (stored_identities clock d) (stored_users clock d) (cascade_to ''user_id'' ''app_user'' ''id'') \<and>
      unique_rows [''user_id''] (stored_assignments clock d) \<and>
      references (stored_assignments clock d) (stored_instances clock seal d)
        (cascade_to ''instance_uuid'' ''instance'' ''instance_uuid'') \<and>
      references (stored_assignments clock d) (stored_users clock d) (cascade_to ''user_id'' ''app_user'' ''id'')"
    using True by (auto simp: schema_ok_def unique_externals unique_user_provider unique_owner foreign_keys_stored)
  ultimately show ?thesis
    by (simp only: accepts_def assms(2) list.pred_inject values_fit_def) (simp only: simp_thms conj_ac)
next
  case False
  then have "\<not> accepts c"
    by (auto simp: accepts_def assms(2) table_accepts_def rows_stored [OF assms(1)] primary_keys
        instance_keys [OF assms(3)] user_keys [OF assms(4)] identity_keys [OF assms(5)]
        assignment_keys [OF assms(6)] channel_keys [OF assms(7)])
  moreover have "\<not> schema_ok d" using False unfolding schema_ok_def by argo
  ultimately show ?thesis by simp
qed

text \<open>
  Property C25. The migrations of an empty database leave the rows of \<open>migrated_db\<close>. A database of
  the ORM satisfies the migrated schema, and likewise the schema the classes declare, exactly when
  \<open>schema_ok\<close> holds of it and its values fit their columns, whatever its timestamps and however its
  secrets are stored.
\<close>

theorem schema_is_schema_ok:
  "table_rows (head_schema now) = stored (\<lambda>_ _. now) seal migrated_db \<and>
   (accepts ((head_schema now)\<lparr>table_rows := stored clock seal d\<rparr>) \<longleftrightarrow> schema_ok d \<and> values_fit d) \<and>
   (accepts (metadata\<lparr>table_rows := stored clock seal d\<rparr>) \<longleftrightarrow> schema_ok d \<and> values_fit d)"
proof (intro conjI)
  show "table_rows (head_schema now) = stored (\<lambda>_ _. now) seal migrated_db"
    by (simp add: head_schema_simps rows_001_def rows_002_def stored_def stored_instances_def stored_users_def
        stored_identities_def stored_assignments_def stored_channels_def stored_state_def migrated_db_def)
qed (intro accepts_stored [where clock = clock and seal = seal],
      simp_all add: head_schema_simps metadata_def tables_001_def tables_002_def indexes_001_def, simp_all)+

section \<open>Where the two schemas differ\<close>

definition column_differences :: "catalog \<Rightarrow> catalog \<Rightarrow> (string \<times> column \<times> column) list" where
  "column_differences a b =
     concat (map (\<lambda>(n, t). case dict_get (tables b) n of
         None \<Rightarrow> []
       | Some t' \<Rightarrow> map (Pair n) (filter (\<lambda>(c, c'). c \<noteq> c') (zip (columns t) (columns t')))) (tables a))"

text \<open>
  Declared and migrated tables have the same names, columns, primary and foreign keys. The timestamps are
  declared \<open>NOT NULL\<close> but migrated as nullable, two indexes exist only in the migrations, and
  the key over external ids is a constraint besides the index only there.
\<close>

theorem declared_and_migrated_differ:
  "map (\<lambda>(n, t). (n, map col_name (columns t), primary_key t, foreign_keys t)) (tables metadata) =
     map (\<lambda>(n, t). (n, map col_name (columns t), primary_key t, foreign_keys t)) (tables (head_schema now)) \<and>
   map (\<lambda>(n, c, c'). (n, c')) (column_differences metadata (head_schema now)) =
     [(''instance'', stamp_column ''created_at''), (''app_user'', stamp_column ''created_at''),
      (''user_identity'', stamp_column ''created_at''), (''user_instance'', stamp_column ''assigned_at''),
      (''user_channel'', stamp_column ''updated_at''), (''mapping_state'', stamp_column ''updated_at'')] \<and>
   list_all (\<lambda>(n, c, c'). c = c'\<lparr>nullable := False\<rparr>) (column_differences metadata (head_schema now)) \<and>
   map fst (indexes metadata) = [''ix_app_user_external_user_id''] \<and>
   map fst (indexes (head_schema now)) = index_names \<and>
   filter (\<lambda>(t, t'). unique_constraints (snd t) \<noteq> unique_constraints (snd t'))
     (zip (tables metadata) (tables (head_schema now))) = [((''app_user'', AppUser), (''app_user'', app_user_table))]"
proof (intro conjI)
  note defs = head_schema_simps metadata_def tables_001_def tables_002_def indexes_001_def index_names_def
    migration_tables declared_tables dict_get_Cons column_differences_def
  show "map (\<lambda>(n, t). (n, map col_name (columns t), primary_key t, foreign_keys t)) (tables metadata) =
     map (\<lambda>(n, t). (n, map col_name (columns t), primary_key t, foreign_keys t)) (tables (head_schema now))"
    by (simp add: defs)
  show "map (\<lambda>(n, c, c'). (n, c')) (column_differences metadata (head_schema now)) =
     [(''instance'', stamp_column ''created_at''), (''app_user'', stamp_column ''created_at''),
      (''user_identity'', stamp_column ''created_at''), (''user_instance'', stamp_column ''assigned_at''),
      (''user_channel'', stamp_column ''updated_at''), (''mapping_state'', stamp_column ''updated_at'')]"
    by (simp add: defs)
  show "list_all (\<lambda>(n, c, c'). c = c'\<lparr>nullable := False\<rparr>) (column_differences metadata (head_schema now))"
    by (simp add: defs)
  show "map fst (indexes metadata) = [''ix_app_user_external_user_id'']"
    "map fst (indexes (head_schema now)) = index_names"
    by (simp_all add: defs)
  show "filter (\<lambda>(t, t'). unique_constraints (snd t) \<noteq> unique_constraints (snd t'))
     (zip (tables metadata) (tables (head_schema now))) = [((''app_user'', AppUser), (''app_user'', app_user_table))]"
    by (simp add: defs)
qed

end
