(* ===== verification/Spec2Isabelle.thy ===== *)
theory Spec2Isabelle
  imports Crypto CacheCoherence OpenClawClient RouterOut Telegram VkTeams Slack Bitrix Mattermost ApiLaws Sync PoolRefinement Server MockOpenClaw SchemaMatch
begin

text \<open>
  A verification development for ClawMux, the router between chat platforms and per-user
  OpenClaw instances.

  \<^bold>\<open>The program.\<close> One process (\<open>src/main.py\<close>) listens on up to six chat platforms. An
  adapter (\<open>src/services/{mattermost,slack,telegram,vk_teams,bitrix,teams}.py\<close>) turns what the platform
  sends, by a websocket, by long polling or by a webhook of \<open>src/api/\<close>, into an event, and the
  router (\<open>src/router.py\<close>) handles it: it remembers the channel and finds the user's instance
  (\<open>src/services/mapping.py\<close> over the tables of \<open>src/core/models.py\<close>, with caches checked against a
  version in the database), provisions one when none exists and provisioning is on
  (\<open>src/services/provisioner.py\<close>), or else asks Dify (\<open>src/services/dify_client.py\<close>) or tells the
  user. It downloads attachments (\<open>src/services/file_manager.py\<close>), sends the message over the user's
  connection (\<open>src/services/ws_manager.py\<close>, one client of \<open>src/services/openclaw_client.py\<close> per user),
  and shows the answer, whose parts the aggregator (\<open>src/utils/claw_aggregator.py\<close>) has collected, in
  the chat, streamed through a throttle. Answers nobody waits for go out as proactive messages.
  The control plane (\<open>src/api/{trigger,notify,mapping}.py\<close>) starts messages from outside.

  \<^bold>\<open>Conventions.\<close> Definitions carry the names of the source, with a prefix where several classes
  share one (\<open>tg_\<close>, \<open>vk_\<close>, \<open>sl_\<close>, \<open>bx_\<close>, \<open>mm_\<close>, \<open>tm_\<close>). A class is a record, an exception a value
  of \<open>result\<close>, a dictionary a list in insertion order, a text the bytes of its UTF-8 encoding, a JSON
  value a datatype. Sequential code with side effects is an effect (\<open>Effects\<close>): a function from a
  state to a result and a state, so that what an exception leaves behind is part of the model. Code
  whose interleaving matters is a state machine whose steps are the stretches between two
  \<open>await\<close>s. Libraries and peers are parameters: the answers of an HTTP API, of a websocket, of
  the disk's \<open>realpath\<close>, of the clock. What is needed of them is a named hypothesis
  (\<open>fernet_law\<close>, the server laws of \<open>long_poll\<close>, the walk of a template) that the witnesses
  discharge on concrete functions.

  \<^bold>\<open>Foundations.\<close>
  \<^item> \<open>Prelude\<close>: results, dictionaries, the contract of a key-value store (\<open>store\<close>, given by
    the dictionaries) and of a machine with an invariant (\<open>event_machine\<close>: every step keeps it, so
    every run does; interpreted on the mutations of the mapping, the aggregator, the OpenClaw client,
    the pool and the whole process).
  \<^item> \<open>PyStr\<close>, \<open>Json\<close>: the operations of \<open>str\<close> and of JSON values that the program uses.
  \<^item> \<open>Effects\<close>: statements, sequencing, \<open>try\<close>; \<open>frame\<close> is the contract of a relation between the states
    before and after that composition preserves. It carries every theorem on what an operation
    leaves alone.
  \<^item> \<open>Settings\<close> (\<open>src/core/config.py\<close>): the configuration with its defaults.

  \<^bold>\<open>Storage.\<close>
  \<^item> \<open>Crypto\<close> (\<open>src/core/crypto.py\<close>, \<open>scripts/encrypt_existing_credentials.py\<close>): the encrypted column
    reads back what was written; the migration of plaintext rows seals all of them, changes no
    secret and is idempotent.
  \<^item> \<open>Models\<close>, \<open>MappingStorage\<close> (\<open>src/core/models.py\<close>, \<open>src/services/mapping.py\<close>): the tables, their constraints
    (\<open>schema_ok\<close>), queries, caches and the transaction that binds a user. Binds and channel
    updates keep the constraints, so two chat identities never share an instance.
  \<^item> \<open>Schema\<close>, \<open>Migrations\<close>, \<open>SchemaMatch\<close> (\<open>alembic/\<close>, \<open>src/core/models.py\<close>): the migrations as schema
    operations with the meaning PostgreSQL gives them, and the schema the classes declare. Upgrading and
    downgrading is a round trip; both schemas accept exactly the databases of \<open>schema_ok\<close> whose values
    fit their columns; where they differ is a list. \<open>Migrations\<close> also follows the database's URL through
    the options of Alembic: a percent-encoded one is refused.
  \<^item> \<open>CacheCoherence\<close>: several replicas over one database, lookups and binds interleaved at every
    \<open>await\<close>. A cached lookup is a lookup in the database; \<open>versioned_cache\<close> is the contract, once for
    the identity cache and once for the cache by external id. The caches stay bounded.

  \<^bold>\<open>Files.\<close>
  \<^item> \<open>FilePaths\<close> (\<open>src/services/file_manager.py\<close>): a container path that is accepted lies in the user's
    directory, lexically and after \<open>realpath\<close>; downloads stay in the download directory.
  \<^item> \<open>Provisioner\<close> (\<open>src/services/provisioner.py\<close>), \<open>Sync\<close>
    (\<open>scripts/sync_workspace_templates.py\<close>): only a vetted answer of the orchestrator is stored, and
    files appear only below the workspaces meant. \<open>Sync\<close> adds directories and shell commands to the
    disk and compares a sync with the seeding by the provisioner.

  \<^bold>\<open>OpenClaw.\<close>
  \<^item> \<open>OpenClawAuth\<close>: base64url (round trip), the signed connect request (equal signed texts have
    equal fields), \<open>connect\<close> with its retry and the fate of every socket.
  \<^item> \<open>Aggregator\<close>: the debounce tasks refine a buffer that emits after a quiet period.
  \<^item> \<open>OpenClawClient\<close>: one request in flight, frame dispatch, answers delivered exactly once, the
    end of a request by answer, time-out, disconnect or close; the removal of container paths from
    a visible text.
  \<^item> \<open>MockOpenClaw\<close> (\<open>scripts/mock_openclaw.py\<close>): a peer for that client.
  \<^item> \<open>WsManager\<close>: the operations of the pool, one at a time: ownership of connections, retry with the
    same idempotency key, back-off, cleanup, and the per-user locks. \<open>PoolTasks\<close>: the same pool with
    all tasks interleaved at their \<open>await\<close>s: the invariant that holds while nothing is closed from
    outside, and the runs that break it when something is. \<open>PoolRefinement\<close>: the sequential
    operations are the tasks' uninterrupted runs.

  \<^bold>\<open>Chat platforms.\<close>
  \<^item> \<open>ChatAdapter\<close> (\<open>src/services/chat_adapter.py\<close>): events, adapters, registry, and the throttle of
    streamed updates.
  \<^item> \<open>Http\<close>, \<open>Adapters\<close>, \<open>Polling\<close>: requests over an HTTP client, the interface of an adapter as a
    record of operations with its contract \<open>chat_adapter\<close> (every operation makes only requests of its
    own kind and keeps the configuration), and the contract \<open>long_poll\<close>.
  \<^item> \<open>Mattermost\<close>, \<open>Slack\<close>, \<open>Telegram\<close>, \<open>VkTeams\<close>, \<open>Bitrix\<close>, \<open>Teams\<close>: the six adapters, each an
    interpretation of \<open>chat_adapter\<close>, so credentials go only where they belong; Telegram and VK Teams
    are interpretations of \<open>long_poll\<close>: waiting updates are handled once and in order.
  \<^item> \<open>Urls\<close> (\<open>src/services/teams_auth.py\<close>): \<open>urlparse\<close>, the whitelist of service URLs, the bearer token.
  \<^item> \<open>Dify\<close>: the fallback's event stream.

  \<^bold>\<open>Router, API and process.\<close>
  \<^item> \<open>Router\<close>: all handlers as effects on the components together. \<open>RouterLaws\<close>: \<open>router_frame\<close> and
    \<open>router_files\<close> say what a handler may call and which files it may send; from their
    interpretation follow where answers go and what the user gets. \<open>RouterOut\<close>: proactive messages,
    users without an instance, files on Mattermost, late updates. \<open>RouterDemo\<close>: a concrete world for
    the witnesses.
  \<^item> \<open>Api\<close>, \<open>ApiLaws\<close> (\<open>src/api/\<close>, \<open>src/utils/tasks.py\<close>): the endpoints with their guards
    (\<open>guarded_endpoint\<close>, one interpretation per endpoint), the tasks they queue, and what these do.
  \<^item> \<open>Server\<close> (\<open>src/main.py\<close>, \<open>src/utils/health.py\<close>): startup, any run, shutdown, and the probes.

  \<^bold>\<open>Bounds and fuel.\<close> Recursion is structural or has a measure, with few exceptions. \<open>py_replace\<close>
  and the search for container paths scan with fuel equal to the length of the text; each round
  consumes a character, and \<open>replace_fuel_enough\<close> shows more fuel changes nothing. Retries
  of \<open>connect\<close> and of the pool run over the list of attempts the configuration gives. Loops
  that end only by a shutdown (polling, websockets, typing) are lists of rounds or of inputs, and
  theorems hold for every length; that enough rounds drain a queue is part of the polling theorem.
  The chain of migrations has as many steps as there are migrations, and references between options
  nest at most ten deep, as in the library. Integers are Python's, unbounded, except in the columns of the
  schema, which have 32 and 64 bits; clocks are rational numbers.

  \<^bold>\<open>What is not modelled.\<close> The declarations of the Prometheus metrics (\<open>src/utils/metrics.py\<close>) and the
  engine's configuration (\<open>src/core/database.py\<close>) only call libraries. Logging, FastAPI's parsing of
  requests, uvicorn, pydantic's reading of the environment, and the client's raw dump file are left
  out. Comments of tables and columns and the attributes of relationships are not part of the schema,
  and a write of the mapping storage does not check column lengths. Ed25519, Fernet, JWT verification, \<open>httpx\<close>,
  \<open>json\<close> and the Unicode tables are parameters; \<open>strip\<close> and \<open>lower\<close> act on ASCII. Handlers of the router run
  one at a time; interleaving is modelled where the code shares state across \<open>await\<close>s by intent: the
  caches, the pool, the aggregator, the client.
\<close>

end
